(* ===== verification/Prelude.thy ===== *)
theory Prelude
  imports Main "HOL-Library.Char_ord" "HOL-Library.List_Lexorder" "HOL-Library.Code_Target_Nat"
begin

text \<open>
  Shared material of the development: results that may be errors, with their
  sequencing and their traversal of lists; association lists that stand for Go maps;
  the collections of rewrite rules that the component theories fill.
  A Go \<^verbatim>\<open>string\<close> is a sequence of bytes, and an Isabelle \<^typ>\<open>char\<close> is a byte,
  so the type \<^typ>\<open>string\<close> is Go's string type exactly.
\<close>

named_theorems go_string "rewrite rules for the functions of Go's strings package"
named_theorems res_simps "rules that take apart a computation that returned a value"

section \<open>Results\<close>

text \<open>
  A function of the source that returns \<^verbatim>\<open>(value, error)\<close> is a function into
  a sum: \<open>Inl\<close> is the error, \<open>Inr\<close> the value. \<open>bindE\<close> is the idiom
  \<^verbatim>\<open>if err != nil { return err }\<close>; \<open>guardE\<close> is a check that returns an error
  when its condition fails.
\<close>

fun bindE :: "'e + 'a \<Rightarrow> ('a \<Rightarrow> 'e + 'b) \<Rightarrow> 'e + 'b" where
  "bindE (Inl e) f = Inl e"
| "bindE (Inr x) f = f x"

definition guardE :: "bool \<Rightarrow> 'e \<Rightarrow> 'e + unit" where
  "guardE b e = (if b then Inr () else Inl e)"

fun mapE :: "('a \<Rightarrow> 'e + 'b) \<Rightarrow> 'a list \<Rightarrow> 'e + 'b list" where
  "mapE f [] = Inr []"
| "mapE f (x # xs) = bindE (f x) (\<lambda>y. bindE (mapE f xs) (\<lambda>ys. Inr (y # ys)))"

definition of_option :: "'e \<Rightarrow> 'a option \<Rightarrow> 'e + 'a" where
  "of_option e m = (case m of None \<Rightarrow> Inl e | Some x \<Rightarrow> Inr x)"

lemma bindE_cong [fundef_cong]:
  "m = m' \<Longrightarrow> (\<And>x. m' = Inr x \<Longrightarrow> f x = f' x) \<Longrightarrow> bindE m f = bindE m' f'"
  by (cases m') auto

lemma bindE_eq_Inr [res_simps]:
  "bindE m f = Inr y \<longleftrightarrow> (\<exists>x. m = Inr x \<and> f x = Inr y)"
  by (cases m) auto

lemma bindE_eq_Inl:
  "bindE m f = Inl e \<longleftrightarrow> m = Inl e \<or> (\<exists>x. m = Inr x \<and> f x = Inl e)"
  by (cases m) auto

lemma guardE_eq_Inr [res_simps]: "guardE b e = Inr u \<longleftrightarrow> b"
  by (simp add: guardE_def)

lemma guardE_simps [simp]: "guardE True e = Inr ()" "guardE False e = Inl e"
  by (simp_all add: guardE_def)

lemma bindE_guardE_eq_Inr [res_simps]:
  "bindE (guardE b e) f = Inr y \<longleftrightarrow> b \<and> f () = Inr y"
  by (cases b) (simp_all add: guardE_def)

lemma of_option_eq_Inr [res_simps]: "of_option e m = Inr x \<longleftrightarrow> m = Some x"
  by (cases m) (auto simp: of_option_def)

lemma of_option_simps [simp]: "of_option e None = Inl e" "of_option e (Some x) = Inr x"
  by (simp_all add: of_option_def)

lemma mapE_eq_Inr:
  "mapE f xs = Inr ys \<longleftrightarrow> list_all2 (\<lambda>x y. f x = Inr y) xs ys"
  by (induction xs arbitrary: ys) (auto simp: bindE_eq_Inr list_all2_Cons1)

lemma mapE_Inr_length: "mapE f xs = Inr ys \<Longrightarrow> length ys = length xs"
  by (auto simp: mapE_eq_Inr dest: list_all2_lengthD)

lemma mapE_Inr_setD:
  assumes "mapE f xs = Inr ys" and "y \<in> set ys"
  shows "\<exists>x \<in> set xs. f x = Inr y"
  using assms by (induction xs arbitrary: ys) (auto simp: bindE_eq_Inr)

lemma mapE_Inr_set_srcD:
  assumes "mapE f xs = Inr ys" and "x \<in> set xs"
  shows "\<exists>y \<in> set ys. f x = Inr y"
  using assms by (induction xs arbitrary: ys) (auto simp: bindE_eq_Inr)

lemma mapE_total:
  assumes "\<And>x. x \<in> set xs \<Longrightarrow> f x = Inr (g x)"
  shows "mapE f xs = Inr (map g xs)"
  using assms by (induction xs) auto

section \<open>Go maps\<close>

text \<open>
  A Go map whose iteration order matters to no result is a partial function. Where the
  source ranges over a map, the model keeps the entries as an association list with
  distinct keys: one of the orders that Go may choose.
\<close>

definition keys :: "('k \<times> 'v) list \<Rightarrow> 'k list" where
  "keys m = map fst m"

lemma keys_simps [simp]: "keys [] = []" "keys ((k, v) # m) = k # keys m"
  by (simp_all add: keys_def)

lemma set_keys: "set (keys m) = fst ` set m"
  by (simp add: keys_def)

lemma map_of_in_keys: "map_of m k = Some v \<Longrightarrow> k \<in> set (keys m)"
  by (force simp: keys_def dest: map_of_SomeD)

lemma map_of_None_keys: "map_of m k = None \<longleftrightarrow> k \<notin> set (keys m)"
  by (simp add: keys_def map_of_eq_None_iff)

end
