(* ===== verification/Go_Unicode.thy ===== *)
theory Go_Unicode
  imports Prelude
begin

text \<open>
  UTF-8 and the character classes of Go's \<^verbatim>\<open>unicode\<close> and \<^verbatim>\<open>unicode/utf8\<close>
  packages, as far as the program uses them. A rune is a natural number. Ranging over a
  string is \<open>runes\<close>: the runes in order, each with the bytes it was read from; a byte
  that starts no valid encoding is read alone, as \<open>RuneError\<close>.
\<close>

section \<open>UTF-8\<close>

type_synonym rune = nat

definition RuneError :: rune where
  "RuneError = 65533"

definition byte :: "char \<Rightarrow> nat" where
  "byte c = of_char c"

definition cont_byte :: "char \<Rightarrow> bool" where
  "cont_byte c = (128 \<le> byte c \<and> byte c \<le> 191)"

text \<open>The range of the second byte, which excludes overlong forms and surrogates.\<close>

definition accept_second :: "nat \<Rightarrow> char \<Rightarrow> bool" where
  "accept_second b0 c =
     ((if b0 = 224 then 160 else if b0 = 240 then 144 else 128) \<le> byte c \<and>
      byte c \<le> (if b0 = 237 then 159 else if b0 = 244 then 143 else 191))"

definition decode_rune :: "char \<Rightarrow> string \<Rightarrow> rune \<times> nat" where
  "decode_rune c cs =
     (let b0 = byte c in
      if b0 < 128 then (b0, 1)
      else if 194 \<le> b0 \<and> b0 \<le> 223 then
        (case cs of
           c1 # _ \<Rightarrow> if cont_byte c1 then ((b0 mod 32) * 64 + byte c1 mod 64, 2) else (RuneError, 1)
         | _ \<Rightarrow> (RuneError, 1))
      else if 224 \<le> b0 \<and> b0 \<le> 239 then
        (case cs of
           c1 # c2 # _ \<Rightarrow>
             if accept_second b0 c1 \<and> cont_byte c2
             then (((b0 mod 16) * 64 + byte c1 mod 64) * 64 + byte c2 mod 64, 3)
             else (RuneError, 1)
         | _ \<Rightarrow> (RuneError, 1))
      else if 240 \<le> b0 \<and> b0 \<le> 244 then
        (case cs of
           c1 # c2 # c3 # _ \<Rightarrow>
             if accept_second b0 c1 \<and> cont_byte c2 \<and> cont_byte c3
             then ((((b0 mod 8) * 64 + byte c1 mod 64) * 64 + byte c2 mod 64) * 64 + byte c3 mod 64, 4)
             else (RuneError, 1)
         | _ \<Rightarrow> (RuneError, 1))
      else (RuneError, 1))"

fun runes :: "string \<Rightarrow> (rune \<times> string) list" where
  "runes [] = []"
| "runes (c # cs) =
     (let rw = decode_rune c cs
      in (fst rw, take (snd rw) (c # cs)) # runes (drop (snd rw - 1) cs))"

definition ValidString :: "string \<Rightarrow> bool" where
  "ValidString s = list_all (\<lambda>(r, bs). \<not> (r = RuneError \<and> length bs = 1)) (runes s)"

definition rune_list :: "string \<Rightarrow> rune list" where
  "rune_list s = map fst (runes s)"

definition encode_rune :: "rune \<Rightarrow> string" where
  "encode_rune r0 =
     (let r = (if r0 > 1114111 \<or> (55296 \<le> r0 \<and> r0 \<le> 57343) then RuneError else r0) in
      if r < 128 then [char_of r]
      else if r < 2048 then [char_of (192 + r div 64), char_of (128 + r mod 64)]
      else if r < 65536 then
        [char_of (224 + r div 4096), char_of (128 + r div 64 mod 64), char_of (128 + r mod 64)]
      else
        [char_of (240 + r div 262144), char_of (128 + r div 4096 mod 64),
         char_of (128 + r div 64 mod 64), char_of (128 + r mod 64)])"

section \<open>Character classes\<close>

definition IsControl :: "rune \<Rightarrow> bool" where
  "IsControl r = (r < 32 \<or> (127 \<le> r \<and> r \<le> 159))"

definition IsSpace :: "rune \<Rightarrow> bool" where
  "IsSpace r =
     ((9 \<le> r \<and> r \<le> 13) \<or> r = 32 \<or> r = 133 \<or> r = 160 \<or> r = 5760 \<or> (8192 \<le> r \<and> r \<le> 8202) \<or>
      r = 8232 \<or> r = 8233 \<or> r = 8239 \<or> r = 8287 \<or> r = 12288)"

text \<open>
  The simple lower-case mapping beyond ASCII, as runs of code points that are moved by the
  same distance: first and last code point of the run, step, distance.
\<close>

definition lower_runs :: "(nat \<times> nat \<times> nat \<times> int) list" where
  "lower_runs =
   [
    (192, 214, 1, 32), (216, 222, 1, 32), (256, 302, 2, 1), (304, 304, 1, - 199),
    (306, 310, 2, 1), (313, 327, 2, 1), (330, 374, 2, 1), (376, 376, 1, - 121),
    (377, 381, 2, 1), (385, 385, 1, 210), (386, 388, 2, 1), (390, 390, 1, 206),
    (391, 391, 1, 1), (393, 394, 1, 205), (395, 395, 1, 1), (398, 398, 1, 79),
    (399, 399, 1, 202), (400, 400, 1, 203), (401, 401, 1, 1), (403, 403, 1, 205),
    (404, 404, 1, 207), (406, 406, 1, 211), (407, 407, 1, 209), (408, 408, 1, 1),
    (412, 412, 1, 211), (413, 413, 1, 213), (415, 415, 1, 214), (416, 420, 2, 1),
    (422, 422, 1, 218), (423, 423, 1, 1), (425, 425, 1, 218), (428, 428, 1, 1),
    (430, 430, 1, 218), (431, 431, 1, 1), (433, 434, 1, 217), (435, 437, 2, 1),
    (439, 439, 1, 219), (440, 440, 1, 1), (444, 444, 1, 1), (452, 452, 1, 2), (453, 453, 1, 1),
    (455, 455, 1, 2), (456, 456, 1, 1), (458, 458, 1, 2), (459, 475, 2, 1), (478, 494, 2, 1),
    (497, 497, 1, 2), (498, 500, 2, 1), (502, 502, 1, - 97), (503, 503, 1, - 56),
    (504, 542, 2, 1), (544, 544, 1, - 130), (546, 562, 2, 1), (570, 570, 1, 10795),
    (571, 571, 1, 1), (573, 573, 1, - 163), (574, 574, 1, 10792), (577, 577, 1, 1),
    (579, 579, 1, - 195), (580, 580, 1, 69), (581, 581, 1, 71), (582, 590, 2, 1),
    (880, 882, 2, 1), (886, 886, 1, 1), (895, 895, 1, 116), (902, 902, 1, 38),
    (904, 906, 1, 37), (908, 908, 1, 64), (910, 911, 1, 63), (913, 929, 1, 32),
    (931, 939, 1, 32), (975, 975, 1, 8), (984, 1006, 2, 1), (1012, 1012, 1, - 60),
    (1015, 1015, 1, 1), (1017, 1017, 1, - 7), (1018, 1018, 1, 1), (1021, 1023, 1, - 130),
    (1024, 1039, 1, 80), (1040, 1071, 1, 32), (1120, 1152, 2, 1), (1162, 1214, 2, 1),
    (1216, 1216, 1, 15), (1217, 1229, 2, 1), (1232, 1326, 2, 1), (1329, 1366, 1, 48),
    (4256, 4293, 1, 7264), (4295, 4295, 1, 7264), (4301, 4301, 1, 7264), (5024, 5103, 1, 38864),
    (5104, 5109, 1, 8), (7312, 7354, 1, - 3008), (7357, 7359, 1, - 3008), (7680, 7828, 2, 1),
    (7838, 7838, 1, - 7615), (7840, 7934, 2, 1), (7944, 7951, 1, - 8), (7960, 7965, 1, - 8),
    (7976, 7983, 1, - 8), (7992, 7999, 1, - 8), (8008, 8013, 1, - 8), (8025, 8031, 2, - 8),
    (8040, 8047, 1, - 8), (8072, 8079, 1, - 8), (8088, 8095, 1, - 8), (8104, 8111, 1, - 8),
    (8120, 8121, 1, - 8), (8122, 8123, 1, - 74), (8124, 8124, 1, - 9), (8136, 8139, 1, - 86),
    (8140, 8140, 1, - 9), (8152, 8153, 1, - 8), (8154, 8155, 1, - 100), (8168, 8169, 1, - 8),
    (8170, 8171, 1, - 112), (8172, 8172, 1, - 7), (8184, 8185, 1, - 128),
    (8186, 8187, 1, - 126), (8188, 8188, 1, - 9), (8486, 8486, 1, - 7517),
    (8490, 8490, 1, - 8383), (8491, 8491, 1, - 8262), (8498, 8498, 1, 28), (8544, 8559, 1, 16),
    (8579, 8579, 1, 1), (9398, 9423, 1, 26), (11264, 11311, 1, 48), (11360, 11360, 1, 1),
    (11362, 11362, 1, - 10743), (11363, 11363, 1, - 3814), (11364, 11364, 1, - 10727),
    (11367, 11371, 2, 1), (11373, 11373, 1, - 10780), (11374, 11374, 1, - 10749),
    (11375, 11375, 1, - 10783), (11376, 11376, 1, - 10782), (11378, 11378, 1, 1),
    (11381, 11381, 1, 1), (11390, 11391, 1, - 10815), (11392, 11490, 2, 1),
    (11499, 11501, 2, 1), (11506, 11506, 1, 1), (42560, 42604, 2, 1), (42624, 42650, 2, 1),
    (42786, 42798, 2, 1), (42802, 42862, 2, 1), (42873, 42875, 2, 1),
    (42877, 42877, 1, - 35332), (42878, 42886, 2, 1), (42891, 42891, 1, 1),
    (42893, 42893, 1, - 42280), (42896, 42898, 2, 1), (42902, 42920, 2, 1),
    (42922, 42922, 1, - 42308), (42923, 42923, 1, - 42319), (42924, 42924, 1, - 42315),
    (42925, 42925, 1, - 42305), (42926, 42926, 1, - 42308), (42928, 42928, 1, - 42258),
    (42929, 42929, 1, - 42282), (42930, 42930, 1, - 42261), (42931, 42931, 1, 928),
    (42932, 42946, 2, 1), (42948, 42948, 1, - 48), (42949, 42949, 1, - 42307),
    (42950, 42950, 1, - 35384), (42951, 42953, 2, 1), (42960, 42960, 1, 1),
    (42966, 42968, 2, 1), (42997, 42997, 1, 1), (65313, 65338, 1, 32), (66560, 66599, 1, 40),
    (66736, 66771, 1, 40), (66928, 66938, 1, 39), (66940, 66954, 1, 39), (66956, 66962, 1, 39),
    (66964, 66965, 1, 39), (68736, 68786, 1, 64), (71840, 71871, 1, 32), (93760, 93791, 1, 32),
    (125184, 125217, 1, 34)]"

definition unicode_ToLower :: "rune \<Rightarrow> rune" where
  "unicode_ToLower r =
     (if r < 128 then (if 65 \<le> r \<and> r \<le> 90 then r + 32 else r)
      else case find (\<lambda>(lo, hi, st, d). lo \<le> r \<and> r \<le> hi \<and> (r - lo) mod st = 0) lower_runs of
             None \<Rightarrow> r
           | Some (lo, hi, st, d) \<Rightarrow> nat (int r + d))"

section \<open>Facts\<close>

lemma byte_bound [simp]: "byte c < 256"
  by (simp add: byte_def nat_of_char_less_256)

lemma byte_inject [simp]: "byte c = byte d \<longleftrightarrow> c = d"
  by (simp add: byte_def of_char_eq_iff)

lemma decode_rune_width: "1 \<le> snd (decode_rune c cs)"
  by (simp add: decode_rune_def Let_def split: list.splits)

lemma decode_rune_width_le: "snd (decode_rune c cs) \<le> Suc (length cs)"
  by (simp add: decode_rune_def Let_def split: list.splits)

text \<open>Reading a string rune by rune loses nothing.\<close>

lemma concat_runes: "concat (map snd (runes s)) = s"
proof (induction s rule: runes.induct)
  case (2 c cs)
  have "take (snd (decode_rune c cs)) (c # cs) @ drop (snd (decode_rune c cs) - 1) cs = c # cs"
    using decode_rune_width [of c cs] by (cases "snd (decode_rune c cs)") simp_all
  with 2 show ?case by (simp add: Let_def)
qed simp

lemma runes_ascii:
  assumes "list_all (\<lambda>c. byte c < 128) s"
  shows "runes s = map (\<lambda>c. (byte c, [c])) s"
  using assms by (induction s) (simp_all add: decode_rune_def Let_def)

lemma rune_list_ascii: "list_all (\<lambda>c. byte c < 128) s \<Longrightarrow> rune_list s = map byte s"
  by (simp add: rune_list_def runes_ascii)

lemma runes_nonempty: "s \<noteq> [] \<Longrightarrow> runes s \<noteq> []"
  by (cases s) (simp_all add: Let_def)

lemma rune_list_eq_Nil [simp]: "rune_list s = [] \<longleftrightarrow> s = []"
  by (cases s) (simp_all add: rune_list_def Let_def)

lemma ValidString_ascii: "list_all (\<lambda>c. byte c < 128) s \<Longrightarrow> ValidString s"
  by (auto simp: ValidString_def runes_ascii list_all_iff RuneError_def)

text \<open>For evaluation: a segment is invalid if it is a single byte that is not ASCII.\<close>

lemma decode_rune_error_iff:
  "decode_rune c cs = (RuneError, 1) \<longleftrightarrow> snd (decode_rune c cs) = 1 \<and> 128 \<le> byte c"
  by (auto simp: decode_rune_def Let_def RuneError_def split: list.splits if_splits)

lemma runes_segment:
  "(r, bs) \<in> set (runes s) \<Longrightarrow> \<exists>c cs. r = fst (decode_rune c cs) \<and> bs = take (snd (decode_rune c cs)) (c # cs)"
  by (induction s rule: runes.induct) (auto simp: Let_def)

lemma ValidString_code [code]:
  "ValidString s = list_all (\<lambda>(r, bs). case bs of [c] \<Rightarrow> byte c < 128 | _ \<Rightarrow> True) (runes s)"
proof -
  have "(r = RuneError \<and> length bs = 1) \<longleftrightarrow> \<not> (case bs of [c] \<Rightarrow> byte c < 128 | _ \<Rightarrow> True)"
    if seg: "(r, bs) \<in> set (runes s)" for r bs
  proof -
    obtain c cs where *: "r = fst (decode_rune c cs)" "bs = take (snd (decode_rune c cs)) (c # cs)"
      using runes_segment [OF seg] by blast
    have l: "length bs = snd (decode_rune c cs)"
      using decode_rune_width_le [of c cs] by (simp add: *(2))
    have "bs = c # take (snd (decode_rune c cs) - 1) cs"
      using decode_rune_width [of c cs] by (cases "snd (decode_rune c cs)") (simp_all add: *(2))
    then show ?thesis
      using decode_rune_error_iff [of c cs] l *(1)
      by (cases "decode_rune c cs") (auto split: list.splits)
  qed
  then show ?thesis by (fastforce simp: ValidString_def list_all_iff)
qed

text \<open>
  A rune that was read from a valid encoding is written back as the same bytes, so a valid
  string is determined by its runes.
\<close>

lemma char_of_byte [simp]: "char_of (byte c) = c"
  by (simp add: byte_def)

lemma char_of_byteI: "n = byte c \<Longrightarrow> char_of n = c"
  by simp

lemma mod_block: "q * n \<le> x \<Longrightarrow> x < q * n + n \<Longrightarrow> x mod n = x - q * n" for x :: nat
proof -
  assume *: "q * n \<le> x" "x < q * n + n"
  then have "x mod n = (q * n + (x - q * n)) mod n" by simp
  also have "\<dots> = (x - q * n) mod n" by (rule mod_mult_self3)
  also have "\<dots> = x - q * n" using * by simp
  finally show ?thesis .
qed

lemma lead_mod:
  "194 \<le> x \<Longrightarrow> x \<le> 223 \<Longrightarrow> x mod 32 = x - 192"
  "224 \<le> x \<Longrightarrow> x \<le> 239 \<Longrightarrow> x mod 16 = x - 224"
  "240 \<le> x \<Longrightarrow> x \<le> 244 \<Longrightarrow> x mod 8 = x - 240"
  "128 \<le> x \<Longrightarrow> x \<le> 191 \<Longrightarrow> x mod 64 = x - 128" for x :: nat
  using mod_block [of 6 32 x] mod_block [of 14 16 x] mod_block [of 30 8 x] mod_block [of 2 64 x]
  by simp_all

lemma base64_digits:
  fixes a b c d :: nat
  assumes "b < 64" "c < 64" "d < 64"
  shows "(a * 64 + b) div 64 = a" "(a * 64 + b) mod 64 = b"
    "((a * 64 + b) * 64 + c) div 4096 = a" "((a * 64 + b) * 64 + c) div 64 mod 64 = b"
    "((a * 64 + b) * 64 + c) mod 64 = c"
    "(((a * 64 + b) * 64 + c) * 64 + d) div 262144 = a"
    "(((a * 64 + b) * 64 + c) * 64 + d) div 4096 mod 64 = b"
    "(((a * 64 + b) * 64 + c) * 64 + d) div 64 mod 64 = c"
    "(((a * 64 + b) * 64 + c) * 64 + d) mod 64 = d"
proof -
  have step: "(x * 64 + y) div 64 = x" "(x * 64 + y) mod 64 = y" if "y < 64" for x y :: nat
    using that by simp_all
  have d2: "n div 4096 = n div 64 div 64" "n div 262144 = n div 64 div 64 div 64" for n :: nat
    by (simp_all add: div_mult2_eq [symmetric])
  show "(a * 64 + b) div 64 = a" "(a * 64 + b) mod 64 = b"
    "((a * 64 + b) * 64 + c) div 4096 = a" "((a * 64 + b) * 64 + c) div 64 mod 64 = b"
    "((a * 64 + b) * 64 + c) mod 64 = c"
    "(((a * 64 + b) * 64 + c) * 64 + d) div 262144 = a"
    "(((a * 64 + b) * 64 + c) * 64 + d) div 4096 mod 64 = b"
    "(((a * 64 + b) * 64 + c) * 64 + d) div 64 mod 64 = c"
    "(((a * 64 + b) * 64 + c) * 64 + d) mod 64 = d"
    by (simp_all only: d2 step assms)
qed

lemma encode_rune_2:
  assumes "2 \<le> a" "a < 32" "b < 64"
  shows "encode_rune (a * 64 + b) = [char_of (192 + a), char_of (128 + b)]"
proof -
  have "128 \<le> a * 64 + b" "a * 64 + b < 2048" using assms by linarith+
  then show ?thesis
    using assms by (simp add: encode_rune_def Let_def base64_digits)
qed

lemma encode_rune_3:
  assumes "b < 64" "c < 64" and r: "r = (a * 64 + b) * 64 + c"
    and "2048 \<le> r" "r < 65536" "r < 55296 \<or> 57343 < r"
  shows "encode_rune r = [char_of (224 + a), char_of (128 + b), char_of (128 + c)]"
proof -
  have "r div 4096 = a" "r div 64 mod 64 = b" "r mod 64 = c"
    using assms(1,2) base64_digits [of b c 0 a] by (simp_all only: r)
  then show ?thesis
    using assms(4,5,6) by (auto simp: encode_rune_def Let_def)
qed

lemma encode_rune_4:
  assumes "b < 64" "c < 64" "d < 64" and r: "r = ((a * 64 + b) * 64 + c) * 64 + d"
    and "65536 \<le> r" "r \<le> 1114111"
  shows "encode_rune r = [char_of (240 + a), char_of (128 + b), char_of (128 + c), char_of (128 + d)]"
proof -
  have "r div 262144 = a" "r div 4096 mod 64 = b" "r div 64 mod 64 = c" "r mod 64 = d"
    using assms(1-3) base64_digits [of b c d a] by (simp_all only: r)
  then show ?thesis
    using assms(5,6) by (auto simp: encode_rune_def Let_def)
qed

lemma encode_decode_1: "byte c < 128 \<Longrightarrow> encode_rune (byte c) = [c]"
  by (simp add: encode_rune_def Let_def)

lemma encode_decode_2:
  assumes "194 \<le> byte c" "byte c \<le> 223" "cont_byte c1"
  shows "encode_rune ((byte c mod 32) * 64 + byte c1 mod 64) = [c, c1]"
proof -
  have m: "byte c mod 32 = byte c - 192" "byte c1 mod 64 = byte c1 - 128"
    using assms by (simp_all add: lead_mod cont_byte_def)
  have "encode_rune ((byte c - 192) * 64 + (byte c1 - 128)) =
      [char_of (192 + (byte c - 192)), char_of (128 + (byte c1 - 128))]"
    using assms unfolding cont_byte_def by (intro encode_rune_2) linarith+
  also have "\<dots> = [c, c1]"
    using assms by (simp add: cont_byte_def)
  finally show ?thesis by (simp only: m)
qed

lemma encode_decode_3:
  assumes "224 \<le> byte c" "byte c \<le> 239" "accept_second (byte c) c1" "cont_byte c2"
  shows "encode_rune (((byte c mod 16) * 64 + byte c1 mod 64) * 64 + byte c2 mod 64) = [c, c1, c2]"
proof -
  define a b d where "a = byte c - 224" and "b = byte c1 - 128" and "d = byte c2 - 128"
  have ge: "128 \<le> byte c1" "byte c1 \<le> 191" "128 \<le> byte c2" "byte c2 \<le> 191"
    using assms by (auto simp: accept_second_def cont_byte_def split: if_splits)
  have m: "byte c mod 16 = a" "byte c1 mod 64 = b" "byte c2 mod 64 = d"
    using assms(1,2) ge by (simp_all add: lead_mod a_def b_def d_def)
  have bd: "b < 64" "d < 64" "a < 16" using ge assms(1,2) by (simp_all add: a_def b_def d_def)
  have sec: "a = 0 \<Longrightarrow> 32 \<le> b" "a = 13 \<Longrightarrow> b \<le> 31"
    using assms(1,2,3) ge by (auto simp: accept_second_def a_def b_def split: if_splits)
  have "2048 \<le> (a * 64 + b) * 64 + d" using sec by (cases "a = 0") auto
  moreover have "(a * 64 + b) * 64 + d < 65536" using bd by simp
  moreover have "(a * 64 + b) * 64 + d < 55296 \<or> 57343 < (a * 64 + b) * 64 + d"
    using sec bd by (cases "a = 13"; cases "a < 13") auto
  ultimately have "encode_rune ((a * 64 + b) * 64 + d) =
      [char_of (224 + a), char_of (128 + b), char_of (128 + d)]"
    by (intro encode_rune_3 [OF bd(1,2) refl])
  also have "\<dots> = [c, c1, c2]"
    using assms(1,2) ge by (simp add: a_def b_def d_def)
  finally show ?thesis by (simp only: m)
qed

lemma encode_decode_4:
  assumes "240 \<le> byte c" "byte c \<le> 244" "accept_second (byte c) c1" "cont_byte c2" "cont_byte c3"
  shows "encode_rune ((((byte c mod 8) * 64 + byte c1 mod 64) * 64 + byte c2 mod 64) * 64 + byte c3 mod 64) =
    [c, c1, c2, c3]"
proof -
  define a b d e where "a = byte c - 240" and "b = byte c1 - 128" and "d = byte c2 - 128"
    and "e = byte c3 - 128"
  have ge: "128 \<le> byte c1" "byte c1 \<le> 191" "128 \<le> byte c2" "byte c2 \<le> 191" "128 \<le> byte c3" "byte c3 \<le> 191"
    using assms by (auto simp: accept_second_def cont_byte_def split: if_splits)
  have m: "byte c mod 8 = a" "byte c1 mod 64 = b" "byte c2 mod 64 = d" "byte c3 mod 64 = e"
    using assms(1,2) ge by (simp_all add: lead_mod a_def b_def d_def e_def)
  have bd: "b < 64" "d < 64" "e < 64" "a \<le> 4"
    using ge assms(1,2) by (simp_all add: a_def b_def d_def e_def)
  have sec: "a = 0 \<Longrightarrow> 16 \<le> b" "a = 4 \<Longrightarrow> b \<le> 15"
    using assms(1,2,3) ge by (auto simp: accept_second_def a_def b_def split: if_splits)
  have "65536 \<le> ((a * 64 + b) * 64 + d) * 64 + e" using sec by (cases "a = 0") auto
  moreover have "((a * 64 + b) * 64 + d) * 64 + e \<le> 1114111"
    using sec bd by (cases "a = 4") auto
  ultimately have "encode_rune (((a * 64 + b) * 64 + d) * 64 + e) =
      [char_of (240 + a), char_of (128 + b), char_of (128 + d), char_of (128 + e)]"
    by (intro encode_rune_4 [OF bd(1,2,3) refl])
  also have "\<dots> = [c, c1, c2, c3]"
    using assms(1,2) ge by (simp add: a_def b_def d_def e_def)
  finally show ?thesis by (simp only: m)
qed

lemma encode_decode_rune:
  assumes "decode_rune c cs \<noteq> (RuneError, 1)"
  shows "encode_rune (fst (decode_rune c cs)) = take (snd (decode_rune c cs)) (c # cs)"
  using assms
  by (auto simp: decode_rune_def Let_def encode_decode_1 encode_decode_2
      encode_decode_3 [simplified] encode_decode_4 [simplified] split: if_splits list.splits)

lemma ValidString_Cons:
  "ValidString (c # cs) \<longleftrightarrow>
     decode_rune c cs \<noteq> (RuneError, 1) \<and> ValidString (drop (snd (decode_rune c cs) - 1) cs)"
proof -
  have "length (take (snd (decode_rune c cs)) (c # cs)) = snd (decode_rune c cs)"
    using decode_rune_width_le [of c cs] by simp
  then show ?thesis
    by (cases "decode_rune c cs") (simp add: ValidString_def Let_def)
qed

lemma encode_rune_list: "ValidString s \<Longrightarrow> concat (map encode_rune (rune_list s)) = s"
proof (induction s rule: runes.induct)
  case (2 c cs)
  let ?w = "snd (decode_rune c cs)"
  have v: "decode_rune c cs \<noteq> (RuneError, 1)" "ValidString (drop (?w - 1) cs)"
    using "2.prems" by (simp_all add: ValidString_Cons)
  have "take ?w (c # cs) @ drop (?w - 1) cs = c # cs"
    using decode_rune_width [of c cs] by (cases ?w) simp_all
  then show ?case
    using "2.IH" [OF refl v(2)] encode_decode_rune [OF v(1)] by (simp add: rune_list_def Let_def)
qed (simp add: rune_list_def)

lemma rune_list_inject:
  "ValidString s \<Longrightarrow> ValidString t \<Longrightarrow> rune_list s = rune_list t \<longleftrightarrow> s = t"
  using encode_rune_list by metis

end
