(* ===== verification/Go_Strings.thy ===== *)
theory Go_Strings
  imports Go_Unicode
begin

text \<open>
  The functions of Go's \<^verbatim>\<open>strings\<close> and \<^verbatim>\<open>strconv\<close> packages that the program
  calls, on byte strings. \<open>Split\<close> is for a separator that is not empty, as everywhere
  in the program.
\<close>

section \<open>Package strings\<close>

definition HasPrefix :: "string \<Rightarrow> string \<Rightarrow> bool" where
  "HasPrefix s p = (take (length p) s = p)"

definition HasSuffix :: "string \<Rightarrow> string \<Rightarrow> bool" where
  "HasSuffix s p = (length p \<le> length s \<and> drop (length s - length p) s = p)"

definition TrimPrefix :: "string \<Rightarrow> string \<Rightarrow> string" where
  "TrimPrefix s p = (if HasPrefix s p then drop (length p) s else s)"

definition TrimSuffix :: "string \<Rightarrow> string \<Rightarrow> string" where
  "TrimSuffix s p = (if HasSuffix s p then take (length s - length p) s else s)"

fun Contains :: "string \<Rightarrow> string \<Rightarrow> bool" where
  "Contains [] p = (p = [])"
| "Contains (c # cs) p = (HasPrefix (c # cs) p \<or> Contains cs p)"

text \<open>The parts of \<open>s\<close> before and after the first \<open>sep\<close>, if there is one.\<close>

fun Cut :: "string \<Rightarrow> string \<Rightarrow> (string \<times> string) option" where
  "Cut [] sep = (if sep = [] then Some ([], []) else None)"
| "Cut (c # cs) sep =
     (if HasPrefix (c # cs) sep then Some ([], drop (length sep) (c # cs))
      else map_option (\<lambda>(a, b). (c # a, b)) (Cut cs sep))"

fun split_from :: "string \<Rightarrow> string \<Rightarrow> string \<Rightarrow> string list" where
  "split_from sep acc [] = [rev acc]"
| "split_from sep acc (c # cs) =
     (if HasPrefix (c # cs) sep then rev acc # split_from sep [] (drop (length sep - 1) cs)
      else split_from sep (c # acc) cs)"

definition Split :: "string \<Rightarrow> string \<Rightarrow> string list" where
  "Split s sep = split_from sep [] s"

fun SplitN :: "string \<Rightarrow> string \<Rightarrow> nat \<Rightarrow> string list" where
  "SplitN s sep 0 = []"
| "SplitN s sep (Suc 0) = [s]"
| "SplitN s sep (Suc (Suc n)) =
     (case Cut s sep of None \<Rightarrow> [s] | Some (a, b) \<Rightarrow> a # SplitN b sep (Suc n))"

fun Join :: "string list \<Rightarrow> string \<Rightarrow> string" where
  "Join [] sep = []"
| "Join [s] sep = s"
| "Join (s # t # ts) sep = s @ sep @ Join (t # ts) sep"

definition ReplaceAll :: "string \<Rightarrow> string \<Rightarrow> string \<Rightarrow> string" where
  "ReplaceAll s old new = Join (Split s old) new"

definition is_ascii :: "string \<Rightarrow> bool" where
  "is_ascii s = list_all (\<lambda>c. byte c < 128) s"

definition lower_byte :: "char \<Rightarrow> char" where
  "lower_byte c = (if 65 \<le> byte c \<and> byte c \<le> 90 then char_of (byte c + 32) else c)"

definition ToLower :: "string \<Rightarrow> string" where
  "ToLower s =
     (if is_ascii s then map lower_byte s
      else concat (map (\<lambda>(r, bs). encode_rune (unicode_ToLower r)) (runes s)))"

text \<open>
  Header names are tokens of ASCII characters, the only strings the program compares
  with \<^verbatim>\<open>EqualFold\<close>.
\<close>

definition EqualFold :: "string \<Rightarrow> string \<Rightarrow> bool" where
  "EqualFold s t = (ToLower s = ToLower t)"

definition TrimSpace :: "string \<Rightarrow> string" where
  "TrimSpace s =
     concat (map snd
       (rev (dropWhile (\<lambda>(r, bs). IsSpace r) (rev (dropWhile (\<lambda>(r, bs). IsSpace r) (runes s))))))"

text \<open>\<^verbatim>\<open>strings.Trim\<close> with a cutset of ASCII characters.\<close>

definition Trim :: "string \<Rightarrow> string \<Rightarrow> string" where
  "Trim s cutset =
     rev (dropWhile (\<lambda>c. c \<in> set cutset) (rev (dropWhile (\<lambda>c. c \<in> set cutset) s)))"

section \<open>Package strconv\<close>

definition is_digit :: "char \<Rightarrow> bool" where
  "is_digit c = (48 \<le> byte c \<and> byte c \<le> 57)"

definition digits_value :: "string \<Rightarrow> nat" where
  "digits_value s = foldl (\<lambda>v c. 10 * v + (byte c - 48)) 0 s"

text \<open>\<^verbatim>\<open>Atoi\<close> and \<^verbatim>\<open>ParseInt(s, 10, 64)\<close>: a sign, decimal digits, the range of 64 bits.\<close>

definition Atoi :: "string \<Rightarrow> int option" where
  "Atoi s =
     (let neg = (case s of c # _ \<Rightarrow> c = CHR ''-'' | [] \<Rightarrow> False);
          ds = (case s of c # cs \<Rightarrow> if c = CHR ''-'' \<or> c = CHR ''+'' then cs else s | [] \<Rightarrow> []);
          n = int (digits_value ds)
      in if ds = [] \<or> \<not> list_all is_digit ds then None
         else if neg then (if n \<le> 2 ^ 63 then Some (- n) else None)
         else (if n < 2 ^ 63 then Some n else None))"

definition ParseBool :: "string \<Rightarrow> bool option" where
  "ParseBool s =
     (if s \<in> {''1'', ''t'', ''T'', ''true'', ''TRUE'', ''True''} then Some True
      else if s \<in> {''0'', ''f'', ''F'', ''false'', ''FALSE'', ''False''} then Some False
      else None)"

definition FormatBool :: "bool \<Rightarrow> string" where
  "FormatBool b = (if b then ''true'' else ''false'')"

fun nat_digits :: "nat \<Rightarrow> string" where
  "nat_digits n =
     (if n < 10 then [char_of (48 + n)] else nat_digits (n div 10) @ [char_of (48 + n mod 10)])"

declare nat_digits.simps [simp del]

definition FormatInt :: "int \<Rightarrow> string" where
  "FormatInt i = (if i < 0 then CHR ''-'' # nat_digits (nat (- i)) else nat_digits (nat i))"

section \<open>Facts about prefixes and suffixes\<close>

lemma HasPrefix_iff: "HasPrefix s p \<longleftrightarrow> (\<exists>t. s = p @ t)"
  by (metis HasPrefix_def append_eq_conv_conj)

lemma HasPrefix_append [simp, go_string]: "HasPrefix (p @ s) p"
  by (simp add: HasPrefix_def)

lemma HasPrefix_Nil [simp, go_string]: "HasPrefix s []"
  by (simp add: HasPrefix_def)

lemma HasPrefix_Cons [go_string]:
  "HasPrefix s (c # p) \<longleftrightarrow> (\<exists>t. s = c # t \<and> HasPrefix t p)"
  by (cases s) (auto simp: HasPrefix_def)

lemma HasPrefix_same_append [simp, go_string]: "HasPrefix (p @ s) (p @ q) \<longleftrightarrow> HasPrefix s q"
  by (simp add: HasPrefix_def)

lemma TrimPrefix_append [simp, go_string]: "TrimPrefix (p @ s) p = s"
  by (simp add: TrimPrefix_def)

lemma TrimPrefix_Nil [simp, go_string]: "TrimPrefix s [] = s"
  by (simp add: TrimPrefix_def)

lemma TrimPrefix_restore: "HasPrefix s p \<Longrightarrow> p @ TrimPrefix s p = s"
  by (auto simp: HasPrefix_iff)

lemma HasSuffix_iff: "HasSuffix s p \<longleftrightarrow> (\<exists>t. s = t @ p)"
proof
  assume "HasSuffix s p"
  then have "s = take (length s - length p) s @ p"
    by (metis HasSuffix_def append_take_drop_id)
  then show "\<exists>t. s = t @ p" ..
qed (auto simp: HasSuffix_def)

lemma HasSuffix_append [simp, go_string]: "HasSuffix (s @ p) p"
  by (auto simp: HasSuffix_iff)

lemma TrimSuffix_append [simp, go_string]: "TrimSuffix (s @ p) p = s"
  by (simp add: TrimSuffix_def)

lemma TrimSuffix_restore: "HasSuffix s p \<Longrightarrow> TrimSuffix s p @ p = s"
  by (auto simp: HasSuffix_iff)

lemma Contains_iff: "Contains s p \<longleftrightarrow> (\<exists>u v. s = u @ p @ v)"
proof (induction s)
  case (Cons c s)
  have "(\<exists>u v. c # s = u @ p @ v) \<longleftrightarrow> (\<exists>v. c # s = p @ v) \<or> (\<exists>u v. s = u @ p @ v)"
    by (metis append_Cons append_Nil list.inject neq_Nil_conv)
  with Cons show ?case by (simp add: HasPrefix_iff)
qed auto

lemma Contains_char: "Contains s [c] \<longleftrightarrow> c \<in> set s"
  by (auto simp: Contains_iff in_set_conv_decomp)

section \<open>Facts about splitting\<close>

lemma Cut_Some: "Cut s sep = Some (a, b) \<Longrightarrow> s = a @ sep @ b"
proof (induction s arbitrary: a b)
  case (Cons c s)
  show ?case
  proof (cases "HasPrefix (c # s) sep")
    case True
    then have "c # s = sep @ drop (length sep) (c # s)"
      by (metis HasPrefix_def append_take_drop_id)
    with Cons.prems True show ?thesis by simp
  next
    case False
    with Cons show ?thesis by auto
  qed
qed (auto split: if_splits)

lemma Cut_None: "Cut s sep = None \<Longrightarrow> \<not> Contains s sep"
  by (induction s) (auto split: if_splits)

lemma Cut_char:
  "c \<notin> set a \<Longrightarrow> Cut (a @ c # b) [c] = Some (a, b)"
  by (induction a) (auto simp: HasPrefix_def)

lemma Cut_char_None [simp]: "Cut s [c] = None \<longleftrightarrow> c \<notin> set s"
  by (induction s) (auto simp: HasPrefix_def)

lemma Cut_char_Some:
  "Cut s [c] = Some (a, b) \<longleftrightarrow> s = a @ c # b \<and> c \<notin> set a"
proof
  assume *: "Cut s [c] = Some (a, b)"
  then have "c \<notin> set a"
    by (induction s arbitrary: a) (auto simp: HasPrefix_def split: if_splits)
  with Cut_Some [OF *] show "s = a @ c # b \<and> c \<notin> set a" by simp
qed (auto intro: Cut_char)

lemma split_from_nonempty [simp]: "split_from sep acc s \<noteq> []"
  by (induction sep acc s rule: split_from.induct) auto

lemma Split_nonempty [simp]: "Split s sep \<noteq> []"
  by (simp add: Split_def)

lemma Join_Cons: "ts \<noteq> [] \<Longrightarrow> Join (s # ts) sep = s @ sep @ Join ts sep"
  by (cases ts) simp_all

lemma Join_split_from:
  "sep \<noteq> [] \<Longrightarrow> Join (split_from sep acc s) sep = rev acc @ s"
proof (induction sep acc s rule: split_from.induct)
  case (2 sep acc c cs)
  show ?case
  proof (cases "HasPrefix (c # cs) sep")
    case True
    obtain d ds where sep: "sep = d # ds" using 2(3) by (cases sep) auto
    with True have "sep @ drop (length sep - 1) cs = c # cs"
      by (auto simp: HasPrefix_def) (metis append_take_drop_id)
    with 2 True show ?thesis by (simp add: Join_Cons)
  next
    case False
    with 2 show ?thesis by simp
  qed
qed simp

text \<open>Splitting and joining again gives the string back.\<close>

lemma Join_Split: "sep \<noteq> [] \<Longrightarrow> Join (Split s sep) sep = s"
  by (simp add: Split_def Join_split_from)

lemma split_from_char_parts:
  "c \<notin> set acc \<Longrightarrow> x \<in> set (split_from [c] acc s) \<Longrightarrow> c \<notin> set x"
  by (induction "[c]" acc s rule: split_from.induct) (auto simp: HasPrefix_def split: if_splits)

lemma Split_char_parts: "x \<in> set (Split s [c]) \<Longrightarrow> c \<notin> set x"
  by (auto simp: Split_def dest: split_from_char_parts [of c "[]" x s, simplified])

lemma split_from_plain:
  "c \<notin> set s \<Longrightarrow> split_from [c] acc s = [rev acc @ s]"
  by (induction s arbitrary: acc) (auto simp: HasPrefix_def)

lemma split_from_char_append:
  "c \<notin> set a \<Longrightarrow> split_from [c] acc (a @ c # b) = (rev acc @ a) # split_from [c] [] b"
  by (induction a arbitrary: acc) (auto simp: HasPrefix_def)

lemma Split_char_plain: "c \<notin> set s \<Longrightarrow> Split s [c] = [s]"
  by (simp add: Split_def split_from_plain)

lemma Split_char_append: "c \<notin> set a \<Longrightarrow> Split (a @ c # b) [c] = a # Split b [c]"
  by (simp add: Split_def split_from_char_append)

lemma Split_Join_char:
  assumes "parts \<noteq> []" and "\<forall>x \<in> set parts. c \<notin> set x"
  shows "Split (Join parts [c]) [c] = parts"
  using assms
proof (induction parts)
  case (Cons x parts)
  then show ?case
    by (cases parts) (simp_all add: Split_char_plain Split_char_append)
qed simp

lemma length_Join: "ps \<noteq> [] \<Longrightarrow> length (Join ps sep) = sum_list (map length ps) + (length ps - 1) * length sep"
proof (induction ps)
  case (Cons p ps)
  then show ?case by (cases ps) auto
qed simp

lemma split_from_single: "sep \<noteq> [] \<Longrightarrow> length (split_from sep acc s) = 1 \<longleftrightarrow> \<not> Contains s sep"
proof (induction sep acc s rule: split_from.induct)
  case (2 sep acc c cs)
  then show ?case by (cases "split_from sep [] (drop (length sep - 1) cs)") auto
qed auto

lemma length_ReplaceAll:
  assumes "old \<noteq> []" "length new < length old" "Contains s old"
  shows "length (ReplaceAll s old new) < length s"
proof -
  let ?n = "length (Split s old)"
  have "?n \<noteq> 1" using assms split_from_single [of old "[]" s] by (auto simp: Split_def)
  moreover have "?n \<noteq> 0" by simp
  ultimately have "0 < ?n - 1" by linarith
  then have "(?n - 1) * length new < (?n - 1) * length old" using assms(2) by simp
  then show ?thesis
    using length_Join [of "Split s old" new] length_Join [of "Split s old" old] Join_Split [OF assms(1), of s]
    by (simp add: ReplaceAll_def)
qed

section \<open>Facts about case and space\<close>

lemma lower_byte_idem [simp]: "lower_byte (lower_byte c) = lower_byte c"
  by (simp add: lower_byte_def byte_def)

lemma byte_lower_byte_ascii: "byte c < 128 \<Longrightarrow> byte (lower_byte c) < 128"
  by (auto simp: lower_byte_def byte_def)

lemma is_ascii_lower: "is_ascii s \<Longrightarrow> is_ascii (map lower_byte s)"
  by (auto simp: is_ascii_def list_all_iff byte_lower_byte_ascii)

lemma is_ascii_append [simp]: "is_ascii (s @ t) \<longleftrightarrow> is_ascii s \<and> is_ascii t"
  by (simp add: is_ascii_def)

lemma is_ascii_Cons [simp]: "is_ascii (c # t) \<longleftrightarrow> byte c < 128 \<and> is_ascii t"
  by (simp add: is_ascii_def)

lemma is_ascii_Nil [simp]: "is_ascii []"
  by (simp add: is_ascii_def)

lemma ToLower_ascii: "is_ascii s \<Longrightarrow> ToLower s = map lower_byte s"
  by (simp add: ToLower_def)

lemma ToLower_Nil [simp]: "ToLower [] = []"
  by (simp add: ToLower_def)

lemma ToLower_idem_ascii: "is_ascii s \<Longrightarrow> ToLower (ToLower s) = ToLower s"
  by (simp add: ToLower_ascii is_ascii_lower comp_def)

lemma TrimSpace_Nil [simp]: "TrimSpace [] = []"
  by (simp add: TrimSpace_def)

section \<open>Facts about numbers\<close>

lemma digits_value_append:
  "digits_value (s @ [c]) = 10 * digits_value s + (byte c - 48)"
  by (simp add: digits_value_def)

lemma byte_digit: "n < 10 \<Longrightarrow> byte (char_of (48 + n)) = 48 + n"
  by (simp add: byte_def)

lemma digits_value_nat_digits [simp]: "digits_value (nat_digits n) = n"
proof (induction n rule: nat_digits.induct)
  case (1 n)
  show ?case
  proof (cases "n < 10")
    case True
    then show ?thesis
      by (subst nat_digits.simps) (simp add: digits_value_def byte_digit)
  next
    case False
    with 1 show ?thesis
      by (subst nat_digits.simps) (simp add: digits_value_append byte_digit)
  qed
qed

lemma is_digit_char_of: "(n::nat) < 10 \<Longrightarrow> is_digit (char_of (48 + n))"
  by (simp add: is_digit_def byte_digit)

lemma nat_digits_nonempty [simp]: "nat_digits n \<noteq> []"
  by (subst nat_digits.simps) simp

lemma nat_digits_digit: "list_all is_digit (nat_digits n)"
proof (induction n rule: nat_digits.induct)
  case (1 n)
  then show ?case
    by (subst nat_digits.simps) (auto simp: is_digit_char_of)
qed

lemma nat_digits_hd: "nat_digits n = c # cs \<Longrightarrow> c \<noteq> CHR ''-'' \<and> c \<noteq> CHR ''+''"
  using nat_digits_digit [of n] by (auto simp: is_digit_def byte_def)

lemma Atoi_FormatInt: "- (2 ^ 63) \<le> i \<Longrightarrow> i < 2 ^ 63 \<Longrightarrow> Atoi (FormatInt i) = Some i"
proof (cases "i < 0")
  case True
  moreover assume "- (2 ^ 63) \<le> i"
  ultimately show ?thesis
    using nat_digits_digit [of "nat (- i)"]
    by (simp add: Atoi_def FormatInt_def Let_def)
next
  case False
  moreover assume "i < 2 ^ 63"
  moreover obtain c cs where "nat_digits (nat i) = c # cs"
    by (cases "nat_digits (nat i)") auto
  moreover from this have "c \<noteq> CHR ''-'' \<and> c \<noteq> CHR ''+''" by (rule nat_digits_hd)
  moreover have "list_all is_digit (nat_digits (nat i))" by (rule nat_digits_digit)
  moreover have "digits_value (nat_digits (nat i)) = nat i" by simp
  ultimately show ?thesis
    by (simp add: Atoi_def FormatInt_def Let_def)
qed

lemma Atoi_bounds: "Atoi s = Some i \<Longrightarrow> - (2 ^ 63) \<le> i \<and> i < 2 ^ 63"
  by (auto simp: Atoi_def Let_def split: if_splits)

end
