(* ===== verification/Go_Crypto.thy ===== *)
theory Go_Crypto
  imports Go_Strings "HOL-Library.Word"
begin

unbundle bit_operations_syntax

text \<open>
  The cryptography of Go's standard library that the proxy uses: SHA-256, HMAC, AES-256 and the
  authenticated encryption mode GCM with a nonce of 12 bytes and a tag of 16. Byte slices are
  strings. Decryption inverts encryption for every block cipher, and a ciphertext that is accepted
  is the encryption of what it decrypts to.
\<close>

type_synonym w32 = "32 word"
type_synonym w8 = "8 word"

section \<open>Bytes and words\<close>

definition w8_of :: "char \<Rightarrow> w8" where
  "w8_of c = of_nat (byte c)"

definition char_of_w8 :: "w8 \<Rightarrow> char" where
  "char_of_w8 w = char_of (unat w)"

fun be_nat :: "string \<Rightarrow> nat" where
  "be_nat [] = 0"
| "be_nat (c # cs) = byte c * 256 ^ length cs + be_nat cs"

fun be_bytes :: "nat \<Rightarrow> nat \<Rightarrow> string" where
  "be_bytes 0 n = []"
| "be_bytes (Suc k) n = be_bytes k (n div 256) @ [char_of (n mod 256)]"

fun chunks :: "nat \<Rightarrow> 'a list \<Rightarrow> 'a list list" where
  "chunks k [] = []"
| "chunks k (x # xs) = take (Suc k) (x # xs) # chunks k (drop k xs)"

section \<open>SHA-256\<close>

text \<open>
  The constants are the first 32 bits of the fractional parts of the cube roots of the first 64 primes,
  and the initial state those of the square roots of the first 8. \<open>root_bits e x k r\<close> extends
  \<open>r\<close> by \<open>k\<close> bits to the \<open>e\<close>-th root of \<open>x\<close>, rounded down.
\<close>

fun root_bits :: "nat \<Rightarrow> nat \<Rightarrow> nat \<Rightarrow> nat \<Rightarrow> nat" where
  "root_bits e x 0 r = r"
| "root_bits e x (Suc k) r = root_bits e x k (if (r + 2 ^ k) ^ e \<le> x then r + 2 ^ k else r)"

definition root_fraction :: "nat \<Rightarrow> nat \<Rightarrow> w32" where
  "root_fraction e p = of_nat (root_bits e (p * 2 ^ (32 * e)) 40 0)"

definition sha_primes :: "nat list" where
  "sha_primes =
     [2, 3, 5, 7, 11, 13, 17, 19, 23, 29, 31, 37, 41, 43, 47, 53,
      59, 61, 67, 71, 73, 79, 83, 89, 97, 101, 103, 107, 109, 113, 127, 131,
      137, 139, 149, 151, 157, 163, 167, 173, 179, 181, 191, 193, 197, 199, 211, 223,
      227, 229, 233, 239, 241, 251, 257, 263, 269, 271, 277, 281, 283, 293, 307, 311]"

definition sha_K :: "w32 list" where
  "sha_K = map (root_fraction 3) sha_primes"

definition sha_H :: "w32 list" where
  "sha_H = map (root_fraction 2) (take 8 sha_primes)"

definition rotr :: "nat \<Rightarrow> w32 \<Rightarrow> w32" where
  "rotr n w = (drop_bit n w) OR (push_bit (32 - n) w)"

definition sha_pad :: "string \<Rightarrow> string" where
  "sha_pad m =
     (let n = length m; z = (119 - n mod 64) mod 64
      in m @ [CHR 0x80] @ replicate z (CHR 0x00) @ be_bytes 8 (8 * n mod 2 ^ 64))"

text \<open>The message schedule, with the newest word first.\<close>

fun sha_schedule :: "nat \<Rightarrow> w32 list \<Rightarrow> w32 list" where
  "sha_schedule 0 ws = ws"
| "sha_schedule (Suc k) ws =
     (let w15 = ws ! 14; w2 = ws ! 1;
          s0 = rotr 7 w15 XOR rotr 18 w15 XOR drop_bit 3 w15;
          s1 = rotr 17 w2 XOR rotr 19 w2 XOR drop_bit 10 w2
      in sha_schedule k ((ws ! 15 + s0 + ws ! 6 + s1) # ws))"

fun sha_round :: "w32 list \<Rightarrow> w32 \<times> w32 \<Rightarrow> w32 list" where
  "sha_round [a, b, c, d, e, f, g, h] (k, w) =
     (let s1 = rotr 6 e XOR rotr 11 e XOR rotr 25 e;
          ch = (e AND f) XOR (NOT e AND g);
          t1 = h + s1 + ch + k + w;
          s0 = rotr 2 a XOR rotr 13 a XOR rotr 22 a;
          maj = (a AND b) XOR (a AND c) XOR (b AND c)
      in [t1 + (s0 + maj), a, b, c, d + t1, e, f, g])"
| "sha_round st kw = st"

definition sha_block :: "w32 list \<Rightarrow> string \<Rightarrow> w32 list" where
  "sha_block st block =
     (let ws = rev (sha_schedule 48 (rev (map (\<lambda>c. of_nat (be_nat c)) (chunks 3 block))))
      in map2 (+) st (foldl sha_round st (zip sha_K ws)))"

definition sha256 :: "string \<Rightarrow> string" where
  "sha256 m = concat (map (\<lambda>w. be_bytes 4 (unat w)) (foldl sha_block sha_H (chunks 63 (sha_pad m))))"

definition xor_char :: "char \<Rightarrow> char \<Rightarrow> char" where
  "xor_char a b = char_of_w8 (w8_of a XOR w8_of b)"

definition hmacSHA256 :: "string \<Rightarrow> string \<Rightarrow> string" where
  "hmacSHA256 key data =
     (let k0 = (if 64 < length key then sha256 key else key);
          k = k0 @ replicate (64 - length k0) (CHR 0x00)
      in sha256 (map (xor_char (CHR 0x5C)) k @ sha256 (map (xor_char (CHR 0x36)) k @ data)))"

section \<open>AES-256\<close>

definition aes_sbox :: "w8 list" where
  "aes_sbox =
     [
      99, 124, 119, 123, 242, 107, 111, 197, 48, 1, 103, 43, 254, 215, 171, 118,
      202, 130, 201, 125, 250, 89, 71, 240, 173, 212, 162, 175, 156, 164, 114, 192,
      183, 253, 147, 38, 54, 63, 247, 204, 52, 165, 229, 241, 113, 216, 49, 21,
      4, 199, 35, 195, 24, 150, 5, 154, 7, 18, 128, 226, 235, 39, 178, 117,
      9, 131, 44, 26, 27, 110, 90, 160, 82, 59, 214, 179, 41, 227, 47, 132,
      83, 209, 0, 237, 32, 252, 177, 91, 106, 203, 190, 57, 74, 76, 88, 207,
      208, 239, 170, 251, 67, 77, 51, 133, 69, 249, 2, 127, 80, 60, 159, 168,
      81, 163, 64, 143, 146, 157, 56, 245, 188, 182, 218, 33, 16, 255, 243, 210,
      205, 12, 19, 236, 95, 151, 68, 23, 196, 167, 126, 61, 100, 93, 25, 115,
      96, 129, 79, 220, 34, 42, 144, 136, 70, 238, 184, 20, 222, 94, 11, 219,
      224, 50, 58, 10, 73, 6, 36, 92, 194, 211, 172, 98, 145, 149, 228, 121,
      231, 200, 55, 109, 141, 213, 78, 169, 108, 86, 244, 234, 101, 122, 174, 8,
      186, 120, 37, 46, 28, 166, 180, 198, 232, 221, 116, 31, 75, 189, 139, 138,
      112, 62, 181, 102, 72, 3, 246, 14, 97, 53, 87, 185, 134, 193, 29, 158,
      225, 248, 152, 17, 105, 217, 142, 148, 155, 30, 135, 233, 206, 85, 40, 223,
      140, 161, 137, 13, 191, 230, 66, 104, 65, 153, 45, 15, 176, 84, 187, 22]"

definition subbyte :: "w8 \<Rightarrow> w8" where
  "subbyte b = aes_sbox ! unat b"

definition xtime :: "w8 \<Rightarrow> w8" where
  "xtime b = (push_bit 1 b) XOR (if bit b 7 then 0x1B else 0)"

text \<open>The key schedule in words of four bytes, with the newest word first.\<close>

definition aes_next :: "nat \<Rightarrow> w8 \<Rightarrow> w8 list list \<Rightarrow> w8 list" where
  "aes_next i rcon ws =
     (let t = hd ws;
          u = (if i mod 8 = 0 then map2 (XOR) (map subbyte (rotate1 t)) [rcon, 0, 0, 0]
               else if i mod 8 = 4 then map subbyte t else t)
      in map2 (XOR) (ws ! 7) u)"

fun aes_expand :: "nat \<Rightarrow> nat \<Rightarrow> w8 \<Rightarrow> w8 list list \<Rightarrow> w8 list list" where
  "aes_expand 0 i rcon ws = ws"
| "aes_expand (Suc k) i rcon ws =
     aes_expand k (Suc i) (if i mod 8 = 0 then xtime rcon else rcon) (aes_next i rcon ws # ws)"

definition aes_round_keys :: "string \<Rightarrow> w8 list list" where
  "aes_round_keys key =
     map concat (chunks 3 (rev (aes_expand 52 8 1 (rev (chunks 3 (map w8_of key))))))"

text \<open>The state is the 16 bytes in the order of the input, column by column.\<close>

definition shift_rows :: "w8 list \<Rightarrow> w8 list" where
  "shift_rows st = map (\<lambda>i. st ! i) [0, 5, 10, 15, 4, 9, 14, 3, 8, 13, 2, 7, 12, 1, 6, 11]"

fun mix_column :: "w8 list \<Rightarrow> w8 list" where
  "mix_column [a, b, c, d] =
     [xtime a XOR (xtime b XOR b) XOR c XOR d, a XOR xtime b XOR (xtime c XOR c) XOR d,
      a XOR b XOR xtime c XOR (xtime d XOR d), (xtime a XOR a) XOR b XOR c XOR xtime d]"
| "mix_column st = st"

definition aes_encrypt :: "string \<Rightarrow> string \<Rightarrow> string" where
  "aes_encrypt key block =
     (let rks = aes_round_keys key;
          st0 = map2 (XOR) (map w8_of block) (hd rks);
          mid = foldl (\<lambda>st rk. map2 (XOR) (concat (map mix_column (chunks 3 (shift_rows (map subbyte st))))) rk)
                  st0 (butlast (tl rks));
          out = map2 (XOR) (shift_rows (map subbyte mid)) (last rks)
      in map char_of_w8 out)"

section \<open>GCM\<close>

text \<open>
  GCM over the encryption \<open>E\<close> of one block. Field elements are 128-bit words whose most significant
  bit is the coefficient of 1.
\<close>

type_synonym w128 = "128 word"

definition gf_shift :: "w128 \<Rightarrow> w128" where
  "gf_shift v = drop_bit 1 v XOR (if bit v 0 then 0xE1000000000000000000000000000000 else 0)"

fun gf_mul_loop :: "nat \<Rightarrow> w128 \<Rightarrow> w128 \<Rightarrow> w128 \<Rightarrow> w128" where
  "gf_mul_loop 0 x z v = z"
| "gf_mul_loop (Suc i) x z v = gf_mul_loop i x (if bit x i then z XOR v else z) (gf_shift v)"

definition gf_mul :: "w128 \<Rightarrow> w128 \<Rightarrow> w128" where
  "gf_mul x y = gf_mul_loop 128 x 0 y"

definition pad16 :: "string \<Rightarrow> string" where
  "pad16 s = s @ replicate ((16 - length s mod 16) mod 16) (CHR 0x00)"

definition ghash :: "w128 \<Rightarrow> string \<Rightarrow> w128" where
  "ghash h s = foldl (\<lambda>y block. gf_mul (y XOR of_nat (be_nat block)) h) 0 (chunks 15 s)"

definition counter_block :: "string \<Rightarrow> nat \<Rightarrow> string" where
  "counter_block nonce i = nonce @ be_bytes 4 (i mod 2 ^ 32)"

definition keystream :: "(string \<Rightarrow> string) \<Rightarrow> string \<Rightarrow> nat \<Rightarrow> string" where
  "keystream E nonce n = take n (concat (map (\<lambda>i. E (counter_block nonce (i + 2))) [0..<(n + 15) div 16]))"

definition xor_bytes :: "string \<Rightarrow> string \<Rightarrow> string" where
  "xor_bytes a b = map2 xor_char a b"

definition gcm_tag :: "(string \<Rightarrow> string) \<Rightarrow> string \<Rightarrow> string \<Rightarrow> string \<Rightarrow> string" where
  "gcm_tag E nonce aad ciphertext =
     (let h = of_nat (be_nat (E (replicate 16 (CHR 0x00))));
          s = ghash h (pad16 aad @ pad16 ciphertext @ be_bytes 8 (8 * length aad) @ be_bytes 8 (8 * length ciphertext))
      in xor_bytes (be_bytes 16 (unat s)) (E (counter_block nonce 1)))"

definition gcm_seal :: "(string \<Rightarrow> string) \<Rightarrow> string \<Rightarrow> string \<Rightarrow> string \<Rightarrow> string" where
  "gcm_seal E nonce plaintext aad =
     (let ciphertext = xor_bytes plaintext (keystream E nonce (length plaintext))
      in ciphertext @ gcm_tag E nonce aad ciphertext)"

definition gcm_open :: "(string \<Rightarrow> string) \<Rightarrow> string \<Rightarrow> string \<Rightarrow> string \<Rightarrow> string option" where
  "gcm_open E nonce sealed aad =
     (if length sealed < 16 then None
      else let ciphertext = take (length sealed - 16) sealed; tag = drop (length sealed - 16) sealed
           in if tag \<noteq> gcm_tag E nonce aad ciphertext then None
              else Some (xor_bytes ciphertext (keystream E nonce (length ciphertext))))"

section \<open>Lengths\<close>

lemma length_be_bytes [simp]: "length (be_bytes k n) = k"
  by (induction k arbitrary: n) auto

lemma chunks_lengths: "Suc k dvd length xs \<Longrightarrow> list_all (\<lambda>c. length c = Suc k) (chunks k xs) \<and> length (chunks k xs) = length xs div Suc k"
proof (induction k xs rule: chunks.induct)
  case (2 k x xs)
  have le: "Suc k \<le> length (x # xs)" using 2(2) by (rule dvd_imp_le) simp
  then have "length (drop k xs) = length (x # xs) - Suc k" by simp
  then have "Suc k dvd length (drop k xs)" using 2(2) le by (simp only: dvd_diff_nat dvd_refl)
  from 2(1) [OF this] le show ?case by (simp add: le_div_geq)
qed simp

lemma length_concat_same: "list_all (\<lambda>w. length w = n) ws \<Longrightarrow> length (concat ws) = length ws * n"
  by (induction ws) auto

lemma sha_round_length: "length st = 8 \<Longrightarrow> length (sha_round st kw) = 8"
  by (induction st kw rule: sha_round.induct) (auto simp: Let_def)

lemma sha_rounds_length: "length st = 8 \<Longrightarrow> length (foldl sha_round st kws) = 8"
  by (induction kws arbitrary: st) (simp_all add: sha_round_length)

lemma sha_blocks_length: "length st = 8 \<Longrightarrow> length (foldl sha_block st bs) = 8"
  by (induction bs arbitrary: st) (simp_all add: sha_block_def sha_rounds_length Let_def)

lemma length_sha256 [simp]: "length (sha256 m) = 32"
proof -
  have "length (foldl sha_block sha_H bs) = 8" for bs
    by (rule sha_blocks_length) (simp add: sha_H_def sha_primes_def)
  then show ?thesis
    unfolding sha256_def by (subst length_concat_same [of 4]) (simp_all add: list_all_iff)
qed

lemma length_hmacSHA256 [simp]: "length (hmacSHA256 key data) = 32"
  by (simp add: hmacSHA256_def Let_def)

lemma aes_next_length: "list_all (\<lambda>w. length w = 4) ws \<Longrightarrow> 8 \<le> length ws \<Longrightarrow> length (aes_next i rcon ws) = 4"
proof -
  assume a: "list_all (\<lambda>w. length w = 4) ws" "8 \<le> length ws"
  have "length (hd ws) = 4" using a by (cases ws) auto
  moreover have "length (ws ! 7) = 4" using a by (simp add: list_all_length)
  ultimately show ?thesis by (simp add: aes_next_def Let_def)
qed

lemma aes_expand_length:
  "list_all (\<lambda>w. length w = 4) ws \<Longrightarrow> 8 \<le> length ws \<Longrightarrow>
   list_all (\<lambda>w. length w = 4) (aes_expand k i rcon ws) \<and> length (aes_expand k i rcon ws) = k + length ws"
  by (induction k i rcon ws rule: aes_expand.induct) (auto simp: aes_next_length)

lemma aes_round_keys_length:
  assumes "length key = 32"
  shows "list_all (\<lambda>k. length k = 16) (aes_round_keys key) \<and> length (aes_round_keys key) = 15"
proof -
  have "Suc 3 dvd length (map w8_of key)" using assms by simp
  from chunks_lengths [OF this] assms
  have "list_all (\<lambda>w. length w = 4) (rev (chunks 3 (map w8_of key)))" "length (rev (chunks 3 (map w8_of key))) = 8"
    by simp_all
  from aes_expand_length [OF this(1)] this(2)
  have ws: "list_all (\<lambda>w. length w = 4) (rev (aes_expand 52 8 1 (rev (chunks 3 (map w8_of key)))))"
    "length (rev (aes_expand 52 8 1 (rev (chunks 3 (map w8_of key))))) = 60" by simp_all
  let ?ws = "rev (aes_expand 52 8 1 (rev (chunks 3 (map w8_of key))))"
  have "Suc 3 dvd length ?ws" using ws(2) by simp
  from chunks_lengths [OF this] ws(2)
  have c: "list_all (\<lambda>c. length c = 4) (chunks 3 ?ws)" "length (chunks 3 ?ws) = 15" by simp_all
  have sub: "c \<in> set (chunks k xs) \<Longrightarrow> set c \<subseteq> set xs" for c :: "w8 list list" and k xs
    by (induction k xs rule: chunks.induct) (auto dest: in_set_takeD in_set_dropD)
  have "length (concat c) = 16" if "c \<in> set (chunks 3 ?ws)" for c
    using length_concat_same [of 4 c] sub [OF that] c(1) ws(1) that by (auto simp: list_all_iff)
  with c(2) show ?thesis by (simp add: aes_round_keys_def list_all_iff)
qed

lemma mix_column_length [simp]: "length (mix_column c) = length c"
  by (induction c rule: mix_column.induct) auto

lemma aes_mix_length: "length (concat (map mix_column (chunks 3 (shift_rows st)))) = 16"
proof -
  have "length (shift_rows st) = 16" by (simp add: shift_rows_def)
  then have "list_all (\<lambda>c. length c = 4) (chunks 3 (shift_rows st))" "length (chunks 3 (shift_rows st)) = 4"
    using chunks_lengths [of 3 "shift_rows st"] by simp_all
  then show ?thesis by (subst length_concat_same [of 4]) (auto simp: list_all_iff)
qed

lemma length_aes_encrypt:
  assumes "length key = 32"
  shows "length (aes_encrypt key block) = 16"
proof -
  have "last (aes_round_keys key) \<in> set (aes_round_keys key)"
    using aes_round_keys_length [OF assms] by (intro last_in_set) auto
  then have "length (last (aes_round_keys key)) = 16"
    using aes_round_keys_length [OF assms] by (auto simp: list_all_iff)
  then show ?thesis by (simp add: aes_encrypt_def Let_def shift_rows_def)
qed

section \<open>Decryption inverts encryption\<close>

lemma w8_char [simp]: "w8_of (char_of_w8 w) = w" "char_of_w8 (w8_of c) = c"
proof -
  show "w8_of (char_of_w8 w) = w"
    using unsigned_less [of w, where ?'a = nat] by (simp add: w8_of_def char_of_w8_def byte_def)
  show "char_of_w8 (w8_of c) = c"
    by (simp add: w8_of_def char_of_w8_def unat_of_nat take_bit_nat_eq_self)
qed

lemma xor_char_invol [simp]: "xor_char (xor_char a b) b = a"
  by (simp add: xor_char_def xor.assoc)

lemma length_xor_bytes [simp]: "length (xor_bytes a b) = min (length a) (length b)"
  by (simp add: xor_bytes_def)

lemma xor_bytes_invol: "length a \<le> length b \<Longrightarrow> xor_bytes (xor_bytes a b) b = a"
  unfolding xor_bytes_def
proof (induction a arbitrary: b)
  case (Cons x a)
  then show ?case by (cases b) auto
qed simp

locale block_cipher =
  fixes E :: "string \<Rightarrow> string"
  assumes block_length: "length (E b) = 16"
begin

lemma length_keystream: "length (keystream E nonce n) = n"
proof -
  have "length (concat (map (\<lambda>i. E (counter_block nonce (i + 2))) [0..<(n + 15) div 16])) = (n + 15) div 16 * 16"
    by (subst length_concat_same [of 16]) (auto simp: list_all_iff block_length)
  moreover have "n \<le> (n + 15) div 16 * 16" by presburger
  ultimately show ?thesis by (simp add: keystream_def)
qed

lemma length_tag: "length (gcm_tag E nonce aad c) = 16"
  by (simp add: gcm_tag_def Let_def block_length)

lemma open_seal: "gcm_open E nonce (gcm_seal E nonce p aad) aad = Some p"
  by (simp add: gcm_open_def gcm_seal_def Let_def length_tag length_keystream xor_bytes_invol)

lemma seal_open:
  assumes "gcm_open E nonce s aad = Some p"
  shows "gcm_seal E nonce p aad = s"
proof -
  let ?c = "take (length s - 16) s"
  from assms have len: "\<not> length s < 16" and tag: "drop (length s - 16) s = gcm_tag E nonce aad ?c"
    and p: "p = xor_bytes ?c (keystream E nonce (length ?c))"
    by (auto simp: gcm_open_def Let_def split: if_splits)
  have "length p = length ?c" by (simp add: p length_keystream)
  then have "xor_bytes p (keystream E nonce (length p)) = ?c"
    by (simp add: p xor_bytes_invol length_keystream)
  then show ?thesis using tag by (simp add: gcm_seal_def Let_def) (metis append_take_drop_id)
qed

end

text \<open>AES under a key that HMAC has derived.\<close>

interpretation derived_aes: block_cipher "aes_encrypt (hmacSHA256 secret purpose)" for secret purpose
  by unfold_locales (simp add: length_aes_encrypt)

end
