(* ===== verification/Go_Base64.thy ===== *)
theory Go_Base64
  imports Go_Strings
begin

text \<open>
  The encoding \<^verbatim>\<open>base64.RawURLEncoding\<close> and its strict decoding, which skips line breaks and wants the
  unused bits of the last character to be zero. Decoding inverts encoding.
\<close>

definition sextet_char :: "nat \<Rightarrow> char" where
  "sextet_char n =
     (if n < 26 then char_of (65 + n) else if n < 52 then char_of (71 + n) else if n < 62 then char_of (n - 4)
      else if n = 62 then CHR ''-'' else CHR ''_'')"

definition char_sextet :: "char \<Rightarrow> nat option" where
  "char_sextet c =
     (let b = byte c in
      if 65 \<le> b \<and> b \<le> 90 then Some (b - 65) else if 97 \<le> b \<and> b \<le> 122 then Some (b - 71)
      else if 48 \<le> b \<and> b \<le> 57 then Some (b + 4) else if b = 45 then Some 62 else if b = 95 then Some 63 else None)"

fun b64_EncodeToString :: "string \<Rightarrow> string" where
  "b64_EncodeToString (a # b # c # rest) =
     [sextet_char (byte a div 4), sextet_char (byte a mod 4 * 16 + byte b div 16),
      sextet_char (byte b mod 16 * 4 + byte c div 64), sextet_char (byte c mod 64)] @ b64_EncodeToString rest"
| "b64_EncodeToString [a, b] =
     [sextet_char (byte a div 4), sextet_char (byte a mod 4 * 16 + byte b div 16), sextet_char (byte b mod 16 * 4)]"
| "b64_EncodeToString [a] = [sextet_char (byte a div 4), sextet_char (byte a mod 4 * 16)]"
| "b64_EncodeToString [] = []"

fun b64_quanta :: "nat list \<Rightarrow> string option" where
  "b64_quanta (w # x # y # z # rest) =
     map_option (append [char_of (w * 4 + x div 16), char_of (x mod 16 * 16 + y div 4), char_of (y mod 4 * 64 + z)]) (b64_quanta rest)"
| "b64_quanta [w, x, y] =
     (if y mod 4 = 0 then Some [char_of (w * 4 + x div 16), char_of (x mod 16 * 16 + y div 4)] else None)"
| "b64_quanta [w, x] = (if x mod 16 = 0 then Some [char_of (w * 4 + x div 16)] else None)"
| "b64_quanta [w] = None"
| "b64_quanta [] = Some []"

definition sextets :: "string \<Rightarrow> nat list option" where
  "sextets s = (if list_all (\<lambda>c. char_sextet c \<noteq> None) s then Some (map (the \<circ> char_sextet) s) else None)"

definition b64_StrictDecodeString :: "string \<Rightarrow> string option" where
  "b64_StrictDecodeString s =
     (case sextets (filter (\<lambda>c. byte c \<noteq> 10 \<and> byte c \<noteq> 13) s) of None \<Rightarrow> None | Some ns \<Rightarrow> b64_quanta ns)"

lemma byte_of_char: "n < 256 \<Longrightarrow> byte (char_of n) = n"
  by (simp add: byte_def)

lemma sextet_roundtrip: "n < 64 \<Longrightarrow> char_sextet (sextet_char n) = Some n"
  by (auto simp: sextet_char_def char_sextet_def byte_of_char Let_def byte_def)

lemma sextet_visible: "n < 64 \<Longrightarrow> byte (sextet_char n) \<noteq> 10 \<and> byte (sextet_char n) \<noteq> 13"
  using sextet_roundtrip [of n] by (auto simp: char_sextet_def Let_def)

fun b64_sextets :: "string \<Rightarrow> nat list" where
  "b64_sextets (a # b # c # rest) =
     [byte a div 4, byte a mod 4 * 16 + byte b div 16, byte b mod 16 * 4 + byte c div 64, byte c mod 64] @ b64_sextets rest"
| "b64_sextets [a, b] = [byte a div 4, byte a mod 4 * 16 + byte b div 16, byte b mod 16 * 4]"
| "b64_sextets [a] = [byte a div 4, byte a mod 4 * 16]"
| "b64_sextets [] = []"

lemma encode_sextets: "b64_EncodeToString s = map sextet_char (b64_sextets s)"
  by (induction s rule: b64_sextets.induct) auto

lemma byte_quotients: "byte c div 16 div 16 = 0" "byte c div 64 div 4 = 0" "byte c div 16 mod 16 = byte c div 16"
  "byte c div 64 mod 4 = byte c div 64" "byte c div 16 < 16" "byte c div 64 < 4"
  using byte_bound [of c] by (simp_all add: less_mult_imp_div_less flip: div_mult2_eq)

lemma byte_parts: "byte c div 4 < 64" "byte c mod 4 * 16 + byte d div 16 < 64" "byte c mod 16 * 4 + byte d div 64 < 64"
  "byte c mod 64 < 64" "byte c mod 16 * 4 < 64" "byte c mod 4 * 16 < 64"
proof -
  have b: "byte c < 256" "byte d < 256" by simp_all
  then show "byte c div 4 < 64" by linarith
  have m: "byte c mod 4 < 4" "byte c mod 16 < 16" "byte d div 16 < 16" "byte d div 64 < 4" by (simp_all add: byte_quotients)
  then show "byte c mod 4 * 16 + byte d div 16 < 64" "byte c mod 16 * 4 + byte d div 64 < 64" by linarith+
  show "byte c mod 64 < 64" "byte c mod 16 * 4 < 64" "byte c mod 4 * 16 < 64" using m by simp_all
qed

lemma b64_sextets_bound: "list_all (\<lambda>n. n < 64) (b64_sextets s)"
  by (induction s rule: b64_sextets.induct) (simp_all add: byte_parts)

lemma rejoin:
  "char_of (byte a div 4 * 4 + (byte a mod 4 * 16 + byte b div 16) div 16) = a"
  "char_of ((byte a mod 4 * 16 + byte b div 16) mod 16 * 16 + (byte b mod 16 * 4 + byte c div 64) div 4) = b"
  "char_of ((byte b mod 16 * 4 + byte c div 64) mod 4 * 64 + byte c mod 64) = c"
  "char_of ((byte a mod 4 * 16 + byte b div 16) mod 16 * 16 + (byte b mod 16 * 4) div 4) = b"
  "char_of (byte a div 4 * 4 + (byte a mod 4 * 16) div 16) = a"
  by (simp_all add: byte_quotients)

lemma quanta_sextets: "b64_quanta (b64_sextets s) = Some s"
  by (induction s rule: b64_sextets.induct) (simp_all only: b64_sextets.simps b64_quanta.simps append.simps rejoin
      option.map list.inject, simp_all)

lemma b64_roundtrip: "b64_StrictDecodeString (b64_EncodeToString s) = Some s"
proof -
  have v: "char_sextet c \<noteq> None \<and> byte c \<noteq> 10 \<and> byte c \<noteq> 13" if "c \<in> set (b64_EncodeToString s)" for c
    using that b64_sextets_bound [of s] sextet_roundtrip sextet_visible by (auto simp: encode_sextets list_all_iff)
  then have "filter (\<lambda>c. byte c \<noteq> 10 \<and> byte c \<noteq> 13) (b64_EncodeToString s) = b64_EncodeToString s"
    by (simp add: filter_id_conv)
  moreover have "map (the \<circ> char_sextet) (b64_EncodeToString s) = b64_sextets s"
    using b64_sextets_bound [of s] by (simp add: encode_sextets list_all_iff sextet_roundtrip map_idI)
  ultimately show ?thesis
    using v quanta_sextets [of s] by (simp add: b64_StrictDecodeString_def sextets_def list_all_iff)
qed

end
