(* ===== verification/S3_Token.thy ===== *)
theory S3_Token
  imports Go_Crypto Go_Base64
begin

text \<open>
  The mapping of a virtual bucket (the struct \<^verbatim>\<open>VBucketConfig\<close> of \<^verbatim>\<open>vbucket.go\<close>) and the opaque
  tokens of \<^verbatim>\<open>s3_token.go\<close>, under which the proxy hands out continuation tokens, upload ids and
  version ids of the origin. An \<^verbatim>\<open>AEAD\<close> is the AES key it was made from. The lemmas: a codec kept in
  a mapping is the one that would be made for it, the tokens a mapping accepts are exactly the ones
  it issues, and a token of one kind is no token of another.
\<close>

record opaqueTokenCipher =
  tc_aead :: string
  tc_nonceKey :: string
  tc_realBucket :: string
  tc_pathPrefix :: string
  tc_realEndpoint :: string
  tc_routingKey :: string

record VBucketConfig =
  RealEndpoint :: string
  RealBucket :: string
  RealAccessKey :: string
  RealSecretKey :: string
  RealRegion :: string
  PathPrefix :: string
  RealUsePathStyle :: bool
  RoutingTokenKey :: string
  routingTokenCodec :: "opaqueTokenCipher option"

datatype token_error =
    TokenEmpty | TokenNotVirtual | TokenUndecodable | TokenNotCanonical | TokenMappingMissing | TokenKeyLength
  | TokenTruncated | TokenUnauthentic | TokenWrongNonce

abbreviation nul :: string where
  "nul \<equiv> [char_of (0::nat)]"

definition virtualOpaqueTokenVersion :: string where
  "virtualOpaqueTokenVersion = ''vb1''"

definition nonceSize :: nat where
  "nonceSize = 12"

definition routingTokenSubkey :: "VBucketConfig \<Rightarrow> string \<Rightarrow> string" where
  "routingTokenSubkey cfg purpose =
     hmacSHA256 (RoutingTokenKey cfg)
       (''vbuckets-routing-token-v1'' @ nul @ purpose @ nul @ RealEndpoint cfg @ nul @ RealBucket cfg @ nul @ PathPrefix cfg)"

definition opaqueTokenAAD :: "VBucketConfig \<Rightarrow> string \<Rightarrow> string" where
  "opaqueTokenAAD cfg purpose =
     virtualOpaqueTokenVersion @ nul @ purpose @ nul @ RealEndpoint cfg @ nul @ RealBucket cfg @ nul @ PathPrefix cfg"

definition codec_of :: "VBucketConfig \<Rightarrow> opaqueTokenCipher" where
  "codec_of cfg =
     \<lparr>tc_aead = routingTokenSubkey cfg ''encryption'', tc_nonceKey = routingTokenSubkey cfg ''synthetic-nonce'',
      tc_realBucket = RealBucket cfg, tc_pathPrefix = PathPrefix cfg, tc_realEndpoint = RealEndpoint cfg,
      tc_routingKey = RoutingTokenKey cfg\<rparr>"

definition newOpaqueTokenCipher :: "VBucketConfig option \<Rightarrow> token_error + opaqueTokenCipher" where
  "newOpaqueTokenCipher c =
     (case c of
        None \<Rightarrow> Inl TokenMappingMissing
      | Some cfg \<Rightarrow> if length (RoutingTokenKey cfg) \<noteq> 32 then Inl TokenKeyLength else Inr (codec_of cfg))"

definition codec_matches :: "opaqueTokenCipher \<Rightarrow> VBucketConfig \<Rightarrow> bool" where
  "codec_matches c cfg =
     (length (RoutingTokenKey cfg) = 32 \<and> tc_realBucket c = RealBucket cfg \<and> tc_pathPrefix c = PathPrefix cfg
      \<and> tc_realEndpoint c = RealEndpoint cfg \<and> tc_routingKey c = RoutingTokenKey cfg)"

definition routingTokenCipher :: "VBucketConfig option \<Rightarrow> token_error + opaqueTokenCipher" where
  "routingTokenCipher c =
     (case c of
        Some cfg \<Rightarrow>
          (case routingTokenCodec cfg of
             Some codec \<Rightarrow> if codec_matches codec cfg then Inr codec else newOpaqueTokenCipher c
           | None \<Rightarrow> newOpaqueTokenCipher c)
      | None \<Rightarrow> newOpaqueTokenCipher c)"

definition canonicalNonce :: "opaqueTokenCipher \<Rightarrow> string \<Rightarrow> string \<Rightarrow> string" where
  "canonicalNonce codec kind v =
     take nonceSize (hmacSHA256 (tc_nonceKey codec) (virtualOpaqueTokenVersion @ nul @ kind @ nul @ v))"

definition tokenPrefix :: "string \<Rightarrow> string" where
  "tokenPrefix kind = virtualOpaqueTokenVersion @ ''.'' @ kind @ ''.''"

definition encodeOpaqueToken :: "VBucketConfig option \<Rightarrow> string \<Rightarrow> string \<Rightarrow> token_error + string" where
  "encodeOpaqueToken c kind v =
     bindE (guardE (v \<noteq> []) TokenEmpty) (\<lambda>_.
     bindE (routingTokenCipher c) (\<lambda>codec.
       let nonce = canonicalNonce codec kind v;
           sealed = nonce @ gcm_seal (aes_encrypt (tc_aead codec)) nonce v (opaqueTokenAAD (the c) kind)
       in Inr (tokenPrefix kind @ b64_EncodeToString sealed)))"

definition decodeOpaqueToken :: "VBucketConfig option \<Rightarrow> string \<Rightarrow> string \<Rightarrow> token_error + string" where
  "decodeOpaqueToken c kind token =
     bindE (guardE (HasPrefix token (tokenPrefix kind)) TokenNotVirtual) (\<lambda>_.
     let encoded = TrimPrefix token (tokenPrefix kind) in
     bindE (of_option TokenUndecodable (b64_StrictDecodeString encoded)) (\<lambda>data.
     bindE (guardE (b64_EncodeToString data = encoded) TokenNotCanonical) (\<lambda>_.
     bindE (routingTokenCipher c) (\<lambda>codec.
     bindE (guardE (nonceSize \<le> length data) TokenTruncated) (\<lambda>_.
     let nonce = take nonceSize data in
     bindE (of_option TokenUnauthentic
         (gcm_open (aes_encrypt (tc_aead codec)) nonce (drop nonceSize data) (opaqueTokenAAD (the c) kind))) (\<lambda>plaintext.
     bindE (guardE (nonce = canonicalNonce codec kind plaintext) TokenWrongNonce) (\<lambda>_.
     Inr plaintext)))))))"

section \<open>The codec of a mapping\<close>

text \<open>A codec that is kept in a mapping was made for some mapping.\<close>

definition codec_ok :: "VBucketConfig \<Rightarrow> bool" where
  "codec_ok cfg =
     (case routingTokenCodec cfg of
        None \<Rightarrow> True
      | Some c \<Rightarrow> c = codec_of (cfg\<lparr>RealEndpoint := tc_realEndpoint c, RealBucket := tc_realBucket c,
                                  PathPrefix := tc_pathPrefix c, RoutingTokenKey := tc_routingKey c\<rparr>))"

lemma codec_of_cong:
  "RealEndpoint c = RealEndpoint d \<Longrightarrow> RealBucket c = RealBucket d \<Longrightarrow> PathPrefix c = PathPrefix d \<Longrightarrow>
   RoutingTokenKey c = RoutingTokenKey d \<Longrightarrow> codec_of c = codec_of d"
  by (simp add: codec_of_def routingTokenSubkey_def)

lemma kept_codec_is_fresh:
  assumes "codec_ok cfg" "routingTokenCodec cfg = Some c" "codec_matches c cfg"
  shows "c = codec_of cfg"
proof -
  have "c = codec_of (cfg\<lparr>RealEndpoint := tc_realEndpoint c, RealBucket := tc_realBucket c,
                          PathPrefix := tc_pathPrefix c, RoutingTokenKey := tc_routingKey c\<rparr>)"
    using assms by (simp add: codec_ok_def)
  also have "\<dots> = codec_of cfg"
    using assms(3) by (intro codec_of_cong) (simp_all add: codec_matches_def)
  finally show ?thesis .
qed

lemma routingTokenCipher_Some:
  "codec_ok cfg \<Longrightarrow> routingTokenCipher (Some cfg) =
     (if length (RoutingTokenKey cfg) = 32 then Inr (codec_of cfg) else Inl TokenKeyLength)"
  by (auto simp: routingTokenCipher_def newOpaqueTokenCipher_def kept_codec_is_fresh codec_matches_def split: option.splits)

lemma codec_ok_codec_of: "codec_ok (cfg\<lparr>routingTokenCodec := Some (codec_of d)\<rparr>)"
  by (simp add: codec_ok_def codec_of_def routingTokenSubkey_def)

section \<open>Tokens\<close>

lemma length_canonicalNonce: "length (canonicalNonce codec kind v) = nonceSize"
  by (simp add: canonicalNonce_def nonceSize_def length_hmacSHA256)

lemma codec_open_seal:
  "gcm_open (aes_encrypt (tc_aead (codec_of cfg))) nonce (gcm_seal (aes_encrypt (tc_aead (codec_of cfg))) nonce p aad) aad = Some p"
  "gcm_open (aes_encrypt (tc_aead (codec_of cfg))) nonce s aad = Some p \<Longrightarrow>
   gcm_seal (aes_encrypt (tc_aead (codec_of cfg))) nonce p aad = s"
  by (simp_all add: codec_of_def routingTokenSubkey_def derived_aes.open_seal derived_aes.seal_open)

lemma decode_encode:
  assumes "codec_ok cfg" "encodeOpaqueToken (Some cfg) kind v = Inr t"
  shows "decodeOpaqueToken (Some cfg) kind t = Inr v"
proof -
  let ?n = "canonicalNonce (codec_of cfg) kind v"
  let ?s = "gcm_seal (aes_encrypt (tc_aead (codec_of cfg))) ?n v (opaqueTokenAAD cfg kind)"
  from assms have key: "length (RoutingTokenKey cfg) = 32" and t: "t = tokenPrefix kind @ b64_EncodeToString (?n @ ?s)"
    by (auto simp: encodeOpaqueToken_def res_simps routingTokenCipher_Some Let_def split: if_splits)
  show ?thesis
    using assms(1) key by (simp add: t decodeOpaqueToken_def routingTokenCipher_Some b64_roundtrip Let_def
        length_canonicalNonce codec_open_seal)
qed

lemma encode_decode:
  assumes "codec_ok cfg" "decodeOpaqueToken (Some cfg) kind t = Inr v" "v \<noteq> []"
  shows "encodeOpaqueToken (Some cfg) kind v = Inr t"
proof -
  let ?A = "aes_encrypt (tc_aead (codec_of cfg))"
  from assms(1,2) obtain data where pre: "HasPrefix t (tokenPrefix kind)"
    and enc: "b64_EncodeToString data = TrimPrefix t (tokenPrefix kind)"
    and key: "length (RoutingTokenKey cfg) = 32"
    and opened: "gcm_open ?A (take nonceSize data) (drop nonceSize data) (opaqueTokenAAD cfg kind) = Some v"
    and nonce: "take nonceSize data = canonicalNonce (codec_of cfg) kind v"
    by (auto simp: decodeOpaqueToken_def res_simps routingTokenCipher_Some Let_def split: if_splits)
  have "gcm_seal ?A (canonicalNonce (codec_of cfg) kind v) v (opaqueTokenAAD cfg kind) = drop nonceSize data"
    using codec_open_seal(2) [OF opened] by (simp add: nonce)
  then have "canonicalNonce (codec_of cfg) kind v @ gcm_seal ?A (canonicalNonce (codec_of cfg) kind v) v (opaqueTokenAAD cfg kind) = data"
    by (metis append_take_drop_id nonce)
  then show ?thesis
    using assms(1,3) key enc TrimPrefix_restore [OF pre]
    by (simp add: encodeOpaqueToken_def routingTokenCipher_Some Let_def)
qed

lemma encode_total:
  "codec_ok cfg \<Longrightarrow> v \<noteq> [] \<Longrightarrow> (\<exists>t. encodeOpaqueToken (Some cfg) kind v = Inr t) \<longleftrightarrow> length (RoutingTokenKey cfg) = 32"
  by (simp add: encodeOpaqueToken_def routingTokenCipher_Some Let_def)

lemma prefix_kinds:
  assumes "HasPrefix t (tokenPrefix kind)" "HasPrefix t (tokenPrefix kind')" "CHR ''.'' \<notin> set kind" "CHR ''.'' \<notin> set kind'"
  shows "kind = kind'"
proof -
  obtain u u' where "kind @ CHR ''.'' # u = kind' @ CHR ''.'' # u'"
    using assms(1,2) by (auto simp: HasPrefix_iff tokenPrefix_def)
  then have "takeWhile (\<lambda>c. c \<noteq> CHR ''.'') (kind @ CHR ''.'' # u) = takeWhile (\<lambda>c. c \<noteq> CHR ''.'') (kind' @ CHR ''.'' # u')"
    by simp
  moreover have "takeWhile (\<lambda>c. c \<noteq> CHR ''.'') (k @ CHR ''.'' # w) = k" if "CHR ''.'' \<notin> set k" for k w
    using that by (induction k) auto
  ultimately show ?thesis using assms(3,4) by simp
qed

section \<open>Properties\<close>

text \<open>
  C23. The tokens that a mapping accepts are exactly the ones it issues: a token decodes to a value that
  is not empty if and only if it is the token of that value, so that a token decodes to its value, no
  value has two tokens, and no other string is a token of it. With a routing key of 32 bytes every
  such value has a token, and with a key of another length none has. This holds for a mapping with or
  without a kept codec.
\<close>

theorem tokens_accepted_are_issued:
  assumes "codec_ok cfg" "v \<noteq> []"
  shows "(decodeOpaqueToken (Some cfg) kind t = Inr v \<longleftrightarrow> encodeOpaqueToken (Some cfg) kind v = Inr t)
    \<and> ((\<exists>t. encodeOpaqueToken (Some cfg) kind v = Inr t) \<longleftrightarrow> length (RoutingTokenKey cfg) = 32)"
  using assms decode_encode encode_decode encode_total by blast

text \<open>
  A token of one kind is refused for every other kind, under whatever mapping: the kinds
  \<^verbatim>\<open>continuation\<close>, \<^verbatim>\<open>upload\<close> and \<^verbatim>\<open>version\<close> of the program contain no dot.
\<close>

theorem token_kinds_separate:
  assumes "encodeOpaqueToken c kind v = Inr t" "kind \<noteq> kind'" "CHR ''.'' \<notin> set kind" "CHR ''.'' \<notin> set kind'"
  shows "decodeOpaqueToken c' kind' t = Inl TokenNotVirtual"
proof -
  have "HasPrefix t (tokenPrefix kind)"
    using assms(1) by (auto simp: encodeOpaqueToken_def res_simps Let_def)
  then have "\<not> HasPrefix t (tokenPrefix kind')"
    using prefix_kinds assms(2-4) by blast
  then show ?thesis by (simp add: decodeOpaqueToken_def)
qed

section \<open>Witnesses\<close>

definition demo_cfg :: VBucketConfig where
  "demo_cfg =
     \<lparr>RealEndpoint = ''https://s3.example'', RealBucket = ''origin'', RealAccessKey = ''AK'', RealSecretKey = ''SK'',
      RealRegion = ''us-east-1'', PathPrefix = ''tenant-a'', RealUsePathStyle = True,
      RoutingTokenKey = replicate 32 (CHR ''k''), routingTokenCodec = None\<rparr>"

lemma demo_cfg_ok: "codec_ok demo_cfg" "length (RoutingTokenKey demo_cfg) = 32"
  by (simp_all add: demo_cfg_def codec_ok_def)

theorem tokens_accepted_are_issued_witness:
  "\<exists>t. encodeOpaqueToken (Some demo_cfg) ''version'' ''v1'' = Inr t \<and> decodeOpaqueToken (Some demo_cfg) ''version'' t = Inr ''v1''"
  using tokens_accepted_are_issued [OF demo_cfg_ok(1), of "''v1''" "''version''"] demo_cfg_ok(2) by auto

theorem token_kinds_separate_witness:
  "\<exists>t. encodeOpaqueToken (Some demo_cfg) ''version'' ''v1'' = Inr t
     \<and> decodeOpaqueToken (Some demo_cfg) ''upload'' t = Inl TokenNotVirtual"
proof -
  obtain t where t: "encodeOpaqueToken (Some demo_cfg) ''version'' ''v1'' = Inr t"
    using encode_total [OF demo_cfg_ok(1), of "''v1''"] demo_cfg_ok(2) by auto
  moreover have "decodeOpaqueToken (Some demo_cfg) ''upload'' t = Inl TokenNotVirtual"
    by (rule token_kinds_separate [OF t]) simp_all
  ultimately show ?thesis by blast
qed

end
