(* ===== verification/Go_URL.thy ===== *)
theory Go_URL
  imports Go_Strings "HOL-Library.AList" "HOL-Library.List_Lexorder" "HOL-Library.Char_ord"
begin

text \<open>
  The parts of Go's \<^verbatim>\<open>net/url\<close> that the proxy uses: percent-encoding of paths, path segments and
  query components, \<^verbatim>\<open>url.Values\<close> with \<^verbatim>\<open>ParseQuery\<close> and \<^verbatim>\<open>Encode\<close>, and the escaped path of a URL.
  The lemmas show that decoding inverts encoding.
\<close>

section \<open>Percent-encoding\<close>

definition ishex :: "char \<Rightarrow> bool" where
  "ishex c = (let b = byte c in 48 \<le> b \<and> b \<le> 57 \<or> 97 \<le> b \<and> b \<le> 102 \<or> 65 \<le> b \<and> b \<le> 70)"

definition unhex :: "char \<Rightarrow> nat" where
  "unhex c = (let b = byte c in if b \<le> 57 then b - 48 else if 97 \<le> b then b - 97 + 10 else b - 65 + 10)"

definition upperhex :: "nat \<Rightarrow> char" where
  "upperhex n = (if n < 10 then char_of (48 + n) else char_of (55 + n))"

datatype encoding = encodePath | encodePathSegment | encodeQueryComponent

definition unreserved :: "char \<Rightarrow> bool" where
  "unreserved c =
     (let b = byte c in 65 \<le> b \<and> b \<le> 90 \<or> 97 \<le> b \<and> b \<le> 122 \<or> 48 \<le> b \<and> b \<le> 57
        \<or> c \<in> set ''-_.~'')"

definition shouldEscape :: "encoding \<Rightarrow> char \<Rightarrow> bool" where
  "shouldEscape m c =
     (if unreserved c then False
      else if c \<in> set ''$&+,/:;=?@'' then
        (case m of
           encodePath \<Rightarrow> c = CHR ''?''
         | encodePathSegment \<Rightarrow> c \<in> set ''/;,?''
         | encodeQueryComponent \<Rightarrow> True)
      else True)"

definition percent :: "char \<Rightarrow> string" where
  "percent c = [CHR ''%'', upperhex (byte c div 16), upperhex (byte c mod 16)]"

definition escape_char :: "encoding \<Rightarrow> char \<Rightarrow> string" where
  "escape_char m c =
     (if c = CHR '' '' \<and> m = encodeQueryComponent then ''+''
      else if shouldEscape m c then percent c else [c])"

definition escape :: "encoding \<Rightarrow> string \<Rightarrow> string" where
  "escape m s = concat (map (escape_char m) s)"

fun unescape :: "encoding \<Rightarrow> string \<Rightarrow> string option" where
  "unescape m [] = Some []"
| "unescape m (c # cs) =
     (if c = CHR ''%'' then
        (case cs of
           a # b # rest \<Rightarrow>
             if ishex a \<and> ishex b then map_option (Cons (char_of (16 * unhex a + unhex b))) (unescape m rest) else None
         | _ \<Rightarrow> None)
      else map_option (Cons (if c = CHR ''+'' \<and> m = encodeQueryComponent then CHR '' '' else c)) (unescape m cs))"

abbreviation "PathUnescape \<equiv> unescape encodePathSegment"
abbreviation "QueryUnescape \<equiv> unescape encodeQueryComponent"
abbreviation "QueryEscape \<equiv> escape encodeQueryComponent"

lemma byte_char_of: "n < 256 \<Longrightarrow> byte (char_of n) = n"
  by (simp add: byte_def)

lemma upperhex_ok: "n < 16 \<Longrightarrow> ishex (upperhex n) \<and> unhex (upperhex n) = n \<and> upperhex n \<notin> set ''%+&;=''"
proof -
  assume "n < 16"
  then have "byte (upperhex n) = (if n < 10 then 48 + n else 55 + n)"
    by (simp add: upperhex_def byte_char_of)
  moreover have "c \<notin> set ''%+&;=''" if "byte c \<in> {48..57} \<union> {65..70}" for c
    using that by (auto simp: byte_def)
  ultimately show ?thesis using \<open>n < 16\<close> by (auto simp: ishex_def unhex_def Let_def)
qed

lemma percent_digits:
  "ishex (upperhex (byte c div 16))" "ishex (upperhex (byte c mod 16))"
  "unhex (upperhex (byte c div 16)) = byte c div 16" "unhex (upperhex (byte c mod 16)) = byte c mod 16"
  using upperhex_ok [of "byte c div 16"] upperhex_ok [of "byte c mod 16"] byte_bound [of c]
  by (simp_all add: less_mult_imp_div_less)

lemma unescape_percent: "unescape m (percent c @ s) = map_option (Cons c) (unescape m s)"
  by (simp add: percent_def percent_digits)

lemma unescape_escape_char: "unescape m (escape_char m c @ s) = map_option (Cons c) (unescape m s)"
proof -
  have "shouldEscape m (CHR ''%'')" by (simp add: shouldEscape_def unreserved_def byte_def)
  moreover have "shouldEscape encodeQueryComponent (CHR ''+'')" by (simp add: shouldEscape_def unreserved_def byte_def)
  ultimately show ?thesis by (auto simp: escape_char_def unescape_percent)
qed

lemma unescape_escape: "unescape m (escape m s) = Some s"
  by (induction s) (simp_all add: escape_def unescape_escape_char)

lemma unescape_escape_append: "unescape m (escape m s @ t) = map_option (append s) (unescape m t)"
  by (induction s) (simp_all add: escape_def unescape_escape_char option.map_comp comp_def option.map_ident)

lemma escape_inject: "escape m s = escape m t \<longleftrightarrow> s = t"
  by (metis option.inject unescape_escape)

lemma escape_append: "escape m (s @ t) = escape m s @ escape m t"
  by (simp add: escape_def)

lemma escape_char_chars: "x \<in> set (escape_char m c) \<Longrightarrow> x = CHR ''%'' \<or> x = CHR ''+'' \<or> ishex x \<or> x = c \<and> \<not> shouldEscape m c"
  by (auto simp: escape_char_def percent_def percent_digits split: if_splits)

lemma query_separators: "x \<in> set (QueryEscape s) \<Longrightarrow> x \<notin> set ''&;=''"
proof -
  assume "x \<in> set (QueryEscape s)"
  then obtain c where "x \<in> set (escape_char encodeQueryComponent c)" by (auto simp: escape_def)
  note escape_char_chars [OF this]
  moreover have "shouldEscape encodeQueryComponent y" if "y \<in> set ''&;=''" for y
    using that by (auto simp: shouldEscape_def unreserved_def byte_def)
  moreover have "\<not> ishex y" if "y \<in> set ''&;=''" for y using that by (auto simp: ishex_def byte_def)
  ultimately show ?thesis by auto
qed

section \<open>Values\<close>

text \<open>A \<^verbatim>\<open>url.Values\<close> is a map, held as an association list with distinct keys.\<close>

type_synonym url_values = "(string \<times> string list) list"

definition values_Get :: "url_values \<Rightarrow> string \<Rightarrow> string" where
  "values_Get q k = (case map_of q k of Some (v # _) \<Rightarrow> v | _ \<Rightarrow> [])"

definition values_Set :: "url_values \<Rightarrow> string \<Rightarrow> string \<Rightarrow> url_values" where
  "values_Set q k v = AList.update k [v] q"

definition values_Add :: "url_values \<Rightarrow> string \<Rightarrow> string \<Rightarrow> url_values" where
  "values_Add q k v = AList.update k (case map_of q k of None \<Rightarrow> [v] | Some vs \<Rightarrow> vs @ [v]) q"

definition maxQueryParams :: nat where
  "maxQueryParams = 10000"

text \<open>
  A segment between ampersands: one with a semicolon is an error, an empty one is skipped. The
  values read so far are returned beside the error, which \<^verbatim>\<open>URL.Query\<close> ignores.
\<close>

definition parse_segment :: "string \<Rightarrow> url_values \<times> bool \<Rightarrow> url_values \<times> bool" where
  "parse_segment seg st =
     (if CHR '';'' \<in> set seg then (fst st, True)
      else if seg = [] then st
      else (let kv = (case Cut seg ''='' of None \<Rightarrow> (seg, []) | Some kv \<Rightarrow> kv)
            in case (QueryUnescape (fst kv), QueryUnescape (snd kv)) of
                 (Some k, Some v) \<Rightarrow> (values_Add (fst st) k v, snd st)
               | _ \<Rightarrow> (fst st, True)))"

definition parseQuery :: "string \<Rightarrow> url_values \<times> bool" where
  "parseQuery raw =
     (if maxQueryParams < length (Split raw ''&'') then ([], True)
      else foldl (\<lambda>st seg. parse_segment seg st) ([], False) (Split raw ''&''))"

definition ParseQuery :: "string \<Rightarrow> url_values option" where
  "ParseQuery raw = (let (q, err) = parseQuery raw in if err then None else Some q)"

definition URL_Query :: "string \<Rightarrow> url_values" where
  "URL_Query raw = fst (parseQuery raw)"

definition encode_pair :: "string \<Rightarrow> string \<Rightarrow> string" where
  "encode_pair k v = QueryEscape k @ ''='' @ QueryEscape v"

definition values_pairs :: "url_values \<Rightarrow> (string \<times> string) list" where
  "values_pairs q = concat (map (\<lambda>k. map (Pair k) (the (map_of q k))) (sort (keys q)))"

definition values_Encode :: "url_values \<Rightarrow> string" where
  "values_Encode q = Join (map (\<lambda>(k, v). encode_pair k v) (values_pairs q)) ''&''"

definition wf_values :: "url_values \<Rightarrow> bool" where
  "wf_values q = (distinct (keys q) \<and> list_all (\<lambda>(k, vs). vs \<noteq> []) q)"

subsection \<open>Decoding inverts encoding\<close>

lemma encode_pair_plain: "CHR ''&'' \<notin> set (encode_pair k v)" "CHR '';'' \<notin> set (encode_pair k v)" "encode_pair k v \<noteq> []"
  using query_separators [of "CHR ''&''"] query_separators [of "CHR '';''"] by (auto simp: encode_pair_def)

lemma parse_segment_pair: "parse_segment (encode_pair k v) (q, e) = (values_Add q k v, e)"
proof -
  have "CHR ''='' \<notin> set (QueryEscape k)" using query_separators [of "CHR ''=''"] by auto
  then have "Cut (encode_pair k v) ''='' = Some (QueryEscape k, QueryEscape v)"
    by (simp add: encode_pair_def Cut_char)
  then show ?thesis
    using encode_pair_plain [of k v] by (simp add: parse_segment_def unescape_escape)
qed

lemma parse_pairs:
  "foldl (\<lambda>st seg. parse_segment seg st) (q, False) (map (\<lambda>(k, v). encode_pair k v) ps) =
   (foldl (\<lambda>q (k, v). values_Add q k v) q ps, False)"
  by (induction ps arbitrary: q) (auto simp: parse_segment_pair)

lemma add_pairs_same:
  "k \<notin> set (keys q) \<Longrightarrow> vs \<noteq> [] \<Longrightarrow> foldl (\<lambda>q (k, v). values_Add q k v) q (map (Pair k) vs) = q @ [(k, vs)]"
proof (induction vs rule: rev_induct)
  case (snoc v vs)
  have fresh: "AList.update k x q = q @ [(k, x)]" for x
    using snoc.prems(1) by (induction q) auto
  have last: "AList.update k x (q @ [(k, y)]) = q @ [(k, x)]" for x y
    using snoc.prems(1) by (induction q) auto
  have "map_of (q @ [(k, vs)]) k = Some vs" "map_of q k = None"
    using snoc.prems(1) by (auto simp: map_add_Some_iff map_of_None_keys)
  with snoc fresh last show ?case by (cases "vs = []") (simp_all add: values_Add_def)
qed simp

lemma add_pairs:
  assumes "distinct (ks @ keys q)" "\<forall>k \<in> set ks. f k \<noteq> []"
  shows "foldl (\<lambda>q (k, v). values_Add q k v) q (concat (map (\<lambda>k. map (Pair k) (f k)) ks)) = q @ map (\<lambda>k. (k, f k)) ks"
  using assms
proof (induction ks arbitrary: q)
  case (Cons k ks)
  have "foldl (\<lambda>q (k, v). values_Add q k v) q (map (Pair k) (f k)) = q @ [(k, f k)]"
    using Cons.prems by (intro add_pairs_same) auto
  moreover have "foldl (\<lambda>q (k, v). values_Add q k v) (q @ [(k, f k)]) (concat (map (\<lambda>k. map (Pair k) (f k)) ks)) =
      (q @ [(k, f k)]) @ map (\<lambda>k. (k, f k)) ks"
    using Cons.prems by (intro Cons.IH) (auto simp: keys_def)
  ultimately show ?case by simp
qed simp

definition sort_values :: "url_values \<Rightarrow> url_values" where
  "sort_values q = map (\<lambda>k. (k, the (map_of q k))) (sort (keys q))"

lemma map_of_tabulate: "map_of (map (\<lambda>k. (k, f k)) ks) k = (if k \<in> set ks then Some (f k) else None)"
  by (induction ks) auto

lemma map_of_sort_values:
  assumes "distinct (keys q)"
  shows "map_of (sort_values q) = map_of q"
proof
  fix k
  show "map_of (sort_values q) k = map_of q k"
    by (cases "map_of q k") (auto simp: sort_values_def map_of_tabulate dest: map_of_in_keys map_of_None_keys [THEN iffD1])
qed

lemma wf_values_nonempty: "wf_values q \<Longrightarrow> k \<in> set (keys q) \<Longrightarrow> the (map_of q k) \<noteq> []"
  by (force simp: wf_values_def keys_def list_all_iff)

lemma Split_Encode:
  assumes "ps \<noteq> []"
  shows "Split (Join (map (\<lambda>(k, v). encode_pair k v) ps) ''&'') ''&'' = map (\<lambda>(k, v). encode_pair k v) ps"
  using assms encode_pair_plain by (intro Split_Join_char) auto

lemma parseQuery_Encode:
  assumes "wf_values q" "length (values_pairs q) \<le> maxQueryParams"
  shows "parseQuery (values_Encode q) = (sort_values q, False)"
proof (cases "values_pairs q = []")
  case True
  then have "sort (keys q) = []"
    using wf_values_nonempty [OF assms(1)] by (auto simp: values_pairs_def)
  then have "q = []" by (cases q) (auto dest: arg_cong [of _ _ length])
  then show ?thesis
    by (simp add: values_Encode_def values_pairs_def parseQuery_def sort_values_def parse_segment_def maxQueryParams_def Split_char_plain)
next
  case False
  have "distinct (sort (keys q))" using assms(1) by (simp add: wf_values_def)
  then have "foldl (\<lambda>q (k, v). values_Add q k v) [] (values_pairs q) = sort_values q"
    using add_pairs [of "sort (keys q)" "[]" "\<lambda>k. the (map_of q k)"] wf_values_nonempty [OF assms(1)]
    by (simp add: values_pairs_def sort_values_def)
  then show ?thesis
    using assms(2) by (simp add: parseQuery_def values_Encode_def Split_Encode [OF False] parse_pairs)
qed

section \<open>URLs\<close>

text \<open>
  The fields of a \<^verbatim>\<open>url.URL\<close> that the program reads; \<^verbatim>\<open>RawPath\<close> is set when the default encoding
  of the path is not the one received.
\<close>

record go_url =
  u_Scheme :: string
  u_Host :: string
  u_Path :: string
  u_RawPath :: string
  u_RawQuery :: string

definition validEncoded :: "string \<Rightarrow> bool" where
  "validEncoded s = list_all (\<lambda>c. c \<in> set ''!$&()*+,;=:@[]%'' \<or> byte c = 39 \<or> \<not> shouldEscape encodePath c) s"

definition EscapedPath :: "go_url \<Rightarrow> string" where
  "EscapedPath u =
     (if u_RawPath u \<noteq> [] \<and> validEncoded (u_RawPath u) \<and> unescape encodePath (u_RawPath u) = Some (u_Path u)
      then u_RawPath u
      else if u_Path u = ''*'' then ''*''
      else escape encodePath (u_Path u))"

lemma unescape_EscapedPath: "unescape encodePath (EscapedPath u) = Some (u_Path u)"
  by (auto simp: EscapedPath_def unescape_escape)

end
