(* ===== verification/Go_HTTP.thy ===== *)
theory Go_HTTP
  imports Go_URL
begin

text \<open>
  The parts of Go's \<^verbatim>\<open>net/http\<close> that the proxy uses: headers and requests. A header is a map,
  held as an association list with distinct names; a loop over it runs through the list.
\<close>

type_synonym http_header = "(string \<times> string list) list"

definition token_byte :: "char \<Rightarrow> bool" where
  "token_byte c =
     (let b = byte c in 48 \<le> b \<and> b \<le> 57 \<or> 65 \<le> b \<and> b \<le> 90 \<or> 97 \<le> b \<and> b \<le> 122
        \<or> b \<in> {33, 35, 36, 37, 38, 39, 42, 43, 45, 46, 94, 95, 96, 124, 126})"

definition upper_byte :: "char \<Rightarrow> char" where
  "upper_byte c = (if 97 \<le> byte c \<and> byte c \<le> 122 then char_of (byte c - 32) else c)"

fun canonical_from :: "bool \<Rightarrow> string \<Rightarrow> string" where
  "canonical_from upper [] = []"
| "canonical_from upper (c # cs) =
     (if upper then upper_byte c else lower_byte c) # canonical_from (c = CHR ''-'') cs"

definition CanonicalHeaderKey :: "string \<Rightarrow> string" where
  "CanonicalHeaderKey s = (if list_all token_byte s then canonical_from True s else s)"

definition header_Values :: "http_header \<Rightarrow> string \<Rightarrow> string list" where
  "header_Values h name = (case map_of h (CanonicalHeaderKey name) of None \<Rightarrow> [] | Some vs \<Rightarrow> vs)"

definition header_Get :: "http_header \<Rightarrow> string \<Rightarrow> string" where
  "header_Get h name = (case header_Values h name of [] \<Rightarrow> [] | v # _ \<Rightarrow> v)"

definition header_Set :: "http_header \<Rightarrow> string \<Rightarrow> string \<Rightarrow> http_header" where
  "header_Set h name v = AList.update (CanonicalHeaderKey name) [v] h"

definition header_Add :: "http_header \<Rightarrow> string \<Rightarrow> string \<Rightarrow> http_header" where
  "header_Add h name v =
     (let k = CanonicalHeaderKey name
      in AList.update k (case map_of h k of None \<Rightarrow> [v] | Some vs \<Rightarrow> vs @ [v]) h)"

definition header_Del :: "http_header \<Rightarrow> string \<Rightarrow> http_header" where
  "header_Del h name = AList.delete (CanonicalHeaderKey name) h"

record http_request =
  r_Method :: string
  r_URL :: go_url
  r_Host :: string
  r_Header :: http_header
  r_ContentLength :: int
  r_TransferEncoding :: "string list"
  r_TLS :: bool
  r_Trailer :: http_header

section \<open>Laws of canonical names\<close>

lemma upper_lower_byte [simp]:
  "upper_byte (lower_byte c) = upper_byte c" "lower_byte (upper_byte c) = lower_byte c"
  "upper_byte (upper_byte c) = upper_byte c"
  by (auto simp: upper_byte_def lower_byte_def byte_char_of)

lemma dash_case [simp]: "upper_byte c = CHR ''-'' \<longleftrightarrow> c = CHR ''-''" "lower_byte c = CHR ''-'' \<longleftrightarrow> c = CHR ''-''"
proof -
  have b: "c = CHR ''-'' \<longleftrightarrow> byte c = 45" for c
    using byte_inject [of c "CHR ''-''"] by (simp add: byte_def)
  show "upper_byte c = CHR ''-'' \<longleftrightarrow> c = CHR ''-''" "lower_byte c = CHR ''-'' \<longleftrightarrow> c = CHR ''-''"
    by (simp_all only: b) (auto simp: upper_byte_def lower_byte_def byte_char_of)
qed

lemma canonical_from_lower: "canonical_from u (map lower_byte s) = canonical_from u s"
  by (induction s arbitrary: u) auto

lemma lower_canonical_from: "map lower_byte (canonical_from u s) = map lower_byte s"
  by (induction s arbitrary: u) auto

lemma canonical_from_idem: "canonical_from u (canonical_from u s) = canonical_from u s"
  by (metis canonical_from_lower lower_canonical_from)

lemma token_alpha: "65 \<le> byte c \<Longrightarrow> byte c \<le> 90 \<Longrightarrow> token_byte c" "97 \<le> byte c \<Longrightarrow> byte c \<le> 122 \<Longrightarrow> token_byte c"
  unfolding token_byte_def Let_def by blast+

lemma token_byte_case: "token_byte (lower_byte c) = token_byte c" "token_byte (upper_byte c) = token_byte c"
  by (auto simp: lower_byte_def upper_byte_def byte_char_of intro: token_alpha)

lemma token_canonical_from: "list_all token_byte (canonical_from u s) = list_all token_byte s"
  by (induction s arbitrary: u) (auto simp: token_byte_case)

lemma token_lower: "list_all token_byte (map lower_byte s) = list_all token_byte s"
  by (induction s) (auto simp: token_byte_case)

lemma token_ascii: "list_all token_byte s \<Longrightarrow> is_ascii s"
  by (auto simp: is_ascii_def list_all_iff token_byte_def Let_def)

lemma CanonicalHeaderKey_idem [simp]: "CanonicalHeaderKey (CanonicalHeaderKey s) = CanonicalHeaderKey s"
  by (simp add: CanonicalHeaderKey_def token_canonical_from canonical_from_idem)

text \<open>Two tokens have the same canonical form exactly when they are equal up to case.\<close>

lemma CanonicalHeaderKey_eq:
  assumes "list_all token_byte s" "list_all token_byte t"
  shows "CanonicalHeaderKey s = CanonicalHeaderKey t \<longleftrightarrow> ToLower s = ToLower t"
proof -
  have "canonical_from True s = canonical_from True t \<longleftrightarrow> map lower_byte s = map lower_byte t"
    by (metis canonical_from_lower lower_canonical_from)
  then show ?thesis
    using assms by (simp add: CanonicalHeaderKey_def ToLower_ascii token_ascii)
qed

lemma header_Values_Set: "CanonicalHeaderKey k = CanonicalHeaderKey name \<Longrightarrow> header_Values (header_Set h name v) k = [v]"
  by (simp add: header_Values_def header_Set_def update_conv')

lemma header_Values_Set_other:
  "CanonicalHeaderKey k \<noteq> CanonicalHeaderKey name \<Longrightarrow> header_Values (header_Set h name v) k = header_Values h k"
  by (simp add: header_Values_def header_Set_def update_conv')

end
