(* ===== verification/Go_JSON.thy ===== *)
theory Go_JSON
  imports Go_Strings
begin

text \<open>
  Go's \<^verbatim>\<open>encoding/json\<close>: the values of a JSON text and the decoding of a text that
  holds exactly one value. Numbers keep their spelling, as with
  \<^verbatim>\<open>Decoder.UseNumber\<close>. The parser is the scanner's stack machine: it reads the tokens
  from left to right and keeps the enclosing arrays and objects on a stack, at most
  10000 deep. Texts are valid UTF-8 wherever the program decodes one.
\<close>

datatype json =
    JNull
  | JBool bool
  | JNumber string
  | JString string
  | JArray "json list"
  | JObject "(string \<times> json) list"

section \<open>Tokens\<close>

datatype jtok = LBrace | RBrace | LBrack | RBrack | Comma | Colon | Scalar json

definition hex_value :: "char \<Rightarrow> nat option" where
  "hex_value c =
     (let b = byte c in
      if 48 \<le> b \<and> b \<le> 57 then Some (b - 48)
      else if 97 \<le> b \<and> b \<le> 102 then Some (b - 87)
      else if 65 \<le> b \<and> b \<le> 70 then Some (b - 55)
      else None)"

fun hex4 :: "string \<Rightarrow> nat option" where
  "hex4 (a # b # c # d # _) =
     (case (hex_value a, hex_value b, hex_value c, hex_value d) of
        (Some i, Some j, Some k, Some l) \<Rightarrow> Some (((i * 16 + j) * 16 + k) * 16 + l)
      | _ \<Rightarrow> None)"
| "hex4 _ = None"

definition simple_escape :: "char \<Rightarrow> char option" where
  "simple_escape c =
     (if c = CHR 0x22 \<or> c = CHR 0x5C \<or> c = CHR ''/'' then Some c
      else if c = CHR ''b'' then Some (CHR 0x08)
      else if c = CHR ''f'' then Some (CHR 0x0C)
      else if c = CHR ''n'' then Some (CHR 0x0A)
      else if c = CHR ''r'' then Some (CHR 0x0D)
      else if c = CHR ''t'' then Some (CHR 0x09)
      else None)"

text \<open>
  The code units after a \<^verbatim>\<open>\u\<close> escape: the bytes they stand for and how many bytes of the
  text follow the \<^verbatim>\<open>u\<close>. A surrogate that is not the first half of a pair is
  \<^verbatim>\<open>U+FFFD\<close>.
\<close>

definition unicode_escape :: "string \<Rightarrow> (string \<times> nat) option" where
  "unicode_escape s =
     (case hex4 s of
        None \<Rightarrow> None
      | Some r \<Rightarrow>
          if 55296 \<le> r \<and> r \<le> 57343 then
            (case (if take 2 (drop 4 s) = [CHR 0x5C, CHR ''u''] then hex4 (drop 6 s) else None) of
               Some r2 \<Rightarrow>
                 if r \<le> 56319 \<and> 56320 \<le> r2 \<and> r2 \<le> 57343
                 then Some (encode_rune ((r - 55296) * 1024 + (r2 - 56320) + 65536), 10)
                 else Some (encode_rune RuneError, 4)
             | None \<Rightarrow> Some (encode_rune RuneError, 4))
          else Some (encode_rune r, 4))"

text \<open>The value of a string literal after its opening quote, and the bytes it takes.\<close>

fun string_literal :: "string \<Rightarrow> (string \<times> nat) option" where
  "string_literal [] = None"
| "string_literal (c # cs) =
     (if c = CHR 0x22 then Some ([], 1)
      else if byte c < 32 then None
      else if c = CHR 0x5C then
        (case cs of
           [] \<Rightarrow> None
         | e # es \<Rightarrow>
             if e = CHR ''u'' then
               (case unicode_escape es of
                  None \<Rightarrow> None
                | Some (bs, n) \<Rightarrow>
                    map_option (\<lambda>(v, m). (bs @ v, m + n + 2)) (string_literal (drop n es)))
             else
               (case simple_escape e of
                  None \<Rightarrow> None
                | Some d \<Rightarrow> map_option (\<lambda>(v, m). (d # v, m + 2)) (string_literal es)))
      else map_option (\<lambda>(v, m). (c # v, m + 1)) (string_literal cs))"

definition digits_len :: "string \<Rightarrow> nat" where
  "digits_len s = length (takeWhile is_digit s)"

text \<open>The length of the number at the start of a text.\<close>

definition int_len :: "string \<Rightarrow> nat option" where
  "int_len s =
     (case s of
        [] \<Rightarrow> None
      | c # cs \<Rightarrow> if c = CHR ''0'' then Some 1
                 else if is_digit c then Some (1 + digits_len cs) else None)"

definition frac_len :: "string \<Rightarrow> nat option" where
  "frac_len s =
     (case s of
        c # cs \<Rightarrow> if c = CHR ''.'' then (if digits_len cs = 0 then None else Some (1 + digits_len cs))
                 else Some 0
      | [] \<Rightarrow> Some 0)"

definition exp_len :: "string \<Rightarrow> nat option" where
  "exp_len s =
     (case s of
        c # cs \<Rightarrow>
          if c = CHR ''e'' \<or> c = CHR ''E'' then
            (let sg = (case cs of d # _ \<Rightarrow> if d = CHR ''+'' \<or> d = CHR ''-'' then 1 else 0 | [] \<Rightarrow> 0);
                 n = digits_len (drop sg cs)
             in if n = 0 then None else Some (1 + sg + n))
          else Some 0
      | [] \<Rightarrow> Some 0)"

definition number_len :: "string \<Rightarrow> nat option" where
  "number_len s =
     (let sg = (case s of c # _ \<Rightarrow> if c = CHR ''-'' then 1 else 0 | [] \<Rightarrow> 0) in
      case int_len (drop sg s) of
        None \<Rightarrow> None
      | Some i \<Rightarrow>
          (case frac_len (drop (sg + i) s) of
             None \<Rightarrow> None
           | Some f \<Rightarrow> map_option (\<lambda>e. sg + i + f + e) (exp_len (drop (sg + i + f) s))))"

definition is_json_space :: "char \<Rightarrow> bool" where
  "is_json_space c = (c = CHR '' '' \<or> c = CHR 0x09 \<or> c = CHR 0x0D \<or> c = CHR 0x0A)"

fun json_lex :: "string \<Rightarrow> jtok list option" where
  "json_lex [] = Some []"
| "json_lex (c # cs) =
     (if is_json_space c then json_lex cs
      else if c = CHR ''{'' then map_option ((#) LBrace) (json_lex cs)
      else if c = CHR ''}'' then map_option ((#) RBrace) (json_lex cs)
      else if c = CHR ''['' then map_option ((#) LBrack) (json_lex cs)
      else if c = CHR '']'' then map_option ((#) RBrack) (json_lex cs)
      else if c = CHR '','' then map_option ((#) Comma) (json_lex cs)
      else if c = CHR '':'' then map_option ((#) Colon) (json_lex cs)
      else if c = CHR 0x22 then
        (case string_literal cs of
           None \<Rightarrow> None
         | Some (v, n) \<Rightarrow> map_option ((#) (Scalar (JString v))) (json_lex (drop n cs)))
      else if HasPrefix (c # cs) ''true'' then
        map_option ((#) (Scalar (JBool True))) (json_lex (drop 3 cs))
      else if HasPrefix (c # cs) ''false'' then
        map_option ((#) (Scalar (JBool False))) (json_lex (drop 4 cs))
      else if HasPrefix (c # cs) ''null'' then
        map_option ((#) (Scalar JNull)) (json_lex (drop 3 cs))
      else
        (case number_len (c # cs) of
           None \<Rightarrow> None
         | Some n \<Rightarrow>
             map_option ((#) (Scalar (JNumber (take n (c # cs))))) (json_lex (drop (n - 1) cs))))"

section \<open>The stack machine\<close>

text \<open>
  The open arrays and objects, innermost first, each with the elements read so far in
  reverse; \<open>KeyFrame\<close> is an object whose current key has been read.
\<close>

datatype jframe =
    ArrFrame "json list"
  | ObjFrame "(string \<times> json) list"
  | KeyFrame "(string \<times> json) list" string

datatype jmode = WantValue | WantFirst | WantKey | WantFirstKey | WantColon string | Done json

definition max_nesting :: nat where
  "max_nesting = 10000"

definition jpush :: "jframe \<Rightarrow> jframe list \<Rightarrow> jmode \<Rightarrow> (jframe list \<times> jmode) option" where
  "jpush f st m = (if length st < max_nesting then Some (f # st, m) else None)"

definition jopen :: "jframe list \<Rightarrow> jtok \<Rightarrow> (jframe list \<times> jmode) option" where
  "jopen st t =
     (case t of
        Scalar v \<Rightarrow> Some (st, Done v)
      | LBrack \<Rightarrow> jpush (ArrFrame []) st WantFirst
      | LBrace \<Rightarrow> jpush (ObjFrame []) st WantFirstKey
      | _ \<Rightarrow> None)"

definition jkey :: "jframe list \<Rightarrow> jtok \<Rightarrow> (jframe list \<times> jmode) option" where
  "jkey st t = (case t of Scalar (JString k) \<Rightarrow> Some (st, WantColon k) | _ \<Rightarrow> None)"

definition jclose :: "jframe list \<Rightarrow> json \<Rightarrow> jtok \<Rightarrow> (jframe list \<times> jmode) option" where
  "jclose st v t =
     (case st of
        ArrFrame vs # st' \<Rightarrow>
          (case t of
             Comma \<Rightarrow> Some (ArrFrame (v # vs) # st', WantValue)
           | RBrack \<Rightarrow> Some (st', Done (JArray (rev (v # vs))))
           | _ \<Rightarrow> None)
      | KeyFrame kvs k # st' \<Rightarrow>
          (case t of
             Comma \<Rightarrow> Some (ObjFrame ((k, v) # kvs) # st', WantKey)
           | RBrace \<Rightarrow> Some (st', Done (JObject (rev ((k, v) # kvs))))
           | _ \<Rightarrow> None)
      | _ \<Rightarrow> None)"

fun jstep :: "jframe list \<Rightarrow> jmode \<Rightarrow> jtok \<Rightarrow> (jframe list \<times> jmode) option" where
  "jstep st WantValue t = jopen st t"
| "jstep st WantFirst t =
     (case (st, t) of
        (ArrFrame [] # st', RBrack) \<Rightarrow> Some (st', Done (JArray []))
      | _ \<Rightarrow> jopen st t)"
| "jstep st WantKey t = jkey st t"
| "jstep st WantFirstKey t =
     (case (st, t) of
        (ObjFrame [] # st', RBrace) \<Rightarrow> Some (st', Done (JObject []))
      | _ \<Rightarrow> jkey st t)"
| "jstep st (WantColon k) t =
     (case (st, t) of
        (ObjFrame kvs # st', Colon) \<Rightarrow> Some (KeyFrame kvs k # st', WantValue)
      | _ \<Rightarrow> None)"
| "jstep st (Done v) t = jclose st v t"

fun jrun :: "jframe list \<Rightarrow> jmode \<Rightarrow> jtok list \<Rightarrow> json option" where
  "jrun st m [] = (case (st, m) of ([], Done v) \<Rightarrow> Some v | _ \<Rightarrow> None)"
| "jrun st m (t # ts) = (case jstep st m t of None \<Rightarrow> None | Some (st', m') \<Rightarrow> jrun st' m' ts)"

text \<open>A text that is one JSON value and white space around it.\<close>

definition json_decode :: "string \<Rightarrow> json option" where
  "json_decode s = (case json_lex s of None \<Rightarrow> None | Some ts \<Rightarrow> jrun [] WantValue ts)"

section \<open>Decoding into Go types\<close>

text \<open>
  A map decoded from an object: of several members with the same name the last one counts.
  The entries are in the order in which their names first appear.
\<close>

definition json_member :: "(string \<times> json) list \<Rightarrow> string \<Rightarrow> json option" where
  "json_member kvs k = map_of (rev kvs) k"

definition json_entries :: "(string \<times> json) list \<Rightarrow> (string \<times> json) list" where
  "json_entries kvs =
     List.map_filter (\<lambda>k. map_option (Pair k) (json_member kvs k)) (remdups (map fst kvs))"

text \<open>\<^verbatim>\<open>json.Unmarshal\<close> into a string: \<^verbatim>\<open>null\<close> leaves the empty string and is no error.\<close>

fun json_to_string :: "json \<Rightarrow> string option" where
  "json_to_string (JString s) = Some s"
| "json_to_string JNull = Some []"
| "json_to_string _ = None"

fun those_strings :: "json list \<Rightarrow> string list option" where
  "those_strings [] = Some []"
| "those_strings (v # vs) =
     (case json_to_string v of
        None \<Rightarrow> None
      | Some s \<Rightarrow> map_option ((#) s) (those_strings vs))"

fun json_to_strings :: "json \<Rightarrow> string list option" where
  "json_to_strings (JArray vs) = those_strings vs"
| "json_to_strings JNull = Some []"
| "json_to_strings _ = None"

text \<open>\<^verbatim>\<open>json.Unmarshal\<close> into a map: \<^verbatim>\<open>null\<close> leaves the nil map.\<close>

fun json_to_map :: "json \<Rightarrow> (string \<times> json) list option option" where
  "json_to_map (JObject kvs) = Some (Some (json_entries kvs))"
| "json_to_map JNull = Some None"
| "json_to_map _ = None"

text \<open>The entries of a decoded map: distinct names, each with its last value.\<close>

lemma keys_json_entries: "keys (json_entries kvs) = remdups (map fst kvs)"
proof -
  have "List.map_filter (\<lambda>k. map_option (Pair k) (json_member kvs k)) ks
        = map (\<lambda>k. (k, the (json_member kvs k))) ks"
    if "set ks \<subseteq> fst ` set kvs" for ks
    using that
  proof (induction ks)
    case (Cons k ks)
    then have "json_member kvs k \<noteq> None"
      by (simp add: json_member_def map_of_eq_None_iff)
    with Cons show ?case by (auto simp: List.map_filter_simps)
  qed (simp add: List.map_filter_simps)
  from this [of "remdups (map fst kvs)"] show ?thesis
    by (simp add: json_entries_def keys_def comp_def)
qed

lemma distinct_keys_json_entries: "distinct (keys (json_entries kvs))"
  by (simp add: keys_json_entries)

lemma set_json_entries: "(k, v) \<in> set (json_entries kvs) \<Longrightarrow> json_member kvs k = Some v"
  by (auto simp: json_entries_def List.map_filter_def)

end
