(* ===== verification/Go_Float.thy ===== *)
theory Go_Float
  imports Complex_Main Go_Strings
begin

text \<open>
  \<^verbatim>\<open>strconv.ParseFloat(s, 64)\<close> for the finite numbers. A float64 that is neither
  infinite nor NaN is the rational number it stands for; the result is \<open>None\<close> where Go
  returns an error, an infinity or NaN, which the program treats alike. Comparing two
  finite floats is comparing these rationals.
\<close>

section \<open>Rounding to a float64\<close>

definition pow2 :: "int \<Rightarrow> rat" where
  "pow2 e = (if 0 \<le> e then 2 ^ nat e else 1 / 2 ^ nat (- e))"

fun bit_length :: "nat \<Rightarrow> nat" where
  "bit_length n = (if n = 0 then 0 else Suc (bit_length (n div 2)))"

declare bit_length.simps [simp del]

text \<open>The largest \<open>e\<close> with \<open>pow2 e \<le> q\<close>, for a positive \<open>q\<close>.\<close>

definition floor_log2 :: "rat \<Rightarrow> int" where
  "floor_log2 q =
     (let nd = quotient_of q;
          a = int (bit_length (nat (fst nd))) - int (bit_length (nat (snd nd)))
      in if pow2 a \<le> q then a else a - 1)"

definition round_half_even :: "rat \<Rightarrow> int" where
  "round_half_even q =
     (let f = \<lfloor>q\<rfloor>; d = q - of_int f
      in if d < 1 / 2 then f else if 1 / 2 < d then f + 1 else if even f then f else f + 1)"

text \<open>The nearest float64 of a number that is not negative; \<open>None\<close> on overflow.\<close>

definition round_float64 :: "rat \<Rightarrow> rat option" where
  "round_float64 q =
     (if q = 0 then Some 0
      else let e = max (- 1074) (floor_log2 q - 52);
               r = of_int (round_half_even (q / pow2 e)) * pow2 e
           in if r < pow2 1024 then Some r else None)"

section \<open>Syntax\<close>

definition lower :: "char \<Rightarrow> char" where
  "lower c = lower_byte c"

text \<open>Underscores separate digits; one may follow a base prefix.\<close>

fun underscore_scan :: "bool \<Rightarrow> char \<Rightarrow> string \<Rightarrow> bool" where
  "underscore_scan hex saw [] = (saw \<noteq> CHR ''_'')"
| "underscore_scan hex saw (c # cs) =
     (if is_digit c \<or> (hex \<and> 97 \<le> byte (lower c) \<and> byte (lower c) \<le> 102)
      then underscore_scan hex (CHR ''0'') cs
      else if c = CHR ''_'' then saw = CHR ''0'' \<and> underscore_scan hex (CHR ''_'') cs
      else saw \<noteq> CHR ''_'' \<and> underscore_scan hex (CHR ''!'') cs)"

definition strip_sign :: "string \<Rightarrow> string" where
  "strip_sign s = (case s of c # cs \<Rightarrow> if c = CHR ''+'' \<or> c = CHR ''-'' then cs else s | [] \<Rightarrow> [])"

definition underscoreOK :: "string \<Rightarrow> bool" where
  "underscoreOK s0 =
     (let s = strip_sign s0 in
      case s of
        z # x # r \<Rightarrow>
          if z = CHR ''0'' \<and> lower x \<in> set [CHR ''b'', CHR ''o'', CHR ''x'']
          then underscore_scan (lower x = CHR ''x'') (CHR ''0'') r
          else underscore_scan False (CHR ''^'') s
      | _ \<Rightarrow> underscore_scan False (CHR ''^'') s)"

definition digit_in :: "nat \<Rightarrow> char \<Rightarrow> nat option" where
  "digit_in base c =
     (if is_digit c then Some (byte c - 48)
      else if base = 16 \<and> 97 \<le> byte (lower c) \<and> byte (lower c) \<le> 102 then Some (byte (lower c) - 87)
      else None)"

text \<open>
  The digits of the mantissa: the number they form, how many follow the point, whether a
  point and a digit have been read, and the rest of the text.
\<close>

fun read_mantissa ::
  "nat \<Rightarrow> nat \<Rightarrow> nat \<Rightarrow> bool \<Rightarrow> bool \<Rightarrow> string \<Rightarrow> nat \<times> nat \<times> bool \<times> string" where
  "read_mantissa base m nfrac sawdot sawdigits [] = (m, nfrac, sawdigits, [])"
| "read_mantissa base m nfrac sawdot sawdigits (c # cs) =
     (if c = CHR ''_'' then read_mantissa base m nfrac sawdot sawdigits cs
      else if c = CHR ''.'' then
        (if sawdot then (m, nfrac, sawdigits, c # cs)
         else read_mantissa base m nfrac True sawdigits cs)
      else case digit_in base c of
             Some d \<Rightarrow> read_mantissa base (m * base + d) (if sawdot then Suc nfrac else nfrac) sawdot True cs
           | None \<Rightarrow> (m, nfrac, sawdigits, c # cs))"

text \<open>The digits of the exponent, which stops growing at 10000, and the rest of the text.\<close>

fun read_exponent :: "nat \<Rightarrow> string \<Rightarrow> nat \<times> string" where
  "read_exponent e [] = (e, [])"
| "read_exponent e (c # cs) =
     (if c = CHR ''_'' then read_exponent e cs
      else if is_digit c then read_exponent (if e < 10000 then e * 10 + (byte c - 48) else e) cs
      else (e, c # cs))"

definition exponent_part :: "char \<Rightarrow> bool \<Rightarrow> string \<Rightarrow> int option" where
  "exponent_part expChar required s =
     (case s of
        [] \<Rightarrow> if required then None else Some 0
      | c # cs \<Rightarrow>
          if lower c \<noteq> expChar then None
          else (let neg = (case cs of d # _ \<Rightarrow> d = CHR ''-'' | [] \<Rightarrow> False);
                    ds = strip_sign cs
                in case ds of
                     [] \<Rightarrow> None
                   | d # _ \<Rightarrow>
                       if \<not> is_digit d then None
                       else (case read_exponent 0 ds of
                               (e, rest) \<Rightarrow>
                                 if rest \<noteq> [] then None
                                 else Some (if neg then - int e else int e))))"

definition rat_pow :: "nat \<Rightarrow> int \<Rightarrow> rat" where
  "rat_pow b e = (if 0 \<le> e then of_nat (b ^ nat e) else 1 / of_nat (b ^ nat (- e)))"

definition ParseFloat :: "string \<Rightarrow> rat option" where
  "ParseFloat s =
     (let neg = (case s of c # _ \<Rightarrow> c = CHR ''-'' | [] \<Rightarrow> False);
          u = strip_sign s;
          hex = (2 < length u \<and> u ! 0 = CHR ''0'' \<and> lower (u ! 1) = CHR ''x'');
          base = (if hex then 16 else 10)
      in case read_mantissa base 0 0 False False (if hex then drop 2 u else u) of
           (m, nfrac, sawdigits, rest) \<Rightarrow>
             if \<not> sawdigits then None
             else if CHR ''_'' \<in> set s \<and> \<not> underscoreOK s then None
             else case exponent_part (if hex then CHR ''p'' else CHR ''e'') hex rest of
                    None \<Rightarrow> None
                  | Some e \<Rightarrow>
                      map_option (\<lambda>v. if neg then - v else v)
                        (round_float64
                          (of_nat m * (if hex then pow2 (e - 4 * int nfrac) else rat_pow 10 (e - int nfrac)))))"

end
