(* ===== verification/Go_Time.thy ===== *)
theory Go_Time
  imports Go_Strings
begin

text \<open>
  Go's \<^verbatim>\<open>time\<close> package for the four layouts the program uses. A parsed time is kept as
  its UTC calendar fields, with the zone offset it was written in; \<open>instant\<close> turns it
  into the seconds and nanoseconds that comparisons and differences use. Seconds
  are counted from 1 January of the year 1, as inside \<^verbatim>\<open>time.Time\<close>.
\<close>

record civil =
  tm_year :: nat
  tm_month :: nat
  tm_day :: nat
  tm_hour :: nat
  tm_min :: nat
  tm_sec :: nat
  tm_nsec :: nat

section \<open>Calendar\<close>

definition isLeap :: "nat \<Rightarrow> bool" where
  "isLeap y = (y mod 4 = 0 \<and> (y mod 100 \<noteq> 0 \<or> y mod 400 = 0))"

definition daysIn :: "nat \<Rightarrow> nat \<Rightarrow> nat" where
  "daysIn m y =
     (if m = 2 then (if isLeap y then 29 else 28)
      else if m = 4 \<or> m = 6 \<or> m = 9 \<or> m = 11 then 30 else 31)"

fun days_before_month :: "nat \<Rightarrow> nat \<Rightarrow> nat" where
  "days_before_month y 0 = 0"
| "days_before_month y (Suc m) = (if m = 0 then 0 else days_before_month y m + daysIn m y)"

text \<open>Days from 1 January of the year 1 to 1 January of the year \<open>y\<close>; the year 0 is a leap year.\<close>

definition days_before_year :: "nat \<Rightarrow> int" where
  "days_before_year y =
     (if y = 0 then - 366
      else int (365 * (y - 1) + (y - 1) div 4 - (y - 1) div 100 + (y - 1) div 400))"

definition seconds :: "civil \<Rightarrow> int" where
  "seconds t =
     (days_before_year (tm_year t) + int (days_before_month (tm_year t) (tm_month t))
        + int (tm_day t) - 1) * 86400
     + int (tm_hour t * 3600 + tm_min t * 60 + tm_sec t)"

type_synonym instant = "int \<times> int"

definition instant_of :: "civil \<Rightarrow> int \<Rightarrow> instant" where
  "instant_of t offset = (seconds t - offset, int (tm_nsec t))"

definition unix_to_internal :: int where
  "unix_to_internal = 62135596800"

text \<open>\<^verbatim>\<open>time.Unix(sec, 0)\<close>: the sum is a 64-bit integer and wraps around.\<close>

definition wrap64 :: "int \<Rightarrow> int" where
  "wrap64 i = (i + 2 ^ 63) mod 2 ^ 64 - 2 ^ 63"

definition time_Unix :: "int \<Rightarrow> instant" where
  "time_Unix sec = (wrap64 (sec + unix_to_internal), 0)"

definition Before :: "instant \<Rightarrow> instant \<Rightarrow> bool" where
  "Before t u = (fst t < fst u \<or> (fst t = fst u \<and> snd t < snd u))"

definition After :: "instant \<Rightarrow> instant \<Rightarrow> bool" where
  "After t u = Before u t"

definition Unix :: "civil \<Rightarrow> int" where
  "Unix t = seconds t - unix_to_internal"

text \<open>\<^verbatim>\<open>t.Sub(u)\<close> in nanoseconds, held within 64 bits.\<close>

definition Sub :: "civil \<Rightarrow> civil \<Rightarrow> int" where
  "Sub t u =
     max (- (2 ^ 63)) (min (2 ^ 63 - 1)
       ((seconds t - seconds u) * 1000000000 + int (tm_nsec t) - int (tm_nsec u)))"

section \<open>Parsing\<close>

datatype layout_elem = LYear | LMonth | LDay | LHour | LMinute | LSecond | LZone | LLit char

definition layout_rfc3339 :: "layout_elem list" where
  "layout_rfc3339 =
     [LYear, LLit CHR ''-'', LMonth, LLit CHR ''-'', LDay, LLit CHR ''T'',
      LHour, LLit CHR '':'', LMinute, LLit CHR '':'', LSecond, LZone]"

definition layout_utc :: "layout_elem list" where
  "layout_utc =
     [LYear, LLit CHR ''-'', LMonth, LLit CHR ''-'', LDay, LLit CHR ''T'',
      LHour, LLit CHR '':'', LMinute, LLit CHR '':'', LSecond, LLit CHR ''Z'']"

definition layout_amz :: "layout_elem list" where
  "layout_amz =
     [LYear, LMonth, LDay, LLit CHR ''T'', LHour, LMinute, LSecond, LLit CHR ''Z'']"

definition layout_date :: "layout_elem list" where
  "layout_date = [LYear, LMonth, LDay]"

definition digit :: "char \<Rightarrow> nat" where
  "digit c = byte c - 48"

text \<open>One or two digits; with \<open>fixed\<close>, exactly two.\<close>

fun getnum :: "string \<Rightarrow> bool \<Rightarrow> (nat \<times> string) option" where
  "getnum [] fixed = None"
| "getnum [c] fixed = (if is_digit c \<and> \<not> fixed then Some (digit c, []) else None)"
| "getnum (c # d # s) fixed =
     (if \<not> is_digit c then None
      else if \<not> is_digit d then (if fixed then None else Some (digit c, d # s))
      else Some (digit c * 10 + digit d, s))"

definition in_range :: "nat \<Rightarrow> nat \<Rightarrow> (nat \<times> string) option \<Rightarrow> (nat \<times> string) option" where
  "in_range lo hi r =
     (case r of None \<Rightarrow> None | Some (n, s) \<Rightarrow> if lo \<le> n \<and> n \<le> hi then Some (n, s) else None)"

text \<open>
  A fraction of a second may follow the seconds although no layout names one; digits
  beyond the ninth are dropped.
\<close>

definition parse_fraction :: "string \<Rightarrow> nat \<times> string" where
  "parse_fraction s =
     (case s of
        p # d # r \<Rightarrow>
          if (p = CHR ''.'' \<or> p = CHR '','') \<and> is_digit d then
            (let ds = takeWhile is_digit (d # r); ks = take 9 ds
             in (digits_value ks * 10 ^ (9 - length ks), drop (length ds) (d # r)))
          else (0, s)
      | _ \<Rightarrow> (0, s))"

fun parse_zone :: "string \<Rightarrow> (int \<times> string) option" where
  "parse_zone [] = None"
| "parse_zone (z # s) =
     (if z = CHR ''Z'' then Some (0, s)
      else if z = CHR ''+'' \<or> z = CHR ''-'' then
        (case s of
           a # b # c # d # e # r \<Rightarrow>
             if c = CHR '':'' then
               (case (in_range 0 24 (getnum [a, b] True), in_range 0 60 (getnum [d, e] True)) of
                  (Some (h, _), Some (m, _)) \<Rightarrow>
                    Some ((if z = CHR ''-'' then -1 else 1) * int ((h * 60 + m) * 60), r)
                | _ \<Rightarrow> None)
             else None
         | _ \<Rightarrow> None)
      else None)"

definition parse_year :: "string \<Rightarrow> (nat \<times> string) option" where
  "parse_year s =
     (if length s < 4 \<or> \<not> list_all is_digit (take 4 s) then None
      else Some (digits_value (take 4 s), drop 4 s))"

text \<open>The fields read so far and the zone offset, for one layout element.\<close>

fun parse_elem :: "layout_elem \<Rightarrow> civil \<times> int \<Rightarrow> string \<Rightarrow> ((civil \<times> int) \<times> string) option" where
  "parse_elem LYear (t, z) s =
     map_option (\<lambda>(n, r). ((t\<lparr>tm_year := n\<rparr>, z), r)) (parse_year s)"
| "parse_elem LMonth (t, z) s =
     map_option (\<lambda>(n, r). ((t\<lparr>tm_month := n\<rparr>, z), r)) (in_range 1 12 (getnum s True))"
| "parse_elem LDay (t, z) s =
     map_option (\<lambda>(n, r). ((t\<lparr>tm_day := n\<rparr>, z), r)) (getnum s True)"
| "parse_elem LHour (t, z) s =
     map_option (\<lambda>(n, r). ((t\<lparr>tm_hour := n\<rparr>, z), r)) (in_range 0 23 (getnum s False))"
| "parse_elem LMinute (t, z) s =
     map_option (\<lambda>(n, r). ((t\<lparr>tm_min := n\<rparr>, z), r)) (in_range 0 59 (getnum s True))"
| "parse_elem LSecond (t, z) s =
     map_option (\<lambda>(n, r). (let fr = parse_fraction r
                           in ((t\<lparr>tm_sec := n, tm_nsec := fst fr\<rparr>, z), snd fr)))
       (in_range 0 59 (getnum s True))"
| "parse_elem LZone (t, z) s = map_option (\<lambda>(o1, r). ((t, o1), r)) (parse_zone s)"
| "parse_elem (LLit c) (t, z) s =
     (case s of d # r \<Rightarrow> if d = c then Some ((t, z), r) else None | [] \<Rightarrow> None)"

fun parse_elems :: "layout_elem list \<Rightarrow> civil \<times> int \<Rightarrow> string \<Rightarrow> (civil \<times> int) option" where
  "parse_elems [] tz s = (if s = [] then Some tz else None)"
| "parse_elems (e # es) tz s =
     (case parse_elem e tz s of None \<Rightarrow> None | Some (tz', r) \<Rightarrow> parse_elems es tz' r)"

definition valid_day :: "civil \<Rightarrow> bool" where
  "valid_day t = (1 \<le> tm_day t \<and> tm_day t \<le> daysIn (tm_month t) (tm_year t))"

definition civil_zero :: civil where
  "civil_zero = \<lparr>tm_year = 0, tm_month = 1, tm_day = 1, tm_hour = 0, tm_min = 0, tm_sec = 0, tm_nsec = 0\<rparr>"

text \<open>\<^verbatim>\<open>time.Parse\<close>: the fields as written and the offset of the zone in seconds.\<close>

definition time_Parse :: "layout_elem list \<Rightarrow> string \<Rightarrow> (civil \<times> int) option" where
  "time_Parse layout s =
     (case parse_elems layout (civil_zero, 0) s of
        None \<Rightarrow> None
      | Some (t, z) \<Rightarrow> if valid_day t then Some (t, z) else None)"

section \<open>Formatting\<close>

text \<open>Decimal digits of a number below \<open>10 ^ n\<close>, filled up with zeros to width \<open>n\<close>.\<close>

fun pad_digits :: "nat \<Rightarrow> nat \<Rightarrow> string" where
  "pad_digits 0 k = []"
| "pad_digits (Suc n) k = pad_digits n (k div 10) @ [char_of (48 + k mod 10)]"

fun format_elem :: "civil \<Rightarrow> layout_elem \<Rightarrow> string" where
  "format_elem t LYear = pad_digits 4 (tm_year t)"
| "format_elem t LMonth = pad_digits 2 (tm_month t)"
| "format_elem t LDay = pad_digits 2 (tm_day t)"
| "format_elem t LHour = pad_digits 2 (tm_hour t)"
| "format_elem t LMinute = pad_digits 2 (tm_min t)"
| "format_elem t LSecond = pad_digits 2 (tm_sec t)"
| "format_elem t LZone = ''Z''"
| "format_elem t (LLit c) = [c]"

text \<open>\<^verbatim>\<open>t.Format\<close> of a UTC time in a year of four digits.\<close>

definition time_Format :: "layout_elem list \<Rightarrow> civil \<Rightarrow> string" where
  "time_Format layout t = concat (map (format_elem t) layout)"

definition wf_civil :: "civil \<Rightarrow> bool" where
  "wf_civil t =
     (tm_year t < 10000 \<and> 1 \<le> tm_month t \<and> tm_month t \<le> 12 \<and> valid_day t \<and>
      tm_hour t < 24 \<and> tm_min t < 60 \<and> tm_sec t < 60 \<and> tm_nsec t < 1000000000)"

section \<open>Facts\<close>

lemma digit_char_of: "n < 10 \<Longrightarrow> digit (char_of (48 + n)) = n"
  by (simp add: digit_def byte_digit)

lemma pad_digits_2: "pad_digits 2 n = [char_of (48 + n div 10 mod 10), char_of (48 + n mod 10)]"
  by (simp add: numeral_2_eq_2)

lemma pad_digits_4:
  "pad_digits 4 n =
     [char_of (48 + n div 1000 mod 10), char_of (48 + n div 100 mod 10),
      char_of (48 + n div 10 mod 10), char_of (48 + n mod 10)]"
proof -
  have "(4::nat) = Suc (Suc (Suc (Suc 0)))" by simp
  then show ?thesis by (simp only: pad_digits.simps div_mult2_eq [symmetric]) simp
qed

lemma getnum_pad: "n < 100 \<Longrightarrow> getnum (pad_digits 2 n @ s) b = Some (n, s)"
proof -
  assume "n < 100"
  then have "n div 10 < 10" by simp
  moreover have "n mod 10 < 10" by simp
  moreover have "n div 10 mod 10 * 10 + n mod 10 = n" using \<open>n < 100\<close> by simp
  ultimately show ?thesis
    by (simp add: pad_digits_2 is_digit_char_of digit_char_of)
qed

lemma getnum_pad_end: "n < 100 \<Longrightarrow> getnum (pad_digits 2 n) b = Some (n, [])"
  using getnum_pad [of n "[]" b] by simp

lemma parse_year_pad: "n < 10000 \<Longrightarrow> parse_year (pad_digits 4 n @ s) = Some (n, s)"
proof -
  assume n: "n < 10000"
  have "n div 100 = n div 10 div 10" "n div 1000 = n div 10 div 10 div 10"
    by (simp_all add: div_mult2_eq [symmetric])
  moreover have "n div 10 div 10 div 10 < 10" using n by (simp add: div_mult2_eq [symmetric])
  ultimately have
    "((n div 1000 mod 10 * 10 + n div 100 mod 10) * 10 + n div 10 mod 10) * 10 + n mod 10 = n"
    by simp
  then show ?thesis
    using n by (simp add: pad_digits_4 parse_year_def is_digit_char_of digits_value_def byte_digit)
qed

text \<open>A calendar time formatted and read back, for the layout of \<^verbatim>\<open>X-Amz-Date\<close>.\<close>

lemma time_Parse_amz_Format:
  assumes "wf_civil t"
  shows "time_Parse layout_amz (time_Format layout_amz t) = Some (t\<lparr>tm_nsec := 0\<rparr>, 0)"
proof -
  have m: "daysIn (tm_month t) (tm_year t) \<le> 31" by (simp add: daysIn_def)
  have "tm_day t < 100" "tm_month t < 100" "tm_hour t < 100" "tm_min t < 100" "tm_sec t < 100"
    using assms m by (auto simp: wf_civil_def valid_day_def)
  then show ?thesis
    using assms
    by (simp add: time_Parse_def time_Format_def layout_amz_def wf_civil_def parse_year_pad
        getnum_pad in_range_def parse_fraction_def Let_def civil_zero_def valid_day_def)
qed

lemma time_Parse_date_Format:
  assumes "wf_civil t"
  shows "time_Parse layout_date (time_Format layout_date t)
         = Some (civil_zero\<lparr>tm_year := tm_year t, tm_month := tm_month t, tm_day := tm_day t\<rparr>, 0)"
proof -
  have m: "daysIn (tm_month t) (tm_year t) \<le> 31" by (simp add: daysIn_def)
  have "tm_day t < 100" "tm_month t < 100"
    using assms m by (auto simp: wf_civil_def valid_day_def)
  then show ?thesis
    using assms
    by (simp add: time_Parse_def time_Format_def layout_date_def wf_civil_def parse_year_pad
        getnum_pad getnum_pad_end in_range_def valid_day_def civil_zero_def)
qed

end
