(* ===== verification/IAM_Policy.thy ===== *)
theory IAM_Policy
  imports Go_JSON Go_Float Go_Time "HOL-Library.Multiset"
begin

text \<open>
  Package \<^verbatim>\<open>iam\<close> (\<^verbatim>\<open>iam/policy.go\<close>): the compiled policy, the
  parser that builds it from a JSON text and the decision on a request.
  An error is its category; the messages, which can depend on the iteration order of a
  Go map, are left out. A compiled pattern is the sequence of atoms of its anchored
  regular expression.
\<close>

section \<open>Data\<close>

datatype iam_error = ErrInvalidPolicy | ErrExplicitDeny | ErrImplicitDeny

type_synonym iam_context = "string \<rightharpoonup> string list"

record iam_request =
  Action :: string
  Resource :: string
  Context :: iam_context

datatype ConditionValueType =
    ConditionValueAny
  | ConditionValueString
  | ConditionValueBool
  | ConditionValueNumeric
  | ConditionValueDate

record iam_options =
  AllowedConditionKeys :: "(string \<times> bool) list"
  ConditionKeyTypes :: "(string \<times> ConditionValueType) list"

datatype effect = effectAllow | effectDeny

datatype matchMode = matchPositive | matchNegative

datatype conditionFamily =
    conditionStringEquals
  | conditionStringLike
  | conditionBool
  | conditionNull
  | conditionNumericEquals
  | conditionNumericLessThan
  | conditionNumericLessThanEquals
  | conditionNumericGreaterThan
  | conditionNumericGreaterThanEquals
  | conditionDateEquals
  | conditionDateLessThan
  | conditionDateLessThanEquals
  | conditionDateGreaterThan
  | conditionDateGreaterThanEquals

record conditionOperator =
  op_name :: string
  op_family :: conditionFamily
  op_negative :: bool

text \<open>A literal rune, \<^verbatim>\<open>.\<close> and \<^verbatim>\<open>.*\<close>; the dot matches every rune but the newline.\<close>

datatype re_atom = Lit rune | Dot | DotStar

record wildcard =
  wc_raw :: string
  wc_re :: "re_atom list"

record condition =
  cond_operator :: conditionOperator
  cond_key :: string
  cond_values :: "string list"
  cond_patterns :: "wildcard list"

record policy_statement =
  stmt_sid :: string
  stmt_effect :: effect
  stmt_actionMode :: matchMode
  stmt_actions :: "wildcard list"
  stmt_resourceMode :: matchMode
  stmt_resources :: "wildcard list"
  stmt_conditions :: "condition list"

record Policy =
  statements :: "policy_statement list"

definition DenyAllPolicy :: Policy where
  "DenyAllPolicy = \<lparr>statements = []\<rparr>"

section \<open>Patterns\<close>

definition wildcardToRegex :: "string \<Rightarrow> re_atom list" where
  "wildcardToRegex pattern =
     map (\<lambda>r. if r = 42 then DotStar else if r = 63 then Dot else Lit r) (rune_list pattern)"

definition compileWildcard :: "string \<Rightarrow> wildcard" where
  "compileWildcard v = \<lparr>wc_raw = v, wc_re = wildcardToRegex v\<rparr>"

definition compileWildcards :: "string list \<Rightarrow> bool \<Rightarrow> wildcard list" where
  "compileWildcards vs action =
     map (\<lambda>v. compileWildcard (if action then ToLower v else v)) vs"

text \<open>The regular expression of a pattern against a whole value.\<close>

fun re_match :: "re_atom list \<Rightarrow> rune list \<Rightarrow> bool" where
  "re_match [] s = (s = [])"
| "re_match (Lit r # p) s = (case s of x # xs \<Rightarrow> x = r \<and> re_match p xs | [] \<Rightarrow> False)"
| "re_match (Dot # p) s = (case s of x # xs \<Rightarrow> x \<noteq> 10 \<and> re_match p xs | [] \<Rightarrow> False)"
| "re_match (DotStar # p) s =
     (re_match p s \<or> (case s of x # xs \<Rightarrow> x \<noteq> 10 \<and> re_match (DotStar # p) xs | [] \<Rightarrow> False))"

definition wildcard_matches :: "wildcard \<Rightarrow> string \<Rightarrow> bool \<Rightarrow> bool" where
  "wildcard_matches w v action = re_match (wc_re w) (rune_list (if action then ToLower v else v))"

section \<open>Evaluating conditions\<close>

definition canonicalConditionKey :: "string \<Rightarrow> string" where
  "canonicalConditionKey k = ToLower k"

definition context_values :: "iam_context \<Rightarrow> string \<Rightarrow> string list option" where
  "context_values ctx k = ctx (canonicalConditionKey k)"

definition parseNumbers :: "string \<Rightarrow> string \<Rightarrow> (rat \<times> rat) option" where
  "parseNumbers actual expected =
     (case ParseFloat actual of
        None \<Rightarrow> None
      | Some a \<Rightarrow> (case ParseFloat expected of None \<Rightarrow> None | Some e \<Rightarrow> Some (a, e)))"

definition parseIAMTime :: "string \<Rightarrow> instant option" where
  "parseIAMTime v =
     (case Atoi v of
        Some unix \<Rightarrow> Some (time_Unix unix)
      | None \<Rightarrow>
          (case time_Parse layout_rfc3339 v of
             Some (t, z) \<Rightarrow> Some (instant_of t z)
           | None \<Rightarrow> map_option (\<lambda>(t, z). instant_of t z) (time_Parse layout_utc v)))"

definition parseTimes :: "string \<Rightarrow> string \<Rightarrow> (instant \<times> instant) option" where
  "parseTimes actual expected =
     (case parseIAMTime actual of
        None \<Rightarrow> None
      | Some a \<Rightarrow> (case parseIAMTime expected of None \<Rightarrow> None | Some e \<Rightarrow> Some (a, e)))"

definition holds :: "('a \<times> 'a) option \<Rightarrow> ('a \<Rightarrow> 'a \<Rightarrow> bool) \<Rightarrow> bool" where
  "holds r P = (case r of None \<Rightarrow> False | Some (a, e) \<Rightarrow> P a e)"

definition parsesTrue :: "string \<Rightarrow> bool" where
  "parsesTrue v = (ParseBool (ToLower v) = Some True)"

definition boolsEqual :: "string \<Rightarrow> string \<Rightarrow> bool" where
  "boolsEqual actual expected =
     (case (ParseBool (ToLower actual), ParseBool (ToLower expected)) of
        (Some a, Some e) \<Rightarrow> a = e
      | _ \<Rightarrow> False)"

fun valueMatches :: "conditionFamily \<Rightarrow> string \<Rightarrow> string \<Rightarrow> bool" where
  "valueMatches conditionStringEquals actual expected = (actual = expected)"
| "valueMatches conditionStringLike actual expected = False"
| "valueMatches conditionBool actual expected = boolsEqual actual expected"
| "valueMatches conditionNull actual expected = False"
| "valueMatches conditionNumericEquals actual expected =
     holds (parseNumbers actual expected) (=)"
| "valueMatches conditionNumericLessThan actual expected =
     holds (parseNumbers actual expected) (<)"
| "valueMatches conditionNumericLessThanEquals actual expected =
     holds (parseNumbers actual expected) (\<le>)"
| "valueMatches conditionNumericGreaterThan actual expected =
     holds (parseNumbers actual expected) (>)"
| "valueMatches conditionNumericGreaterThanEquals actual expected =
     holds (parseNumbers actual expected) (\<ge>)"
| "valueMatches conditionDateEquals actual expected = holds (parseTimes actual expected) (=)"
| "valueMatches conditionDateLessThan actual expected =
     holds (parseTimes actual expected) Before"
| "valueMatches conditionDateLessThanEquals actual expected =
     holds (parseTimes actual expected) (\<lambda>a e. Before a e \<or> a = e)"
| "valueMatches conditionDateGreaterThan actual expected =
     holds (parseTimes actual expected) After"
| "valueMatches conditionDateGreaterThanEquals actual expected =
     holds (parseTimes actual expected) (\<lambda>a e. After a e \<or> a = e)"

definition valueMatchesAny :: "condition \<Rightarrow> string \<Rightarrow> bool" where
  "valueMatchesAny c actual =
     (if op_family (cond_operator c) = conditionStringLike
      then list_ex (\<lambda>p. wildcard_matches p actual False) (cond_patterns c)
      else list_ex (valueMatches (op_family (cond_operator c)) actual) (cond_values c))"

definition condition_matches :: "condition \<Rightarrow> iam_context \<Rightarrow> bool" where
  "condition_matches c ctx =
     (let isNull = (case context_values ctx (cond_key c) of None \<Rightarrow> True | Some vs \<Rightarrow> vs = []);
          vs = (case context_values ctx (cond_key c) of None \<Rightarrow> [] | Some vs \<Rightarrow> vs)
      in if op_family (cond_operator c) = conditionNull then
           isNull = list_ex parsesTrue (cond_values c)
         else if isNull then op_negative (cond_operator c)
         else if op_negative (cond_operator c) then \<not> list_ex (valueMatchesAny c) vs
         else list_ex (valueMatchesAny c) vs)"

section \<open>Evaluating policies\<close>

definition matchesByMode :: "matchMode \<Rightarrow> wildcard list \<Rightarrow> string \<Rightarrow> bool \<Rightarrow> bool" where
  "matchesByMode mode patterns v action =
     (let matched = list_ex (\<lambda>p. wildcard_matches p v action) patterns
      in if mode = matchNegative then \<not> matched else matched)"

definition statement_matches :: "policy_statement \<Rightarrow> iam_request \<Rightarrow> bool" where
  "statement_matches s req =
     (if \<not> matchesByMode (stmt_actionMode s) (stmt_actions s) (Action req) True then False
      else if \<not> matchesByMode (stmt_resourceMode s) (stmt_resources s) (Resource req) False then False
      else list_all (\<lambda>c. condition_matches c (Context req)) (stmt_conditions s))"

fun authorize_loop :: "policy_statement list \<Rightarrow> iam_request \<Rightarrow> bool \<Rightarrow> iam_error + unit" where
  "authorize_loop [] req allowed = (if \<not> allowed then Inl ErrImplicitDeny else Inr ())"
| "authorize_loop (s # ss) req allowed =
     (if \<not> statement_matches s req then authorize_loop ss req allowed
      else if stmt_effect s = effectDeny then Inl ErrExplicitDeny
      else authorize_loop ss req True)"

text \<open>A missing policy (\<^verbatim>\<open>nil\<close>) denies everything.\<close>

definition Authorize :: "Policy option \<Rightarrow> iam_request \<Rightarrow> iam_error + unit" where
  "Authorize p req =
     (case p of None \<Rightarrow> Inl ErrImplicitDeny | Some pol \<Rightarrow> authorize_loop (statements pol) req False)"

section \<open>Parsing policies\<close>

definition no_variable :: "string \<Rightarrow> bool" where
  "no_variable v = (\<not> Contains v ''${'')"

definition parseStringList :: "json \<Rightarrow> iam_error + string list" where
  "parseStringList raw =
     (case json_to_string raw of
        Some single \<Rightarrow>
          if \<not> no_variable single then Inl ErrInvalidPolicy
          else if single = [] then Inl ErrInvalidPolicy
          else Inr [single]
      | None \<Rightarrow>
          (case json_to_strings raw of
             None \<Rightarrow> Inl ErrInvalidPolicy
           | Some many \<Rightarrow>
               if many = [] then Inl ErrInvalidPolicy
               else if list_all (\<lambda>v. no_variable v \<and> v \<noteq> []) many then Inr many
               else Inl ErrInvalidPolicy))"

fun conditionValueToString :: "json \<Rightarrow> iam_error + string" where
  "conditionValueToString (JString v) = (if \<not> no_variable v then Inl ErrInvalidPolicy else Inr v)"
| "conditionValueToString (JBool b) = Inr (FormatBool b)"
| "conditionValueToString (JNumber n) = Inr n"
| "conditionValueToString _ = Inl ErrInvalidPolicy"

fun parseConditionValues :: "json \<Rightarrow> iam_error + string list" where
  "parseConditionValues (JArray vs) =
     (if vs = [] then Inl ErrInvalidPolicy else mapE conditionValueToString vs)"
| "parseConditionValues v = bindE (conditionValueToString v) (\<lambda>s. Inr [s])"

definition operator_table :: "(string \<times> conditionFamily \<times> bool) list" where
  "operator_table =
     [(''StringEquals'', conditionStringEquals, False),
      (''StringNotEquals'', conditionStringEquals, True),
      (''StringLike'', conditionStringLike, False),
      (''StringNotLike'', conditionStringLike, True),
      (''Bool'', conditionBool, False),
      (''Null'', conditionNull, False),
      (''NumericEquals'', conditionNumericEquals, False),
      (''NumericNotEquals'', conditionNumericEquals, True),
      (''NumericLessThan'', conditionNumericLessThan, False),
      (''NumericLessThanEquals'', conditionNumericLessThanEquals, False),
      (''NumericGreaterThan'', conditionNumericGreaterThan, False),
      (''NumericGreaterThanEquals'', conditionNumericGreaterThanEquals, False),
      (''DateEquals'', conditionDateEquals, False),
      (''DateNotEquals'', conditionDateEquals, True),
      (''DateLessThan'', conditionDateLessThan, False),
      (''DateLessThanEquals'', conditionDateLessThanEquals, False),
      (''DateGreaterThan'', conditionDateGreaterThan, False),
      (''DateGreaterThanEquals'', conditionDateGreaterThanEquals, False)]"

definition parseConditionOperator :: "string \<Rightarrow> iam_error + conditionOperator" where
  "parseConditionOperator name =
     (case map_of operator_table name of
        None \<Rightarrow> Inl ErrInvalidPolicy
      | Some (f, neg) \<Rightarrow> Inr \<lparr>op_name = name, op_family = f, op_negative = neg\<rparr>)"

definition numeric_family :: "conditionFamily \<Rightarrow> bool" where
  "numeric_family f =
     (f \<in> set [conditionNumericEquals, conditionNumericLessThan, conditionNumericLessThanEquals,
               conditionNumericGreaterThan, conditionNumericGreaterThanEquals])"

definition date_family :: "conditionFamily \<Rightarrow> bool" where
  "date_family f =
     (f \<in> set [conditionDateEquals, conditionDateLessThan, conditionDateLessThanEquals,
               conditionDateGreaterThan, conditionDateGreaterThanEquals])"

definition operatorMatchesKeyType :: "conditionFamily \<Rightarrow> ConditionValueType \<Rightarrow> bool" where
  "operatorMatchesKeyType f keyType =
     (if f = conditionStringEquals \<or> f = conditionStringLike then keyType = ConditionValueString
      else if f = conditionBool then keyType = ConditionValueBool
      else if numeric_family f then keyType = ConditionValueNumeric
      else if date_family f then keyType = ConditionValueDate
      else False)"

definition valid_operand :: "conditionFamily \<Rightarrow> string \<Rightarrow> bool" where
  "valid_operand f v =
     (if f = conditionBool \<or> f = conditionNull then v = ''true'' \<or> v = ''false''
      else if numeric_family f then ParseFloat v \<noteq> None
      else if date_family f then parseIAMTime v \<noteq> None
      else True)"

definition validateConditionOperands ::
  "conditionOperator \<Rightarrow> ConditionValueType \<Rightarrow> string list \<Rightarrow> iam_error + unit" where
  "validateConditionOperands operator keyType vs =
     (if op_family operator \<noteq> conditionNull \<and> keyType \<noteq> ConditionValueAny
         \<and> \<not> operatorMatchesKeyType (op_family operator) keyType
      then Inl ErrInvalidPolicy
      else guardE (list_all (valid_operand (op_family operator)) vs) ErrInvalidPolicy)"

definition compileConditionPatterns :: "conditionOperator \<Rightarrow> string list \<Rightarrow> wildcard list" where
  "compileConditionPatterns operator vs =
     (if op_family operator \<noteq> conditionStringLike then [] else compileWildcards vs False)"

definition parseCondition ::
  "(string \<Rightarrow> bool) \<Rightarrow> (string \<rightharpoonup> ConditionValueType) \<Rightarrow> conditionOperator \<Rightarrow> string \<times> json
     \<Rightarrow> iam_error + condition" where
  "parseCondition allowed types operator kv =
     (let canonicalKey = canonicalConditionKey (fst kv);
          keyType = (case types canonicalKey of None \<Rightarrow> ConditionValueAny | Some t \<Rightarrow> t)
      in bindE (guardE (allowed canonicalKey) ErrInvalidPolicy) (\<lambda>_.
         bindE (parseConditionValues (snd kv)) (\<lambda>vs.
         bindE (validateConditionOperands operator keyType vs) (\<lambda>_.
         Inr \<lparr>cond_operator = operator, cond_key = canonicalKey, cond_values = vs,
              cond_patterns = compileConditionPatterns operator vs\<rparr>))))"

text \<open>One operator of a \<^verbatim>\<open>Condition\<close> element with its keys; \<^verbatim>\<open>null\<close> has no keys.\<close>

definition parseOperatorConditions ::
  "(string \<Rightarrow> bool) \<Rightarrow> (string \<rightharpoonup> ConditionValueType) \<Rightarrow> string \<times> json
     \<Rightarrow> iam_error + condition list" where
  "parseOperatorConditions allowed types ov =
     bindE (of_option ErrInvalidPolicy (json_to_map (snd ov))) (\<lambda>byKey.
     bindE (parseConditionOperator (fst ov)) (\<lambda>operator.
     bindE (guardE (byKey \<noteq> None \<and> byKey \<noteq> Some []) ErrInvalidPolicy) (\<lambda>_.
     mapE (parseCondition allowed types operator) (case byKey of None \<Rightarrow> [] | Some kvs \<Rightarrow> kvs))))"

definition parseConditions ::
  "json \<Rightarrow> (string \<Rightarrow> bool) \<Rightarrow> (string \<rightharpoonup> ConditionValueType) \<Rightarrow> iam_error + condition list" where
  "parseConditions raw allowed types =
     bindE (of_option ErrInvalidPolicy (json_to_map raw)) (\<lambda>byOperator.
     bindE (guardE (byOperator \<noteq> None \<and> byOperator \<noteq> Some []) ErrInvalidPolicy) (\<lambda>_.
     bindE (mapE (parseOperatorConditions allowed types)
              (case byOperator of None \<Rightarrow> [] | Some ovs \<Rightarrow> ovs)) (\<lambda>css.
     Inr (concat css))))"

definition statement_elements :: "string list" where
  "statement_elements =
     [''Sid'', ''Effect'', ''Action'', ''NotAction'', ''Resource'', ''NotResource'', ''Condition'']"

definition parseEffect :: "json option \<Rightarrow> iam_error + effect" where
  "parseEffect raw =
     bindE (of_option ErrInvalidPolicy raw) (\<lambda>v.
     bindE (of_option ErrInvalidPolicy (json_to_string v)) (\<lambda>s.
     if s = ''Allow'' then Inr effectAllow
     else if s = ''Deny'' then Inr effectDeny
     else Inl ErrInvalidPolicy))"

text \<open>
  The list of an element and its negated form (\<^verbatim>\<open>Action\<close> and \<^verbatim>\<open>NotAction\<close>, or
  \<^verbatim>\<open>Resource\<close> and \<^verbatim>\<open>NotResource\<close>): exactly one of the two, which also gives the mode.
\<close>

definition parseModeList ::
  "json option \<Rightarrow> json option \<Rightarrow> bool \<Rightarrow> iam_error + (matchMode \<times> wildcard list)" where
  "parseModeList pos neg action =
     (if (pos \<noteq> None) = (neg \<noteq> None) then Inl ErrInvalidPolicy
      else bindE (of_option ErrInvalidPolicy (if pos \<noteq> None then pos else neg)) (\<lambda>raw.
           bindE (parseStringList raw) (\<lambda>vs.
           Inr (if neg \<noteq> None then matchNegative else matchPositive, compileWildcards vs action))))"

definition compileStatement ::
  "(string \<times> json) list option \<Rightarrow> (string \<Rightarrow> bool) \<Rightarrow> (string \<rightharpoonup> ConditionValueType)
     \<Rightarrow> iam_error + policy_statement" where
  "compileStatement raw allowed types =
     bindE (of_option ErrInvalidPolicy raw) (\<lambda>elems.
     bindE (guardE (list_all (\<lambda>k. k \<in> set statement_elements) (keys elems)) ErrInvalidPolicy) (\<lambda>_.
     bindE (case map_of elems ''Sid'' of
              None \<Rightarrow> Inr []
            | Some v \<Rightarrow> of_option ErrInvalidPolicy (json_to_string v)) (\<lambda>sid.
     bindE (parseEffect (map_of elems ''Effect'')) (\<lambda>eff.
     bindE (parseModeList (map_of elems ''Action'') (map_of elems ''NotAction'') True) (\<lambda>acts.
     bindE (parseModeList (map_of elems ''Resource'') (map_of elems ''NotResource'') False) (\<lambda>ress.
     bindE (case map_of elems ''Condition'' of
              None \<Rightarrow> Inr []
            | Some v \<Rightarrow> parseConditions v allowed types) (\<lambda>conds.
     Inr \<lparr>stmt_sid = sid, stmt_effect = eff,
          stmt_actionMode = fst acts, stmt_actions = snd acts,
          stmt_resourceMode = fst ress, stmt_resources = snd ress,
          stmt_conditions = conds\<rparr>)))))))"

text \<open>A single statement object, or an array of objects; \<^verbatim>\<open>null\<close> is the empty array.\<close>

fun parseStatementList :: "json \<Rightarrow> iam_error + (string \<times> json) list option list" where
  "parseStatementList (JObject kvs) = Inr [Some (json_entries kvs)]"
| "parseStatementList (JArray vs) = mapE (\<lambda>v. of_option ErrInvalidPolicy (json_to_map v)) vs"
| "parseStatementList JNull = Inr []"
| "parseStatementList _ = Inl ErrInvalidPolicy"

definition canonicalConditionKeySet :: "(string \<times> bool) list \<Rightarrow> string \<Rightarrow> bool" where
  "canonicalConditionKeySet ks k = list_ex (\<lambda>(key, ok). ok \<and> canonicalConditionKey key = k) ks"

definition canonicalConditionKeyTypes ::
  "(string \<times> ConditionValueType) list \<Rightarrow> (string \<rightharpoonup> ConditionValueType)" where
  "canonicalConditionKeyTypes ts =
     map_of (rev (map (\<lambda>(k, t). (canonicalConditionKey k, t)) ts))"

definition validVersion :: "json option \<Rightarrow> bool" where
  "validVersion raw =
     (case raw of
        None \<Rightarrow> True
      | Some v \<Rightarrow> json_to_string v = Some ''2012-10-17'' \<or> json_to_string v = Some ''2008-10-17'')"

definition ParsePolicyJSON :: "string \<Rightarrow> iam_options \<Rightarrow> iam_error + Policy" where
  "ParsePolicyJSON policyJSON opts =
     bindE (guardE (TrimSpace policyJSON \<noteq> []) ErrInvalidPolicy) (\<lambda>_.
     bindE (guardE (ValidString policyJSON) ErrInvalidPolicy) (\<lambda>_.
     bindE (of_option ErrInvalidPolicy (json_decode policyJSON)) (\<lambda>doc.
     bindE (of_option ErrInvalidPolicy (json_to_map doc)) (\<lambda>raw0.
     bindE (of_option ErrInvalidPolicy raw0) (\<lambda>raw.
     bindE (guardE (list_all (\<lambda>k. k = ''Version'' \<or> k = ''Statement'') (keys raw)) ErrInvalidPolicy) (\<lambda>_.
     bindE (guardE (validVersion (map_of raw ''Version'')) ErrInvalidPolicy) (\<lambda>_.
     bindE (of_option ErrInvalidPolicy (map_of raw ''Statement'')) (\<lambda>statementRaw.
     bindE (parseStatementList statementRaw) (\<lambda>rawStatements.
     bindE (guardE (rawStatements \<noteq> []) ErrInvalidPolicy) (\<lambda>_.
     bindE (mapE (\<lambda>r. compileStatement r (canonicalConditionKeySet (AllowedConditionKeys opts))
                        (canonicalConditionKeyTypes (ConditionKeyTypes opts))) rawStatements) (\<lambda>ss.
     Inr \<lparr>statements = ss\<rparr>)))))))))))"

section \<open>The language of a pattern\<close>

text \<open>The runs of runes that an atom of a pattern stands for.\<close>

fun atom_lang :: "re_atom \<Rightarrow> rune list set" where
  "atom_lang (Lit r) = {[r]}"
| "atom_lang Dot = {[x] | x. x \<noteq> 10}"
| "atom_lang DotStar = {w. 10 \<notin> set w}"

lemma re_match_star_skip: "10 \<notin> set w \<Longrightarrow> re_match p s \<Longrightarrow> re_match (DotStar # p) (w @ s)"
  by (induction w) auto

lemma re_match_star_split:
  "re_match (DotStar # p) s \<longleftrightarrow> (\<exists>w t. s = w @ t \<and> 10 \<notin> set w \<and> re_match p t)"
proof
  show "re_match (DotStar # p) s \<Longrightarrow> \<exists>w t. s = w @ t \<and> 10 \<notin> set w \<and> re_match p t"
  proof (induction s)
    case (Cons x s)
    show ?case
    proof (cases "re_match p (x # s)")
      case True
      then show ?thesis by (intro exI [of _ "[]"] exI [of _ "x # s"]) simp
    next
      case False
      with Cons obtain w t where "s = w @ t \<and> 10 \<notin> set w \<and> re_match p t \<and> x \<noteq> 10" by auto
      then show ?thesis by (intro exI [of _ "x # w"] exI [of _ t]) simp
    qed
  qed auto
qed (auto simp del: re_match.simps intro: re_match_star_skip)

lemma re_match_Cons:
  "re_match (a # p) s \<longleftrightarrow> (\<exists>w t. s = w @ t \<and> w \<in> atom_lang a \<and> re_match p t)"
proof (cases a)
  case (Lit r)
  then show ?thesis by (auto split: list.splits)
next
  case Dot
  have "(\<exists>w t. s = w @ t \<and> w \<in> atom_lang Dot \<and> re_match p t)
        \<longleftrightarrow> (\<exists>x t. s = x # t \<and> x \<noteq> 10 \<and> re_match p t)"
    by (simp, metis append_Cons append_Nil)
  with Dot show ?thesis by (auto split: list.splits)
next
  case DotStar
  then show ?thesis by (simp add: re_match_star_split del: re_match.simps)
qed

text \<open>
  A pattern matches exactly the values that can be cut into one piece per atom, each piece
  of its atom's language.
\<close>

lemma re_match_iff:
  "re_match p s \<longleftrightarrow> (\<exists>ws. s = concat ws \<and> list_all2 (\<lambda>a w. w \<in> atom_lang a) p ws)"
proof (induction p arbitrary: s)
  case (Cons a p)
  show ?case
  proof
    assume "re_match (a # p) s"
    then obtain w t where "s = w @ t" "w \<in> atom_lang a" "re_match p t"
      by (auto simp: re_match_Cons simp del: re_match.simps)
    moreover from this Cons.IH obtain ws where "t = concat ws" "list_all2 (\<lambda>a w. w \<in> atom_lang a) p ws"
      by blast
    ultimately show "\<exists>ws. s = concat ws \<and> list_all2 (\<lambda>a w. w \<in> atom_lang a) (a # p) ws"
      by (intro exI [of _ "w # ws"]) simp
  next
    assume "\<exists>ws. s = concat ws \<and> list_all2 (\<lambda>a w. w \<in> atom_lang a) (a # p) ws"
    then obtain w ws where "s = w @ concat ws" "w \<in> atom_lang a"
        "list_all2 (\<lambda>a w. w \<in> atom_lang a) p ws"
      by (auto simp: list_all2_Cons1)
    with Cons.IH show "re_match (a # p) s" unfolding re_match_Cons by blast
  qed
qed auto

lemma re_match_literal: "re_match (map Lit rs) s \<longleftrightarrow> s = rs"
  by (induction rs arbitrary: s) (auto split: list.splits)

lemma wildcardToRegex_plain:
  "42 \<notin> set (rune_list v) \<Longrightarrow> 63 \<notin> set (rune_list v) \<Longrightarrow> wildcardToRegex v = map Lit (rune_list v)"
  by (auto simp: wildcardToRegex_def)

section \<open>The decision\<close>

text \<open>
  Statement order and the order of a statement's conditions, which follows Go's map
  iteration, are both irrelevant.
\<close>

definition matching :: "Policy \<Rightarrow> iam_request \<Rightarrow> policy_statement set" where
  "matching p req = {s \<in> set (statements p). statement_matches s req}"

lemma authorize_loop_eq:
  "authorize_loop ss req allowed =
     (if \<exists>s \<in> set ss. statement_matches s req \<and> stmt_effect s = effectDeny then Inl ErrExplicitDeny
      else if allowed \<or> (\<exists>s \<in> set ss. statement_matches s req) then Inr ()
      else Inl ErrImplicitDeny)"
  by (induction ss arbitrary: allowed) auto

lemma Authorize_eq:
  "Authorize (Some p) req =
     (if \<exists>s \<in> matching p req. stmt_effect s = effectDeny then Inl ErrExplicitDeny
      else if matching p req \<noteq> {} then Inr ()
      else Inl ErrImplicitDeny)"
  by (auto simp: Authorize_def authorize_loop_eq matching_def)

definition same_statement :: "policy_statement \<Rightarrow> policy_statement \<Rightarrow> bool" where
  "same_statement s t =
     (set (stmt_conditions s) = set (stmt_conditions t)
      \<and> s\<lparr>stmt_conditions := []\<rparr> = t\<lparr>stmt_conditions := []\<rparr>)"

lemma same_statement_fields:
  assumes "same_statement s t"
  shows "stmt_effect s = stmt_effect t" "stmt_actionMode s = stmt_actionMode t"
    "stmt_actions s = stmt_actions t" "stmt_resourceMode s = stmt_resourceMode t"
    "stmt_resources s = stmt_resources t" "set (stmt_conditions s) = set (stmt_conditions t)"
  using assms unfolding same_statement_def by (cases s; cases t; simp)+

lemma statement_matches_cong:
  "same_statement s t \<Longrightarrow> statement_matches s req = statement_matches t req"
  by (simp add: statement_matches_def same_statement_fields list_all_iff)

section \<open>Well-formed policies\<close>

text \<open>What the parser guarantees of every condition, statement and policy it accepts.\<close>

definition wf_condition :: "iam_options \<Rightarrow> condition \<Rightarrow> bool" where
  "wf_condition opts c =
     (let f = op_family (cond_operator c);
          t = canonicalConditionKeyTypes (ConditionKeyTypes opts) (cond_key c)
      in canonicalConditionKeySet (AllowedConditionKeys opts) (cond_key c)
         \<and> (f = conditionNull \<or> t = None \<or> t = Some ConditionValueAny
            \<or> (\<exists>ty. t = Some ty \<and> operatorMatchesKeyType f ty))
         \<and> cond_values c \<noteq> []
         \<and> list_all (valid_operand f) (cond_values c)
         \<and> cond_patterns c = (if f = conditionStringLike then compileWildcards (cond_values c) False else [])
         \<and> map_of operator_table (op_name (cond_operator c)) = Some (f, op_negative (cond_operator c)))"

definition wf_statement :: "iam_options \<Rightarrow> policy_statement \<Rightarrow> bool" where
  "wf_statement opts s =
     (stmt_actions s \<noteq> [] \<and> stmt_resources s \<noteq> []
      \<and> list_all (\<lambda>w. w = compileWildcard (wc_raw w) \<and> wc_raw w \<noteq> []) (stmt_resources s)
      \<and> list_all (\<lambda>w. w = compileWildcard (wc_raw w)) (stmt_actions s)
      \<and> list_all (wf_condition opts) (stmt_conditions s))"

definition wf_policy :: "iam_options \<Rightarrow> Policy \<Rightarrow> bool" where
  "wf_policy opts p = (statements p \<noteq> [] \<and> list_all (wf_statement opts) (statements p))"

lemma parseStringList_Inr:
  "parseStringList raw = Inr vs \<Longrightarrow> vs \<noteq> [] \<and> (\<forall>v \<in> set vs. v \<noteq> [] \<and> no_variable v)"
  by (auto simp: parseStringList_def list_all_iff split: option.splits if_splits)

lemma parseConditionValues_Inr: "parseConditionValues raw = Inr vs \<Longrightarrow> vs \<noteq> []"
  by (cases raw) (auto simp: bindE_eq_Inr mapE_eq_Inr split: if_splits)

lemma parseConditionOperator_Inr:
  "parseConditionOperator name = Inr operator \<Longrightarrow>
   map_of operator_table (op_name operator) = Some (op_family operator, op_negative operator)"
  by (auto simp: parseConditionOperator_def split: option.splits)

lemma validateConditionOperands_Inr:
  "validateConditionOperands operator t vs = Inr u \<longleftrightarrow>
     (op_family operator = conditionNull \<or> t = ConditionValueAny
      \<or> operatorMatchesKeyType (op_family operator) t)
     \<and> list_all (valid_operand (op_family operator)) vs"
  by (auto simp: validateConditionOperands_def guardE_def)

lemma parseCondition_Inr:
  assumes "parseCondition (canonicalConditionKeySet (AllowedConditionKeys opts))
             (canonicalConditionKeyTypes (ConditionKeyTypes opts)) operator kv = Inr c"
    and "parseConditionOperator name = Inr operator"
  shows "wf_condition opts c"
  using assms parseConditionOperator_Inr [OF assms(2)]
  by (auto simp: parseCondition_def Let_def res_simps validateConditionOperands_Inr wf_condition_def
      compileConditionPatterns_def parseConditionValues_Inr split: option.splits)

lemma parseConditions_Inr:
  assumes "parseConditions raw (canonicalConditionKeySet (AllowedConditionKeys opts))
             (canonicalConditionKeyTypes (ConditionKeyTypes opts)) = Inr cs"
  shows "list_all (wf_condition opts) cs"
proof -
  have one: "wf_condition opts c"
    if "parseOperatorConditions (canonicalConditionKeySet (AllowedConditionKeys opts))
          (canonicalConditionKeyTypes (ConditionKeyTypes opts)) ov = Inr ds" and "c \<in> set ds"
    for ov ds c
    using that
    by (auto simp: parseOperatorConditions_def res_simps dest!: mapE_Inr_setD
        intro: parseCondition_Inr)
  obtain ovs css where "mapE (parseOperatorConditions
        (canonicalConditionKeySet (AllowedConditionKeys opts))
        (canonicalConditionKeyTypes (ConditionKeyTypes opts))) ovs = Inr css" and "cs = concat css"
    using assms by (auto simp: parseConditions_def res_simps)
  then show ?thesis
    by (auto simp: list_all_iff dest!: mapE_Inr_setD intro: one)
qed

lemma parseModeList_Inr:
  assumes "parseModeList pos neg action = Inr (m, ws)"
  shows "\<exists>vs. ws = compileWildcards vs action \<and> vs \<noteq> [] \<and> (\<forall>v \<in> set vs. v \<noteq> [])"
  using assms by (auto simp: parseModeList_def res_simps split: if_splits dest: parseStringList_Inr)

lemma compileStatement_Inr:
  assumes "compileStatement raw (canonicalConditionKeySet (AllowedConditionKeys opts))
             (canonicalConditionKeyTypes (ConditionKeyTypes opts)) = Inr s"
  shows "wf_statement opts s"
proof -
  obtain sid eff am acts rm ress conds el where s:
      "s = \<lparr>stmt_sid = sid, stmt_effect = eff, stmt_actionMode = am, stmt_actions = acts,
            stmt_resourceMode = rm, stmt_resources = ress, stmt_conditions = conds\<rparr>"
    and a: "parseModeList (map_of el ''Action'') (map_of el ''NotAction'') True = Inr (am, acts)"
    and r: "parseModeList (map_of el ''Resource'') (map_of el ''NotResource'') False = Inr (rm, ress)"
    and c: "(case map_of el ''Condition'' of None \<Rightarrow> Inr []
             | Some v \<Rightarrow> parseConditions v (canonicalConditionKeySet (AllowedConditionKeys opts))
                          (canonicalConditionKeyTypes (ConditionKeyTypes opts))) = Inr conds"
    using assms by (auto simp: compileStatement_def res_simps)
  have "list_all (wf_condition opts) conds"
    using c by (auto split: option.splits intro: parseConditions_Inr)
  moreover obtain va where "acts = compileWildcards va True" "va \<noteq> []"
    using parseModeList_Inr [OF a] by blast
  moreover obtain vr where "ress = compileWildcards vr False" "vr \<noteq> []" "\<forall>v \<in> set vr. v \<noteq> []"
    using parseModeList_Inr [OF r] by blast
  ultimately show ?thesis
    by (auto simp: s wf_statement_def compileWildcards_def compileWildcard_def list_all_iff)
qed

lemma matching_rel:
  assumes "rel_set same_statement (set (statements p)) (set (statements q))"
  shows "rel_set same_statement (matching p req) (matching q req)"
  using assms statement_matches_cong by (fastforce simp: rel_set_def matching_def)

lemma rel_set_empty_iff: "rel_set R A B \<Longrightarrow> A = {} \<longleftrightarrow> B = {}"
  by (auto simp: rel_set_def)

lemma rel_set_ex_deny:
  "rel_set same_statement A B \<Longrightarrow>
   (\<exists>s \<in> A. stmt_effect s = effectDeny) \<longleftrightarrow> (\<exists>s \<in> B. stmt_effect s = effectDeny)"
  by (auto simp: rel_set_def) (metis same_statement_fields(1))+

section \<open>Properties\<close>

text \<open>
  C30. Deny overrides. A policy denies explicitly exactly when a matching statement denies,
  allows exactly when some statement matches and none of the matching ones denies, and
  otherwise, or when there is no policy, denies implicitly; the first match does not decide.
\<close>

theorem Authorize_deny_overrides:
  "Authorize p req =
     (case p of
        None \<Rightarrow> Inl ErrImplicitDeny
      | Some pol \<Rightarrow>
          (let ms = {s \<in> set (statements pol). statement_matches s req}
           in if effectDeny \<in> stmt_effect ` ms then Inl ErrExplicitDeny
              else if ms = {} then Inl ErrImplicitDeny
              else Inr ()))"
  by (cases p) (auto simp: Authorize_def authorize_loop_eq Let_def image_iff)

text \<open>
  C31. The decision depends on neither the order nor the repetition of statements, nor on the
  order of the conditions within a statement (which the parser takes from the iteration of a
  Go map): policies whose statements agree up to the order of their conditions decide alike.
\<close>

theorem Authorize_order_irrelevant:
  assumes "rel_set same_statement (set (statements p)) (set (statements q))"
  shows "Authorize (Some p) req = Authorize (Some q) req"
  using rel_set_empty_iff [OF matching_rel [OF assms]] rel_set_ex_deny [OF matching_rel [OF assms]]
  by (simp add: Authorize_eq)

text \<open>
  C32. The compiled pattern matches a value exactly when the value can be cut into one piece per
  rune of the pattern: any run of runes without a newline for \<^verbatim>\<open>*\<close>, one rune that is not a
  newline for \<^verbatim>\<open>?\<close>, and the rune itself otherwise.
\<close>

theorem wildcard_language:
  "wildcard_matches (compileWildcard pat) v False \<longleftrightarrow>
     (\<exists>ws. rune_list v = concat ws
         \<and> list_all2 (\<lambda>r w. if r = 42 then 10 \<notin> set w
                            else if r = 63 then \<exists>x. w = [x] \<and> x \<noteq> 10
                            else w = [r]) (rune_list pat) ws)"
proof -
  have "(\<lambda>r w. w \<in> atom_lang (if r = 42 then DotStar else if r = 63 then Dot else Lit r)) =
        (\<lambda>r w. if r = 42 then 10 \<notin> set w else if r = 63 then \<exists>x. w = [x] \<and> x \<noteq> 10 else w = [r])"
    by (intro ext) auto
  then show ?thesis
    by (simp add: wildcard_matches_def compileWildcard_def wildcardToRegex_def re_match_iff
        list.rel_map)
qed

text \<open>
  On valid UTF-8 a pattern without \<^verbatim>\<open>*\<close> and \<^verbatim>\<open>?\<close> matches its own text and nothing
  else, so a resource or condition value written out in a policy names exactly one value.
\<close>

theorem literal_pattern_matches_itself_only:
  assumes "ValidString pat" and "ValidString v"
    and "42 \<notin> set (rune_list pat)" and "63 \<notin> set (rune_list pat)"
  shows "wildcard_matches (compileWildcard pat) v False \<longleftrightarrow> v = pat"
  using assms
  by (simp add: wildcard_matches_def compileWildcard_def wildcardToRegex_plain re_match_literal
      rune_list_inject)

text \<open>
  C33. A negated operator is the exact complement of the operator it negates, also when the
  request does not carry the key: of a condition and its negation exactly one holds.
\<close>

theorem negated_operator_complement:
  assumes "op_family (cond_operator c) \<noteq> conditionNull"
  shows "condition_matches (c\<lparr>cond_operator := (cond_operator c)\<lparr>op_negative := \<not> op_negative (cond_operator c)\<rparr>\<rparr>) ctx
         \<longleftrightarrow> \<not> condition_matches c ctx"
proof -
  have "valueMatchesAny (c\<lparr>cond_operator := (cond_operator c)\<lparr>op_negative := b\<rparr>\<rparr>) = valueMatchesAny c" for b
    by (rule ext) (simp add: valueMatchesAny_def)
  with assms show ?thesis
    by (auto simp: condition_matches_def Let_def split: option.splits)
qed

text \<open>
  C34. Every policy that the parser accepts is well formed: at least one statement; in each,
  actions and resources that are not empty, with every pattern the compilation of its own
  text; in each condition a supported key, an operator of the table that fits the type of the
  key, and operands that the operator can evaluate.
\<close>

theorem ParsePolicyJSON_wf:
  assumes "ParsePolicyJSON policyJSON opts = Inr p"
  shows "wf_policy opts p"
proof -
  obtain raws ss where "raws \<noteq> []" and p: "p = \<lparr>statements = ss\<rparr>"
    and m: "mapE (\<lambda>r. compileStatement r (canonicalConditionKeySet (AllowedConditionKeys opts))
                    (canonicalConditionKeyTypes (ConditionKeyTypes opts))) raws = Inr ss"
    using assms by (auto simp: ParsePolicyJSON_def res_simps)
  with mapE_Inr_length [OF m] have "ss \<noteq> []" by auto
  moreover have "list_all (wf_statement opts) ss"
    unfolding list_all_iff using mapE_Inr_setD [OF m] compileStatement_Inr by blast
  ultimately show ?thesis by (simp add: wf_policy_def p)
qed

section \<open>The properties at concrete inputs\<close>

definition sample_options :: iam_options where
  "sample_options =
     \<lparr>AllowedConditionKeys = [(''s3:prefix'', True), (''s3:max-keys'', True)],
      ConditionKeyTypes = [(''s3:prefix'', ConditionValueString), (''s3:max-keys'', ConditionValueNumeric)]\<rparr>"

definition sample_policy_json :: string where
  \<open>sample_policy_json =
     ''{"Version":"2012-10-17","Statement":[{"Sid":"a","Effect":"Allow","Action":["s3:Get*","s3:ListBucket"],"Resource":"*","Condition":{"StringLike":{"s3:Prefix":"home/*"},"Null":{"s3:max-keys":false}}},{"Effect":"Deny","Action":"*","NotResource":"arn:aws:s3:::b/*"}]}''\<close>

definition sample_condition :: "string \<Rightarrow> string \<Rightarrow> condition" where
  "sample_condition name v =
     \<lparr>cond_operator = \<lparr>op_name = name, op_family = conditionStringEquals, op_negative = False\<rparr>,
      cond_key = ''s3:prefix'', cond_values = [v], cond_patterns = []\<rparr>"

definition sample_statement :: "effect \<Rightarrow> condition list \<Rightarrow> policy_statement" where
  "sample_statement e cs =
     \<lparr>stmt_sid = [], stmt_effect = e, stmt_actionMode = matchPositive,
      stmt_actions = compileWildcards [''s3:*''] True, stmt_resourceMode = matchPositive,
      stmt_resources = compileWildcards [''*''] False, stmt_conditions = cs\<rparr>"

theorem Authorize_order_irrelevant_witness:
  "Authorize (Some \<lparr>statements = [sample_statement effectAllow [], sample_statement effectDeny
       [sample_condition ''StringEquals'' ''a'', sample_condition ''StringEquals'' ''b'']]\<rparr>)
     \<lparr>Action = ''s3:GetObject'', Resource = ''arn:aws:s3:::b/k'', Context = Map.empty\<rparr> =
   Authorize (Some \<lparr>statements = [sample_statement effectDeny
       [sample_condition ''StringEquals'' ''b'', sample_condition ''StringEquals'' ''a''],
       sample_statement effectAllow [], sample_statement effectAllow []]\<rparr>)
     \<lparr>Action = ''s3:GetObject'', Resource = ''arn:aws:s3:::b/k'', Context = Map.empty\<rparr>"
  by (rule Authorize_order_irrelevant)
    (auto simp: rel_set_def same_statement_def sample_statement_def)

theorem literal_pattern_witness:
  "wildcard_matches (compileWildcard (''caf'' @ [CHR 0xC3, CHR 0xA9])) (''caf'' @ [CHR 0xC3, CHR 0xA9]) False
   \<and> \<not> wildcard_matches (compileWildcard (''caf'' @ [CHR 0xC3, CHR 0xA9])) ''cafe'' False"
proof -
  have v: "ValidString (''caf'' @ [CHR 0xC3, CHR 0xA9])" "ValidString ''cafe''"
    by code_simp+
  have r: "42 \<notin> set (rune_list (''caf'' @ [CHR 0xC3, CHR 0xA9]))"
    "63 \<notin> set (rune_list (''caf'' @ [CHR 0xC3, CHR 0xA9]))"
    by code_simp+
  show ?thesis
    using literal_pattern_matches_itself_only [OF v(1) v(1) r]
      literal_pattern_matches_itself_only [OF v(1) v(2) r] by simp
qed

theorem negated_operator_witness:
  "condition_matches (sample_condition ''StringEquals'' ''a''
      \<lparr>cond_operator := (cond_operator (sample_condition ''StringEquals'' ''a''))\<lparr>op_negative := True\<rparr>\<rparr>) Map.empty
   \<longleftrightarrow> \<not> condition_matches (sample_condition ''StringEquals'' ''a'') Map.empty"
  using negated_operator_complement [of "sample_condition ''StringEquals'' ''a''" Map.empty]
  by (simp add: sample_condition_def)

theorem ParsePolicyJSON_wf_witness:
  "\<exists>p. ParsePolicyJSON sample_policy_json sample_options = Inr p \<and> length (statements p) = 2
     \<and> wf_policy sample_options p"
proof -
  have "map_sum id (length \<circ> statements) (ParsePolicyJSON sample_policy_json sample_options) = Inr 2"
    by code_simp
  then obtain p where p: "ParsePolicyJSON sample_policy_json sample_options = Inr p"
      "length (statements p) = 2"
    by (cases "ParsePolicyJSON sample_policy_json sample_options") auto
  with ParsePolicyJSON_wf [OF p(1)] show ?thesis by blast
qed

end
