(* ===== verification/S3_Operation.thy ===== *)
theory S3_Operation
  imports S3_Copy IAM_Policy
begin

text \<open>
  The planner of \<^verbatim>\<open>s3_operation.go\<close>: which S3 operation a request is, whether its headers, its query
  and its body are ones the proxy supports for that operation, and which IAM checks it needs. The
  header filters of \<^verbatim>\<open>s3_proxy.go\<close> that the planner consults are here as well.
\<close>

section \<open>Operations\<close>

datatype S3OperationKind =
    operationListBuckets
  | operationCreateBucket
  | operationHeadBucket
  | operationListObjects
  | operationListObjectsV2
  | operationListMultipartUploads
  | operationGetObject
  | operationHeadObject
  | operationGetObjectVersion
  | operationHeadObjectVersion
  | operationPutObject
  | operationPutObjectACL
  | operationPutObjectTagging
  | operationCopyObject
  | operationDeleteObject
  | operationDeleteObjectVersion
  | operationCreateMultipartUpload
  | operationUploadPart
  | operationListParts
  | operationCompleteMultipartUpload
  | operationAbortMultipartUpload

datatype S3ResponseProfile =
    responseListBuckets
  | responseCreateBucket
  | responseSafeHeaders
  | responseStreamObject
  | responseListObjects
  | responseListMultipartUploads
  | responseCreateMultipart
  | responseListParts
  | responseCompleteMultipart
  | responseCopyObject

datatype s3BodyKind =
    bodyEmpty
  | bodyStreaming
  | bodyCreateBucketConfiguration
  | bodyCompleteMultipartXML

record S3OperationPlan =
  p_kind :: S3OperationKind
  p_bucket :: string
  p_objectKey :: string
  p_rawQuery :: string
  p_responseProfile :: S3ResponseProfile
  p_iamChecks :: "iam_request list"
  p_copySource :: "copySource option"
  p_isVHost :: bool
  p_locationConstraint :: string
  p_bodyKind :: s3BodyKind
  p_controlBody :: string
  p_method :: string
  p_contentLength :: int
  p_forwardHeaders :: http_header
  p_query :: url_values
  p_secureTransport :: bool
  p_signedAt :: string
  p_iamContext :: iam_context
  p_authorizationReady :: bool

datatype plan_error = ErrMalformedS3Request | ErrUnsupportedS3Operation

section \<open>Headers of a request\<close>

definition allHeaderValues :: "http_header \<Rightarrow> string \<Rightarrow> string list" where
  "allHeaderValues headers name = concat (map snd (filter (\<lambda>(candidate, vs). EqualFold candidate name) headers))"

definition firstHeaderValue :: "http_header \<Rightarrow> string \<Rightarrow> string" where
  "firstHeaderValue headers name = (case allHeaderValues headers name of [] \<Rightarrow> [] | v # _ \<Rightarrow> v)"

definition hasHeader :: "http_request \<Rightarrow> string \<Rightarrow> bool" where
  "hasHeader r key = (allHeaderValues (r_Header r) key \<noteq> [])"

definition singleHeaderValue :: "http_request \<Rightarrow> string \<Rightarrow> string" where
  "singleHeaderValue r name = (case header_Values (r_Header r) name of [v] \<Rightarrow> v | _ \<Rightarrow> [])"

definition canonicalHeaderClone :: "http_header \<Rightarrow> http_header" where
  "canonicalHeaderClone headers =
     foldl (\<lambda>clone (name, vs).
       let k = CanonicalHeaderKey name
       in AList.update k (case map_of clone k of None \<Rightarrow> vs | Some old \<Rightarrow> old @ vs) clone) [] headers"

definition isCopyObjectRequest :: "http_request \<Rightarrow> bool" where
  "isCopyObjectRequest r = hasHeader r copySourceHeader"

definition knownGrantHeader :: "string \<Rightarrow> bool" where
  "knownGrantHeader name =
     (name \<in> set [''x-amz-grant-full-control'', ''x-amz-grant-read'', ''x-amz-grant-read-acp'',
                  ''x-amz-grant-write'', ''x-amz-grant-write-acp''])"

definition validCannedACL :: "string \<Rightarrow> bool" where
  "validCannedACL v =
     (v \<in> set [''private'', ''public-read'', ''public-read-write'', ''authenticated-read'', ''aws-exec-read'',
               ''bucket-owner-read'', ''bucket-owner-full-control'', ''log-delivery-write''])"

definition checksumValueAlgorithms :: "(string \<times> string) list" where
  "checksumValueAlgorithms =
     [(''x-amz-checksum-crc32'', ''CRC32''), (''x-amz-checksum-crc32c'', ''CRC32C''),
      (''x-amz-checksum-crc64nvme'', ''CRC64NVME''), (''x-amz-checksum-sha1'', ''SHA1''),
      (''x-amz-checksum-sha256'', ''SHA256'')]"

definition validChecksumAlgorithm :: "string \<Rightarrow> bool" where
  "validChecksumAlgorithm v = list_ex (\<lambda>(name, candidate). v = candidate) checksumValueAlgorithms"

definition knownChecksumValueHeader :: "string \<Rightarrow> bool" where
  "knownChecksumValueHeader name = (name \<in> set (keys checksumValueAlgorithms))"

definition knownChecksumHeader :: "string \<Rightarrow> bool" where
  "knownChecksumHeader name =
     (knownChecksumValueHeader name \<or> name = ''x-amz-sdk-checksum-algorithm'' \<or> name = ''x-amz-checksum-algorithm''
      \<or> name = ''x-amz-checksum-type'')"

definition sseCustomerHeaders :: "string list" where
  "sseCustomerHeaders =
     [''x-amz-server-side-encryption-customer-algorithm'', ''x-amz-server-side-encryption-customer-key'',
      ''x-amz-server-side-encryption-customer-key-md5'']"

definition knownSSEHeader :: "string \<Rightarrow> bool" where
  "knownSSEHeader name = (name = ''x-amz-server-side-encryption'' \<or> name \<in> set sseCustomerHeaders)"

section \<open>Header combinations\<close>

definition validateACLHeaderCombination :: "http_header \<Rightarrow> bool" where
  "validateACLHeaderCombination headers =
     (firstHeaderValue headers ''x-amz-acl'' = []
      \<or> \<not> list_ex (\<lambda>name. HasPrefix (ToLower name) ''x-amz-grant-'') (keys headers))"

definition validateSSECustomerHeaders :: "http_header \<Rightarrow> bool" where
  "validateSSECustomerHeaders headers =
     (let present = length (filter (\<lambda>name. firstHeaderValue headers name \<noteq> []) sseCustomerHeaders) in
      if present = 0 then True
      else present = length sseCustomerHeaders
           \<and> firstHeaderValue headers ''x-amz-server-side-encryption-customer-algorithm'' = ''AES256''
           \<and> firstHeaderValue headers ''x-amz-server-side-encryption'' = [])"

definition validateChecksumHeaders :: "http_header \<Rightarrow> bool" where
  "validateChecksumHeaders headers =
     (let sdk = firstHeaderValue headers ''x-amz-sdk-checksum-algorithm'';
          alg = firstHeaderValue headers ''x-amz-checksum-algorithm'';
          algorithm = (if alg = [] then sdk else alg);
          present = filter (\<lambda>(name, candidate). firstHeaderValue headers name \<noteq> []) checksumValueAlgorithms;
          kind = firstHeaderValue headers ''x-amz-checksum-type''
      in (sdk \<noteq> [] \<longrightarrow> validChecksumAlgorithm sdk) \<and> (alg \<noteq> [] \<longrightarrow> validChecksumAlgorithm alg)
         \<and> (sdk \<noteq> [] \<and> alg \<noteq> [] \<longrightarrow> sdk = alg)
         \<and> length present \<le> 1
         \<and> (algorithm \<noteq> [] \<longrightarrow> list_all (\<lambda>(name, candidate). algorithm = candidate) present)
         \<and> (kind \<noteq> [] \<longrightarrow> kind = ''COMPOSITE'' \<or> kind = ''FULL_OBJECT''))"

definition singletonHeaders :: "string list" where
  "singletonHeaders =
     [copySourceHeader, ''x-amz-acl'', ''x-amz-tagging'', ''x-amz-storage-class'', ''x-amz-server-side-encryption'',
      ''x-amz-metadata-directive'', ''x-amz-tagging-directive'', ''x-amz-sdk-checksum-algorithm'',
      ''x-amz-checksum-algorithm'', ''x-amz-checksum-type''] @ sseCustomerHeaders"

definition unsupportedHeader :: "string \<Rightarrow> bool" where
  "unsupportedHeader l =
     (HasPrefix l ''x-amz-object-lock-'' \<or> HasPrefix l ''x-amz-server-side-encryption-aws-kms-''
      \<or> l = ''x-amz-server-side-encryption-context'' \<or> l = ''x-amz-server-side-encryption-bucket-key-enabled'')"

definition validateOperationHeaders :: "http_header \<Rightarrow> bool" where
  "validateOperationHeaders headers =
     (let lowers = map ToLower (keys headers);
          singletons = singletonHeaders
            @ filter (\<lambda>l. knownGrantHeader l \<or> HasPrefix l ''x-amz-meta-'' \<or> knownChecksumValueHeader l) lowers;
          sse = firstHeaderValue headers ''x-amz-server-side-encryption'';
          acl = firstHeaderValue headers ''x-amz-acl''
      in \<not> list_ex unsupportedHeader lowers
         \<and> list_all (\<lambda>h. case allHeaderValues headers h of [] \<Rightarrow> True | [v] \<Rightarrow> TrimSpace v \<noteq> [] | _ \<Rightarrow> False) singletons
         \<and> (sse \<noteq> [] \<longrightarrow> sse = ''AES256'')
         \<and> (acl \<noteq> [] \<longrightarrow> validCannedACL acl)
         \<and> validateACLHeaderCombination headers
         \<and> validateSSECustomerHeaders headers
         \<and> validateChecksumHeaders headers
         \<and> list_all (\<lambda>directive. let v = firstHeaderValue headers directive in v \<noteq> [] \<longrightarrow> v = ''COPY'' \<or> v = ''REPLACE'')
             [''x-amz-metadata-directive'', ''x-amz-tagging-directive''])"

section \<open>Headers of an operation\<close>

definition readsObjectHeaders :: "S3OperationKind \<Rightarrow> bool" where
  "readsObjectHeaders kind =
     (kind \<in> set [operationGetObject, operationGetObjectVersion, operationHeadObject, operationHeadObjectVersion])"

definition objectReadHeaderAllowed :: "S3OperationKind \<Rightarrow> string \<Rightarrow> bool" where
  "objectReadHeaderAllowed kind header =
     (readsObjectHeaders kind
      \<and> header \<in> set [''Range'', ''If-Match'', ''If-Modified-Since'', ''If-None-Match'', ''If-Unmodified-Since'', ''If-Range''])"

definition objectBodyHeaderAllowed :: "S3OperationKind \<Rightarrow> string \<Rightarrow> bool" where
  "objectBodyHeaderAllowed kind header =
     (kind \<in> set [operationCreateBucket, operationPutObject, operationPutObjectACL, operationPutObjectTagging,
                  operationCopyObject, operationCreateMultipartUpload, operationUploadPart, operationCompleteMultipartUpload]
      \<and> header \<in> set [''Cache-Control'', ''Content-Disposition'', ''Content-Encoding'', ''Content-Language'',
                        ''Content-Md5'', ''Content-Type'', ''Expect'', ''Expires''])"

definition operationReadsObject :: "S3OperationKind \<Rightarrow> bool" where
  "operationReadsObject kind =
     (kind \<in> set [operationGetObject, operationGetObjectVersion, operationHeadObject, operationHeadObjectVersion])"

definition safeOutboundRequestHeader :: "string \<Rightarrow> S3OperationKind \<Rightarrow> bool" where
  "safeOutboundRequestHeader name kind =
     (if HasPrefix (ToLower name) ''x-amz-'' then True
      else if name = ''Accept'' \<or> name = ''User-Agent'' then True
      else if name = ''Accept-Encoding'' then operationReadsObject kind
      else objectReadHeaderAllowed kind name \<or> objectBodyHeaderAllowed kind name)"

definition checksumHeaderAllowed :: "S3OperationKind \<Rightarrow> string \<Rightarrow> bool" where
  "checksumHeaderAllowed kind name =
     (if name = ''x-amz-sdk-checksum-algorithm'' then kind = operationPutObject \<or> kind = operationUploadPart
      else if name = ''x-amz-checksum-algorithm'' then kind = operationCreateMultipartUpload
      else if name = ''x-amz-checksum-type'' then kind = operationCreateMultipartUpload \<or> kind = operationCompleteMultipartUpload
      else if knownChecksumValueHeader name
        then kind = operationPutObject \<or> kind = operationUploadPart \<or> kind = operationCompleteMultipartUpload
      else False)"

definition validateChecksumHeadersForOperation :: "http_header \<Rightarrow> bool" where
  "validateChecksumHeadersForOperation headers =
     (firstHeaderValue headers ''x-amz-sdk-checksum-algorithm'' \<noteq> []
      \<longrightarrow> list_ex (\<lambda>(name, algorithm). firstHeaderValue headers name \<noteq> []) checksumValueAlgorithms)"

definition passHeaders :: "string list" where
  "passHeaders =
     [''Authorization'', ''Accept'', ''Accept-Encoding'', ''User-Agent'', ''Content-Length'', ''Connection'', ''Keep-Alive'',
      ''Te'', ''Trailer'', ''Transfer-Encoding'', ''Upgrade'', ''Amz-Sdk-Invocation-Id'', ''Amz-Sdk-Request'',
      ''Traceparent'', ''Tracestate'']"

definition refusedHeaders :: "string list" where
  "refusedHeaders =
     [''Cookie'', ''Cookie2'', ''Forwarded'', ''Origin'', ''Proxy-Authorization'', ''Proxy-Connection'',
      ''X-Http-Method-Override'', ''X-Method-Override'', ''X-Original-Url'', ''X-Rewrite-Url'']"

definition genericHeaderAllowed :: "S3OperationKind \<Rightarrow> string \<Rightarrow> bool" where
  "genericHeaderAllowed kind name =
     (let canonical = CanonicalHeaderKey name; l = ToLower canonical in
      if HasPrefix l ''x-amz-'' then True
      else if canonical \<in> set passHeaders then True
      else if canonical \<in> set refusedHeaders then False
      else if HasPrefix l ''x-forwarded-'' then False
      else objectReadHeaderAllowed kind canonical \<or> objectBodyHeaderAllowed kind canonical)"

definition validateGenericHeadersForOperation :: "http_header \<Rightarrow> S3OperationKind \<Rightarrow> bool" where
  "validateGenericHeadersForOperation headers kind = list_all (genericHeaderAllowed kind) (keys headers)"

definition allowPutHeaders :: "S3OperationKind \<Rightarrow> bool" where
  "allowPutHeaders kind = (kind = operationPutObject \<or> kind = operationCopyObject \<or> kind = operationCreateMultipartUpload)"

definition amzHeaderAllowed :: "S3OperationKind \<Rightarrow> string \<Rightarrow> bool" where
  "amzHeaderAllowed kind l =
     (l = ''x-amz-content-sha256'' \<or> l = ''x-amz-date''
      \<or> l = copySourceHeader \<and> kind = operationCopyObject
      \<or> (l = ''x-amz-acl'' \<or> knownGrantHeader l) \<and> (allowPutHeaders kind \<or> kind = operationPutObjectACL)
      \<or> l = ''x-amz-tagging'' \<and> allowPutHeaders kind
      \<or> (l = ''x-amz-tagging-directive'' \<or> l = ''x-amz-metadata-directive'') \<and> kind = operationCopyObject
      \<or> (HasPrefix l ''x-amz-meta-'' \<or> l = ''x-amz-storage-class'' \<or> knownSSEHeader l) \<and> allowPutHeaders kind
      \<or> knownChecksumHeader l \<and> checksumHeaderAllowed kind l)"

definition connectionTokens :: "http_header \<Rightarrow> string list" where
  "connectionTokens headers =
     map (\<lambda>token. CanonicalHeaderKey (TrimSpace token))
       (concat (map (\<lambda>connection. Split connection '','') (header_Values headers ''Connection'')))"

definition validateHeadersForOperation :: "http_header \<Rightarrow> S3OperationKind \<Rightarrow> bool" where
  "validateHeadersForOperation headers kind =
     (\<not> list_ex (\<lambda>name. safeOutboundRequestHeader name kind
          \<or> name = ''Authorization'' \<or> name = ''Host'' \<or> name = ''Content-Length'') (connectionTokens headers)
      \<and> validateChecksumHeadersForOperation headers
      \<and> list_all (\<lambda>name. HasPrefix (ToLower name) ''x-amz-'' \<longrightarrow> amzHeaderAllowed kind (ToLower name)) (keys headers)
      \<and> validateGenericHeadersForOperation headers kind)"

section \<open>Queries\<close>

text \<open>The value that stands for any value that is not empty.\<close>

definition anyValue :: string where
  "anyValue = [CHR 0x00]"

definition required_ok :: "url_values \<Rightarrow> string \<times> string \<Rightarrow> bool" where
  "required_ok query kw =
     (case map_of query (fst kw) of
        Some [v] \<Rightarrow> if snd kw = anyValue then v \<noteq> [] else v = snd kw
      | _ \<Rightarrow> False)"

definition queryMatchesWithValue :: "url_values \<Rightarrow> string \<Rightarrow> (string \<times> string) list \<Rightarrow> string list \<Rightarrow> bool" where
  "queryMatchesWithValue query xID required optional =
     (list_all (required_ok query) required
      \<and> list_all (\<lambda>(key, vs). (key \<in> set (keys required) \<or> key \<in> set optional \<or> key = ''x-id'')
            \<and> length vs = 1 \<and> (key = ''x-id'' \<longrightarrow> hd vs = xID)) query)"

definition queryMatches :: "url_values \<Rightarrow> string \<Rightarrow> string list \<Rightarrow> string list \<Rightarrow> bool" where
  "queryMatches query xID requiredFlags optional =
     queryMatchesWithValue query xID (map (\<lambda>key. (key, [])) requiredFlags) optional"

definition queryMatchesNonEmpty :: "url_values \<Rightarrow> string \<Rightarrow> string list \<Rightarrow> string list \<Rightarrow> bool" where
  "queryMatchesNonEmpty query xID required optional =
     queryMatchesWithValue query xID (map (\<lambda>key. (key, anyValue)) required) optional"

definition validateOptionalInteger :: "url_values \<Rightarrow> string \<Rightarrow> int \<Rightarrow> int \<Rightarrow> bool" where
  "validateOptionalInteger query name lo hi =
     (case map_of query name of
        None \<Rightarrow> True
      | Some [v] \<Rightarrow> v \<noteq> [] \<and> (case Atoi v of None \<Rightarrow> False | Some i \<Rightarrow> lo \<le> i \<and> i \<le> hi)
      | _ \<Rightarrow> False)"

text \<open>Here every key of the query has exactly one value.\<close>

definition validateQueryForOperation :: "url_values \<Rightarrow> bool" where
  "validateQueryForOperation query =
     ((map_of query ''encoding-type'' \<noteq> None \<longrightarrow> values_Get query ''encoding-type'' = ''url'')
      \<and> (case map_of query ''fetch-owner'' of None \<Rightarrow> True | Some vs \<Rightarrow> hd vs = ''true'' \<or> hd vs = ''false'')
      \<and> list_all (\<lambda>name. case map_of query name of
            None \<Rightarrow> True | Some vs \<Rightarrow> hd vs = [] \<or> validateVirtualObjectKey (hd vs))
          [''prefix'', ''marker'', ''start-after'', ''key-marker'']
      \<and> validateOptionalInteger query ''max-keys'' 0 1000
      \<and> validateOptionalInteger query ''max-uploads'' 1 1000
      \<and> validateOptionalInteger query ''max-parts'' 0 1000
      \<and> validateOptionalInteger query ''part-number-marker'' 0 10000
      \<and> validateOptionalInteger query ''partNumber'' 1 10000)"

section \<open>Bodies\<close>

definition bodyKindForOperation :: "S3OperationKind \<Rightarrow> s3BodyKind" where
  "bodyKindForOperation kind =
     (if kind \<in> set [operationPutObject, operationPutObjectACL, operationPutObjectTagging, operationUploadPart] then bodyStreaming
      else if kind = operationCreateBucket then bodyCreateBucketConfiguration
      else if kind = operationCompleteMultipartUpload then bodyCompleteMultipartXML
      else bodyEmpty)"

definition validateBodyForOperation :: "http_request \<Rightarrow> s3BodyKind \<Rightarrow> bool" where
  "validateBodyForOperation r kind = (kind \<noteq> bodyEmpty \<or> r_ContentLength r = 0 \<and> r_TransferEncoding r = [])"

section \<open>The planner\<close>

definition s3BucketARN :: "string \<Rightarrow> string" where
  "s3BucketARN bucket = ''arn:aws:s3:::'' @ bucket"

definition s3ObjectARN :: "string \<Rightarrow> string \<Rightarrow> string" where
  "s3ObjectARN bucket key = ''arn:aws:s3:::'' @ bucket @ ''/'' @ key"

definition newIAMRequest :: "string \<Rightarrow> string \<Rightarrow> iam_request" where
  "newIAMRequest action resource = \<lparr>Action = action, Resource = resource, Context = Map.empty\<rparr>"

definition requestUsesACLHeaders :: "http_request \<Rightarrow> bool" where
  "requestUsesACLHeaders r =
     (hasHeader r ''x-amz-acl'' \<or> list_ex (\<lambda>name. knownGrantHeader (ToLower name)) (keys (r_Header r)))"

definition putHeaderChecks :: "http_request \<Rightarrow> string \<Rightarrow> iam_request list" where
  "putHeaderChecks r resource =
     (if requestUsesACLHeaders r then [newIAMRequest ''s3:PutObjectAcl'' resource] else [])
     @ (if hasHeader r ''x-amz-tagging'' then [newIAMRequest ''s3:PutObjectTagging'' resource] else [])"

definition copySourceAction :: "copySource \<Rightarrow> string" where
  "copySourceAction source = (if cs_VersionID source \<noteq> [] then ''s3:GetObjectVersion'' else ''s3:GetObject'')"

text \<open>What the switch of the planner decides: the kind, the profile, the checks and the copy source.\<close>

record plan_shape =
  sh_kind :: S3OperationKind
  sh_profile :: S3ResponseProfile
  sh_checks :: "iam_request list"
  sh_copySource :: "copySource option"

definition shape :: "S3OperationKind \<Rightarrow> S3ResponseProfile \<Rightarrow> iam_request list \<Rightarrow> plan_error + plan_shape" where
  "shape kind profile checks = Inr \<lparr>sh_kind = kind, sh_profile = profile, sh_checks = checks, sh_copySource = None\<rparr>"

definition planBucket :: "http_request \<Rightarrow> string \<Rightarrow> url_values \<Rightarrow> plan_error + plan_shape" where
  "planBucket r bucket query =
     (let check = (\<lambda>action. [newIAMRequest action (s3BucketARN bucket)]) in
      if r_Method r = ''PUT'' \<and> queryMatches query ''CreateBucket'' [] [] \<and> \<not> isCopyObjectRequest r
        then shape operationCreateBucket responseCreateBucket (check ''s3:CreateBucket'')
      else if r_Method r = ''HEAD'' \<and> queryMatches query ''HeadBucket'' [] []
        then shape operationHeadBucket responseSafeHeaders (check ''s3:ListBucket'')
      else if r_Method r = ''GET'' \<and> queryMatches query ''ListMultipartUploads'' [''uploads'']
           [''delimiter'', ''encoding-type'', ''key-marker'', ''max-uploads'', ''prefix'', ''upload-id-marker'']
        then shape operationListMultipartUploads responseListMultipartUploads (check ''s3:ListBucketMultipartUploads'')
      else if r_Method r = ''GET'' \<and> queryMatchesWithValue query ''ListObjectsV2'' [(''list-type'', ''2'')]
           [''prefix'', ''delimiter'', ''continuation-token'', ''fetch-owner'', ''max-keys'', ''encoding-type'', ''start-after'']
        then shape operationListObjectsV2 responseListObjects (check ''s3:ListBucket'')
      else if r_Method r = ''GET'' \<and> queryMatches query ''ListObjects'' []
           [''prefix'', ''delimiter'', ''marker'', ''max-keys'', ''encoding-type'']
        then shape operationListObjects responseListObjects (check ''s3:ListBucket'')
      else Inl ErrUnsupportedS3Operation)"

definition getObjectParameters :: "string list" where
  "getObjectParameters =
     [''response-cache-control'', ''response-content-disposition'', ''response-content-encoding'',
      ''response-content-language'', ''response-content-type'', ''response-expires'', ''partNumber'']"

definition planRead :: "http_request \<Rightarrow> string \<Rightarrow> url_values \<Rightarrow> plan_error + plan_shape" where
  "planRead r resource query =
     (let check = (\<lambda>action. [newIAMRequest action resource]) in
      if r_Method r = ''GET'' then
        (if queryMatchesNonEmpty query ''ListParts'' [''uploadId''] [''max-parts'', ''part-number-marker'']
           then shape operationListParts responseListParts (check ''s3:ListMultipartUploadParts'')
         else if queryMatchesNonEmpty query ''GetObject'' [''versionId''] getObjectParameters
           then shape operationGetObjectVersion responseStreamObject (check ''s3:GetObjectVersion'')
         else if queryMatches query ''GetObject'' [] getObjectParameters
           then shape operationGetObject responseStreamObject (check ''s3:GetObject'')
         else Inl ErrUnsupportedS3Operation)
      else
        (if queryMatchesNonEmpty query ''HeadObject'' [''versionId''] [''partNumber'']
           then shape operationHeadObjectVersion responseSafeHeaders (check ''s3:GetObjectVersion'')
         else if queryMatches query ''HeadObject'' [] [''partNumber'']
           then shape operationHeadObject responseSafeHeaders (check ''s3:GetObject'')
         else Inl ErrUnsupportedS3Operation))"

definition planPut :: "http_request \<Rightarrow> string \<Rightarrow> string \<Rightarrow> url_values \<Rightarrow> plan_error + plan_shape" where
  "planPut r bucket resource query =
     (let check = (\<lambda>action. [newIAMRequest action resource]); copy = isCopyObjectRequest r in
      if copy \<and> queryMatches query ''CopyObject'' [] [] then
        (case parseCopySource (singleHeaderValue r copySourceHeader) bucket of
           None \<Rightarrow> Inl ErrUnsupportedS3Operation
         | Some source \<Rightarrow>
             Inr \<lparr>sh_kind = operationCopyObject, sh_profile = responseCopyObject,
                  sh_checks = [newIAMRequest ''s3:PutObject'' resource,
                               newIAMRequest (copySourceAction source) (s3ObjectARN bucket (cs_Key source))]
                              @ putHeaderChecks r resource,
                  sh_copySource = Some source\<rparr>)
      else if queryMatches query ''PutObjectTagging'' [''tagging''] [] \<and> \<not> copy
        then shape operationPutObjectTagging responseSafeHeaders (check ''s3:PutObjectTagging'')
      else if queryMatches query ''PutObjectAcl'' [''acl''] [] \<and> \<not> copy
        then shape operationPutObjectACL responseSafeHeaders (check ''s3:PutObjectAcl'')
      else if queryMatchesNonEmpty query ''UploadPart'' [''partNumber'', ''uploadId''] [] \<and> \<not> copy
        then shape operationUploadPart responseSafeHeaders (check ''s3:PutObject'')
      else if queryMatches query ''PutObject'' [] [] \<and> \<not> copy
        then shape operationPutObject responseSafeHeaders (check ''s3:PutObject'' @ putHeaderChecks r resource)
      else Inl ErrUnsupportedS3Operation)"

definition planDelete :: "string \<Rightarrow> url_values \<Rightarrow> plan_error + plan_shape" where
  "planDelete resource query =
     (let check = (\<lambda>action. [newIAMRequest action resource]) in
      if queryMatchesNonEmpty query ''AbortMultipartUpload'' [''uploadId''] []
        then shape operationAbortMultipartUpload responseSafeHeaders (check ''s3:AbortMultipartUpload'')
      else if queryMatchesNonEmpty query ''DeleteObject'' [''versionId''] []
        then shape operationDeleteObjectVersion responseSafeHeaders (check ''s3:DeleteObjectVersion'')
      else if queryMatches query ''DeleteObject'' [] []
        then shape operationDeleteObject responseSafeHeaders (check ''s3:DeleteObject'')
      else Inl ErrUnsupportedS3Operation)"

definition planPost :: "http_request \<Rightarrow> string \<Rightarrow> url_values \<Rightarrow> plan_error + plan_shape" where
  "planPost r resource query =
     (let check = (\<lambda>action. [newIAMRequest action resource]) in
      if queryMatches query ''CreateMultipartUpload'' [''uploads''] []
        then shape operationCreateMultipartUpload responseCreateMultipart (check ''s3:PutObject'' @ putHeaderChecks r resource)
      else if queryMatchesNonEmpty query ''CompleteMultipartUpload'' [''uploadId''] []
        then shape operationCompleteMultipartUpload responseCompleteMultipart (check ''s3:PutObject'')
      else Inl ErrUnsupportedS3Operation)"

definition planShape :: "http_request \<Rightarrow> string \<Rightarrow> string \<Rightarrow> url_values \<Rightarrow> plan_error + plan_shape" where
  "planShape r bucket objectKey query =
     (let resource = s3ObjectARN bucket objectKey in
      if bucket = [] \<and> objectKey = [] then
        (if r_Method r = ''GET'' \<and> queryMatches query ''ListBuckets'' [] []
         then shape operationListBuckets responseListBuckets [newIAMRequest ''s3:ListAllMyBuckets'' ''*'']
         else Inl ErrUnsupportedS3Operation)
      else if objectKey = [] then planBucket r bucket query
      else if r_Method r = ''GET'' \<or> r_Method r = ''HEAD'' then planRead r resource query
      else if r_Method r = ''PUT'' then planPut r bucket resource query
      else if r_Method r = ''DELETE'' then planDelete resource query
      else if r_Method r = ''POST'' then planPost r resource query
      else Inl ErrUnsupportedS3Operation)"

section \<open>The context of the checks\<close>

definition s3HeaderConditionKeys :: "(string \<times> string) list" where
  "s3HeaderConditionKeys =
     [(''x-amz-acl'', ''s3:x-amz-acl''),
      (''x-amz-copy-source'', ''s3:x-amz-copy-source''),
      (''x-amz-grant-full-control'', ''s3:x-amz-grant-full-control''),
      (''x-amz-grant-read'', ''s3:x-amz-grant-read''),
      (''x-amz-grant-read-acp'', ''s3:x-amz-grant-read-acp''),
      (''x-amz-grant-write'', ''s3:x-amz-grant-write''),
      (''x-amz-grant-write-acp'', ''s3:x-amz-grant-write-acp''),
      (''x-amz-metadata-directive'', ''s3:x-amz-metadata-directive''),
      (''x-amz-server-side-encryption'', ''s3:x-amz-server-side-encryption''),
      (''x-amz-storage-class'', ''s3:x-amz-storage-class''),
      (''x-amz-tagging'', ''s3:x-amz-tagging''),
      (''x-amz-tagging-directive'', ''s3:x-amz-tagging-directive'')]"

definition queryValuesOrDefault :: "url_values \<Rightarrow> string \<Rightarrow> string \<Rightarrow> string list" where
  "queryValuesOrDefault query key d = (case map_of query key of None \<Rightarrow> [d] | Some vs \<Rightarrow> vs)"

definition listContext :: "S3OperationKind \<Rightarrow> url_values \<Rightarrow> (string \<times> string list) list" where
  "listContext kind query =
     (if kind \<in> set [operationListObjects, operationListObjectsV2, operationListMultipartUploads] then
        [(''s3:prefix'', queryValuesOrDefault query ''prefix'' [])]
        @ (case map_of query ''delimiter'' of None \<Rightarrow> [] | Some vs \<Rightarrow> [(''s3:delimiter'', vs)])
        @ (case map_of query ''max-keys'' of None \<Rightarrow> [] | Some vs \<Rightarrow> [(''s3:max-keys'', vs)])
      else [])"

definition headerContext :: "http_header \<Rightarrow> (string \<times> string list) list" where
  "headerContext headers =
     filter (\<lambda>(key, vs). vs \<noteq> []) (map (\<lambda>(header, key). (key, allHeaderValues headers header)) s3HeaderConditionKeys)"

definition buildS3IAMWireContext :: "S3OperationPlan \<Rightarrow> iam_context" where
  "buildS3IAMWireContext plan =
     map_of ([(''s3:authtype'', [''REST-HEADER'']),
              (''s3:signatureversion'', [''AWS4-HMAC-SHA256'']),
              (''aws:securetransport'', [FormatBool (p_secureTransport plan)])]
             @ listContext (p_kind plan) (p_query plan)
             @ headerContext (p_forwardHeaders plan))"

section \<open>Plans\<close>

definition plan_of :: "http_request \<Rightarrow> string \<Rightarrow> string \<Rightarrow> url_values \<Rightarrow> plan_shape \<Rightarrow> S3OperationPlan" where
  "plan_of r bucket objectKey query sh =
     (let plan =
       \<lparr>p_kind = sh_kind sh, p_bucket = bucket, p_objectKey = objectKey, p_rawQuery = u_RawQuery (r_URL r),
        p_responseProfile = sh_profile sh, p_iamChecks = sh_checks sh, p_copySource = sh_copySource sh,
        p_isVHost = False, p_locationConstraint = [], p_bodyKind = bodyKindForOperation (sh_kind sh),
        p_controlBody = [], p_method = r_Method r, p_contentLength = r_ContentLength r,
        p_forwardHeaders = canonicalHeaderClone (r_Header r), p_query = query, p_secureTransport = r_TLS r,
        p_signedAt = firstHeaderValue (canonicalHeaderClone (r_Header r)) ''x-amz-date'',
        p_iamContext = Map.empty, p_authorizationReady = False\<rparr>
      in plan\<lparr>p_iamContext := buildS3IAMWireContext plan\<rparr>)"

definition finishPlan :: "http_request \<Rightarrow> string \<Rightarrow> string \<Rightarrow> url_values \<Rightarrow> plan_shape \<Rightarrow> plan_error + S3OperationPlan" where
  "finishPlan r bucket objectKey query sh =
     bindE (guardE (validateHeadersForOperation (r_Header r) (sh_kind sh)) ErrUnsupportedS3Operation) (\<lambda>_.
     bindE (guardE (validateQueryForOperation query) ErrUnsupportedS3Operation) (\<lambda>_.
     bindE (guardE (validateBodyForOperation r (bodyKindForOperation (sh_kind sh))) ErrUnsupportedS3Operation) (\<lambda>_.
     Inr (plan_of r bucket objectKey query sh))))"

definition planS3Operation :: "http_request \<Rightarrow> string \<Rightarrow> string \<Rightarrow> plan_error + S3OperationPlan" where
  "planS3Operation r bucket objectKey =
     bindE (guardE (objectKey \<noteq> [] \<longrightarrow> validateVirtualObjectKey objectKey) ErrMalformedS3Request) (\<lambda>_.
     bindE (guardE (\<not> (objectKey = [] \<and> bucket \<noteq> [] \<and> HasSuffix (u_Path (r_URL r)) ''/'' \<and> u_Path (r_URL r) \<noteq> ''/''))
       ErrMalformedS3Request) (\<lambda>_.
     bindE (of_option ErrMalformedS3Request (ParseQuery (u_RawQuery (r_URL r)))) (\<lambda>query.
     bindE (guardE (list_all (\<lambda>(key, vs). length vs = 1) query) ErrUnsupportedS3Operation) (\<lambda>_.
     bindE (guardE (validateOperationHeaders (r_Header r)) ErrUnsupportedS3Operation) (\<lambda>_.
     bindE (planShape r bucket objectKey query) (\<lambda>sh.
     finishPlan r bucket objectKey query sh))))))"

end
