(* ===== verification/S3_Signature.thy ===== *)
theory S3_Signature
  imports S3_Auth
begin

text \<open>
  What a signature covers. The canonical request is determined by, and determines, the method, the
  path, the query and the signed headers; so two requests that verify under one signature agree on
  them, or exhibit a collision of SHA-256 or HMAC.
\<close>

section \<open>URI encoding\<close>

lemma unreserved_plain: "unreserved c \<Longrightarrow> c \<noteq> CHR ''%'' \<and> c \<noteq> CHR ''+'' \<and> c \<noteq> CHR ''&'' \<and> c \<noteq> CHR ''='' \<and> c \<noteq> CHR 0x0A"
  by (auto simp: unreserved_def Let_def byte_def)

lemma unescape_awsURIEncode: "unescape m (awsURIEncode s) = Some s"
proof (induction s)
  case (Cons c s)
  then show ?case
    using unreserved_plain [of c] unescape_percent [of m c "awsURIEncode s"] by (auto simp: awsURIEncode_def)
qed (simp add: awsURIEncode_def)

lemma awsURIEncode_inject: "awsURIEncode s = awsURIEncode t \<longleftrightarrow> s = t"
  by (metis option.inject unescape_awsURIEncode)

lemma upperhex_byte: "n < 16 \<Longrightarrow> byte (upperhex n) \<in> {48..57} \<union> {65..70}"
  by (simp add: upperhex_def byte_char_of)

lemma byte_nibbles: "byte c div 16 < 16" "byte c mod 16 < 16"
  using byte_bound [of c] by (simp_all add: less_mult_imp_div_less)

lemma percent_bytes: "x \<in> set (percent c) \<Longrightarrow> byte x \<in> {37} \<union> {48..57} \<union> {65..70}"
  using upperhex_byte [OF byte_nibbles(1), of c] upperhex_byte [OF byte_nibbles(2), of c]
  by (auto simp: percent_def byte_def)

lemma awsURIEncode_chars: "x \<in> set (awsURIEncode s) \<Longrightarrow> x \<noteq> CHR ''&'' \<and> x \<noteq> CHR ''='' \<and> x \<noteq> CHR 0x0A"
proof -
  assume "x \<in> set (awsURIEncode s)"
  then have "unreserved x \<or> byte x \<in> {37} \<union> {48..57} \<union> {65..70}"
    using percent_bytes by (auto simp: awsURIEncode_def split: if_splits)
  moreover have "byte (CHR ''&'') = 38" "byte (CHR 0x0A) = 10" "byte (CHR ''='') = 61" by (simp_all add: byte_def)
  ultimately show ?thesis using unreserved_plain by auto
qed

section \<open>Header values\<close>

text \<open>What the loop of \<^verbatim>\<open>canonicalHeaderValue\<close> computes: one space for a run of spaces.\<close>

fun squeeze :: "string \<Rightarrow> string" where
  "squeeze (a # b # s) = (if a = CHR '' '' \<and> b = CHR '' '' then squeeze (b # s) else a # squeeze (b # s))"
| "squeeze s = s"

fun halve :: "string \<Rightarrow> string" where
  "halve (a # b # s) = (if a = CHR '' '' \<and> b = CHR '' '' then CHR '' '' # halve s else a # halve (b # s))"
| "halve s = s"

lemma two_spaces: "HasPrefix (a # b # s) ''  '' \<longleftrightarrow> a = CHR '' '' \<and> b = CHR '' ''" "\<not> HasPrefix [a] ''  ''"
  by (auto simp: HasPrefix_def)

lemma Join_split_spaces: "Join (split_from ''  '' acc s) '' '' = rev acc @ halve s"
proof (induction s arbitrary: acc rule: halve.induct)
  case (1 a b s)
  then show ?case by (auto simp: two_spaces Join_Cons)
qed (simp_all add: two_spaces)

lemma squeeze_halve_Cons: "squeeze (x # halve s) = squeeze (x # s)"
proof (induction s arbitrary: x rule: halve.induct)
  case (1 a b s)
  show ?case
  proof (cases "a = CHR '' '' \<and> b = CHR '' ''")
    case True
    then show ?thesis using 1(1) [OF True, of "CHR '' ''"] by simp
  next
    case False
    then show ?thesis using 1(2) [OF False, of a] by auto
  qed
qed auto

lemma squeeze_halve: "squeeze (halve s) = squeeze s"
proof (cases s rule: halve.cases)
  case (1 a b t)
  then show ?thesis
    using squeeze_halve_Cons [of a "b # t"] squeeze_halve_Cons [of "CHR '' ''" t] by auto
qed auto

lemma squeeze_no_double: "\<not> Contains (squeeze s) ''  ''"
proof (induction s rule: squeeze.induct)
  case (1 a b s)
  have "hd (squeeze (b # s)) = b" by (induction s arbitrary: b) auto
  moreover have "squeeze (b # s) \<noteq> []" by (induction s arbitrary: b) auto
  ultimately obtain u where "squeeze (b # s) = b # u" by (metis list.exhaust_sel)
  with 1 show ?case by (auto simp: two_spaces)
qed (simp_all add: two_spaces)

lemma squeeze_id: "\<not> Contains s ''  '' \<Longrightarrow> squeeze s = s"
  by (induction s rule: squeeze.induct) (auto simp: two_spaces)

lemma collapse_spaces_squeeze: "collapse_spaces s = squeeze s"
proof (induction s rule: collapse_spaces.induct)
  case (1 s)
  have r: "ReplaceAll s ''  '' '' '' = halve s" by (simp add: ReplaceAll_def Split_def Join_split_spaces)
  show ?case
  proof (cases "Contains s ''  ''")
    case True
    then have "collapse_spaces s = collapse_spaces (halve s)"
      by (subst collapse_spaces.simps) (simp add: r)
    also have "\<dots> = squeeze s" using 1 [OF True] by (simp add: r squeeze_halve)
    finally show ?thesis .
  next
    case False
    then show ?thesis by (subst collapse_spaces.simps) (simp add: squeeze_id)
  qed
qed

lemma set_squeeze: "set (squeeze s) \<subseteq> set s"
  by (induction s rule: squeeze.induct) auto

lemma set_TrimSpace: "set (TrimSpace s) \<subseteq> set s"
proof -
  let ?p = "\<lambda>(r, bs). IsSpace r"
  have "set (dropWhile ?p (rev (dropWhile ?p (runes s)))) \<subseteq> set (runes s)"
    by (metis (no_types, lifting) set_dropWhileD set_rev subsetI)
  then have "set (TrimSpace s) \<subseteq> set (concat (map snd (runes s)))"
    by (auto simp: TrimSpace_def)
  then show ?thesis by (simp add: concat_runes)
qed

lemma set_canonicalHeaderValue: "set (canonicalHeaderValue s) \<subseteq> set s"
  unfolding canonicalHeaderValue_def collapse_spaces_squeeze using set_squeeze set_TrimSpace by blast

section \<open>Lines\<close>

abbreviation one_line :: "string \<Rightarrow> bool" where
  "one_line s \<equiv> CHR 0x0A \<notin> set s"

lemma cut_eq: "c \<notin> set (a :: string) \<Longrightarrow> c \<notin> set a' \<Longrightarrow> a @ c # b = a' @ c # b' \<longleftrightarrow> a = a' \<and> b = b'"
proof
  assume plain: "c \<notin> set a" "c \<notin> set a'" and eq: "a @ c # b = a' @ c # b'"
  have "Some (a, b) = Cut (a @ c # b) [c]" using plain(1) by (rule Cut_char [symmetric])
  also have "\<dots> = Some (a', b')" unfolding eq using plain(2) by (rule Cut_char)
  finally show "a = a' \<and> b = b'" by simp
qed simp

lemma line_eq: "one_line a \<Longrightarrow> one_line a' \<Longrightarrow> a @ newline @ b = a' @ newline @ b' \<longleftrightarrow> a = a' \<and> b = b'"
  by (simp add: newline_def cut_eq)

lemma one_line_Join: "list_all one_line ps \<Longrightarrow> one_line sep \<Longrightarrow> one_line (Join ps sep)"
  by (induction ps sep rule: Join.induct) auto

abbreviation "query_pair \<equiv> \<lambda>(k, v). awsURIEncode k @ ''='' @ awsURIEncode v"

lemma query_pair_inject: "query_pair p = query_pair q \<longleftrightarrow> p = q"
proof -
  obtain k v l w where "p = (k, v)" "q = (l, w)" by (metis surj_pair)
  moreover have "CHR ''='' \<notin> set (awsURIEncode x)" for x using awsURIEncode_chars by blast
  ultimately show ?thesis by (simp add: cut_eq awsURIEncode_inject)
qed

lemma query_pair_plain: "CHR ''&'' \<notin> set (query_pair p)" "one_line (query_pair p)" "query_pair p \<noteq> []"
proof -
  obtain k v where "p = (k, v)" by (metis surj_pair)
  moreover have "CHR ''&'' \<notin> set (awsURIEncode x)" "one_line (awsURIEncode x)" for x using awsURIEncode_chars by blast+
  ultimately show "CHR ''&'' \<notin> set (query_pair p)" "one_line (query_pair p)" "query_pair p \<noteq> []" by simp_all
qed

lemma join_pairs_inject:
  assumes "Join (map query_pair ps) ''&'' = Join (map query_pair qs) ''&''"
  shows "ps = qs"
proof -
  have split: "Split (Join (map query_pair xs) ''&'') ''&'' = map query_pair xs" if "xs \<noteq> []" for xs
    using that query_pair_plain(1) by (intro Split_Join_char) auto
  have empty: "Join (map query_pair xs) ''&'' = [] \<longleftrightarrow> xs = []" for xs
    using query_pair_plain(3) by (cases xs rule: remdups_adj.cases) auto
  have "map query_pair ps = map query_pair qs"
    using assms split [of ps] split [of qs] empty [of ps] empty [of qs] by (cases "ps = []"; cases "qs = []") auto
  moreover have "inj query_pair" by (intro injI) (simp only: query_pair_inject)
  ultimately show ?thesis by (simp only: inj_map_eq_map)
qed

lemma canonicalQueryString_inject: "canonicalQueryString q = canonicalQueryString q' \<longleftrightarrow> query_pairs q = query_pairs q'"
  using join_pairs_inject by (auto simp: canonicalQueryString_def)

lemma one_line_query: "one_line (canonicalQueryString q)"
  unfolding canonicalQueryString_def using query_pair_plain(2) by (intro one_line_Join) (auto simp: list_all_iff)

lemma newline_escaped: "shouldEscape m (CHR 0x0A)"
  by (simp add: shouldEscape_def unreserved_def byte_def)

lemma one_line_EscapedPath: "one_line (EscapedPath u)"
proof -
  have "one_line s" if "validEncoded s" for s
  proof
    assume "CHR 0x0A \<in> set s"
    with that have "CHR 0x0A \<in> set ''!$&()*+,;=:@[]%'' \<or> byte (CHR 0x0A) = 39 \<or> \<not> shouldEscape encodePath (CHR 0x0A)"
      unfolding validEncoded_def list_all_iff by blast
    then show False using newline_escaped [of encodePath] by (simp add: byte_def)
  qed
  moreover have "one_line (escape encodePath s)" for s
  proof
    assume "CHR 0x0A \<in> set (escape encodePath s)"
    then obtain c where "CHR 0x0A \<in> set (escape_char encodePath c)" by (auto simp: escape_def)
    from escape_char_chars [OF this] show False
      using newline_escaped [of encodePath] by (auto simp: ishex_def byte_def)
  qed
  ultimately show ?thesis by (simp add: EscapedPath_def)
qed

lemma one_line_path: "one_line (canonical_path u)"
  by (simp add: canonical_path_def one_line_EscapedPath)

section \<open>The canonical request\<close>

definition combined_value :: "http_request \<Rightarrow> string \<Rightarrow> string" where
  "combined_value r h = Join (map canonicalHeaderValue (signed_values r h)) '',''"

definition request_path :: "http_request \<Rightarrow> string" where
  "request_path r = (if u_Path (r_URL r) = [] then ''/'' else u_Path (r_URL r))"

text \<open>Neither the method nor a signed value contains a line break, as the HTTP server guarantees.\<close>

definition clean_request :: "http_request \<Rightarrow> string list \<Rightarrow> bool" where
  "clean_request r hs = (one_line (r_Method r) \<and> list_all (\<lambda>h. list_all one_line (signed_values r h)) hs)"

definition same_signed_parts :: "http_request \<Rightarrow> http_request \<Rightarrow> string list \<Rightarrow> bool" where
  "same_signed_parts r r' hs =
     (r_Method r = r_Method r' \<and> request_path r = request_path r'
      \<and> query_pairs (URL_Query (u_RawQuery (r_URL r))) = query_pairs (URL_Query (u_RawQuery (r_URL r')))
      \<and> list_all (\<lambda>h. combined_value r h = combined_value r' h) hs)"

lemma one_line_combined: "list_all one_line (signed_values r h) \<Longrightarrow> one_line (combined_value r h)"
  unfolding combined_value_def using set_canonicalHeaderValue by (intro one_line_Join) (auto simp: list_all_iff)

lemma canonical_header_eq: "canonical_header r h = h @ '':'' @ combined_value r h @ newline"
  by (simp add: canonical_header_def combined_value_def)

lemma header_lines_inject:
  assumes "list_all (\<lambda>h. list_all one_line (signed_values r h)) hs" "list_all (\<lambda>h. list_all one_line (signed_values r' h)) hs"
    and "concat (map (canonical_header r) hs) @ x = concat (map (canonical_header r') hs) @ x'"
  shows "list_all (\<lambda>h. combined_value r h = combined_value r' h) hs \<and> x = x'"
  using assms
proof (induction hs)
  case (Cons h hs)
  then have "combined_value r h @ newline @ concat (map (canonical_header r) hs) @ x =
    combined_value r' h @ newline @ concat (map (canonical_header r') hs) @ x'"
    using canonical_header_eq [of r h] canonical_header_eq [of r' h] by simp
  moreover have "one_line (combined_value r h)" "one_line (combined_value r' h)"
    using Cons.prems by (simp_all add: one_line_combined)
  ultimately have "combined_value r h = combined_value r' h"
    and "concat (map (canonical_header r) hs) @ x = concat (map (canonical_header r') hs) @ x'"
    using line_eq by blast+
  then show ?case using Cons by simp
qed simp

lemma EscapedPath_empty: "EscapedPath u = [] \<longleftrightarrow> u_Path u = []"
proof
  assume "EscapedPath u = []"
  then show "u_Path u = []" using unescape_EscapedPath [of u] by simp
next
  assume "u_Path u = []"
  then have "unescape encodePath (EscapedPath u) = Some []" using unescape_EscapedPath [of u] by simp
  then show "EscapedPath u = []" by (cases "EscapedPath u") (auto split: if_splits list.splits)
qed

lemma canonical_path_inject:
  assumes "canonical_path u = canonical_path v"
  shows "(if u_Path u = [] then ''/'' else u_Path u) = (if u_Path v = [] then ''/'' else u_Path v)"
proof -
  have decoded: "unescape encodePath (canonical_path w) = Some (if u_Path w = [] then ''/'' else u_Path w)" for w
    by (simp add: canonical_path_def EscapedPath_empty unescape_EscapedPath)
  have "Some (if u_Path u = [] then ''/'' else u_Path u) = unescape encodePath (canonical_path v)"
    unfolding assms [symmetric] by (rule decoded [symmetric])
  then show ?thesis unfolding decoded by (rule option.inject [THEN iffD1])
qed

lemma buildCanonicalRequest_inject:
  assumes eq: "buildCanonicalRequest r hs = buildCanonicalRequest r' hs"
    and clean: "clean_request r hs" "clean_request r' hs"
  shows "same_signed_parts r r' hs"
proof -
  let ?rest = "\<lambda>r. newline @ Join hs '';'' @ newline @ header_Get (r_Header r) ''x-amz-content-sha256''"
  have m: "r_Method r = r_Method r'" and "canonical_path (r_URL r) = canonical_path (r_URL r')"
    and q: "query_pairs (URL_Query (u_RawQuery (r_URL r))) = query_pairs (URL_Query (u_RawQuery (r_URL r')))"
    and h: "concat (map (canonical_header r) hs) @ ?rest r = concat (map (canonical_header r') hs) @ ?rest r'"
    using eq clean by (simp_all add: buildCanonicalRequest_def line_eq clean_request_def one_line_path one_line_query
        canonicalQueryString_inject)
  moreover have "request_path r = request_path r'"
    unfolding request_path_def by (rule canonical_path_inject) fact
  moreover have "list_all (\<lambda>h. combined_value r h = combined_value r' h) hs"
    using header_lines_inject [OF _ _ h] clean by (simp add: clean_request_def)
  ultimately show ?thesis by (simp add: same_signed_parts_def)
qed

section \<open>Hexadecimal\<close>

lemma lowerhex_inject: "m < 16 \<Longrightarrow> n < 16 \<Longrightarrow> lowerhex m = lowerhex n \<longleftrightarrow> m = n"
proof -
  have "byte (lowerhex k) = (if k < 10 then 48 + k else 87 + k)" if "k < 16" for k
    using that by (simp add: lowerhex_def byte_char_of)
  moreover assume "m < 16" "n < 16"
  ultimately have "byte (lowerhex m) = byte (lowerhex n) \<longleftrightarrow> m = n" by simp
  then show ?thesis by auto
qed

lemma hex_digits_inject:
  "lowerhex (byte c div 16) = lowerhex (byte d div 16) \<Longrightarrow> lowerhex (byte c mod 16) = lowerhex (byte d mod 16) \<Longrightarrow> c = d"
  by (metis byte_inject byte_nibbles div_mult_mod_eq lowerhex_inject)

lemma hex_string_inject: "hex_string s = hex_string t \<longleftrightarrow> s = t"
proof
  show "hex_string s = hex_string t \<Longrightarrow> s = t"
  proof (induction s arbitrary: t)
    case Nil
    then show ?case by (cases t) (simp_all add: hex_string_def)
  next
    case (Cons c s)
    then show ?case by (cases t) (auto simp: hex_string_def intro: hex_digits_inject)
  qed
qed simp

lemma length_hex_string: "length (hex_string s) = 2 * length s"
  by (induction s) (simp_all add: hex_string_def)

section \<open>The loop over spaces\<close>

lemma collapse_rounds:
  "\<exists>n \<le> length s. collapse_spaces s = ((\<lambda>v. ReplaceAll v ''  '' '' '') ^^ n) s
     \<and> list_all (\<lambda>m. Contains (((\<lambda>v. ReplaceAll v ''  '' '' '') ^^ m) s) ''  '') [0..<n]"
proof (induction s rule: collapse_spaces.induct)
  case (1 s)
  let ?f = "\<lambda>v. ReplaceAll v ''  '' '' ''"
  show ?case
  proof (cases "Contains s ''  ''")
    case True
    from 1 [OF True] obtain n where n: "n \<le> length (?f s)" "collapse_spaces (?f s) = (?f ^^ n) (?f s)"
      "list_all (\<lambda>m. Contains ((?f ^^ m) (?f s)) ''  '') [0..<n]" by blast
    have "length (?f s) < length s" using True by (simp add: length_ReplaceAll)
    then have "Suc n \<le> length s" using n(1) by simp
    moreover have "collapse_spaces s = (?f ^^ Suc n) s"
      using n(2) True by (subst collapse_spaces.simps) (simp only: if_True funpow_Suc_right comp_def)
    moreover have "list_all (\<lambda>m. Contains ((?f ^^ m) s) ''  '') [0..<Suc n]"
      unfolding list_all_iff
    proof
      fix m assume m: "m \<in> set [0..<Suc n]"
      show "Contains ((?f ^^ m) s) ''  ''"
      proof (cases m)
        case (Suc k)
        then have "k < n" using m by auto
        then show ?thesis using n(3) by (simp add: Suc list_all_iff funpow_Suc_right del: funpow.simps(2))
      qed (simp add: True)
    qed
    ultimately show ?thesis by blast
  next
    case False
    then have "collapse_spaces s = s" by (subst collapse_spaces.simps) simp
    then show ?thesis by (intro exI [of _ 0]) simp
  qed
qed

lemma length_TrimSpace: "length (TrimSpace s) \<le> length s"
proof -
  let ?p = "\<lambda>(r, bs). IsSpace r" and ?l = "\<lambda>xs. sum_list (map (length \<circ> snd) xs)"
  have drop: "?l (dropWhile ?p xs) \<le> ?l xs" for xs by (induction xs) auto
  have rev: "?l (rev xs) = ?l xs" for xs by (induction xs) auto
  have "length (TrimSpace s) = ?l (dropWhile ?p (rev (dropWhile ?p (runes s))))"
    by (simp add: TrimSpace_def length_concat comp_def rev_map [symmetric] sum_list_rev)
  also have "\<dots> \<le> ?l (rev (dropWhile ?p (runes s)))" by (rule drop)
  also have "\<dots> \<le> ?l (runes s)" unfolding rev by (rule drop)
  also have "\<dots> = length (concat (map snd (runes s)))" by (simp add: length_concat comp_def)
  finally show ?thesis by (simp add: concat_runes)
qed

text \<open>
  C26. The loop of \<^verbatim>\<open>canonicalHeaderValue\<close> ends: after at most as many rounds as the value has bytes, each of
  which finds two spaces in a row, it leaves a value with one space for every run of spaces and the
  space at the ends removed.
\<close>

theorem canonicalHeaderValue_loop_ends:
  "(\<exists>n \<le> length v. canonicalHeaderValue v = ((\<lambda>v. ReplaceAll v ''  '' '' '') ^^ n) (TrimSpace v)
      \<and> list_all (\<lambda>m. Contains (((\<lambda>v. ReplaceAll v ''  '' '' '') ^^ m) (TrimSpace v)) ''  '') [0..<n])
   \<and> canonicalHeaderValue v = squeeze (TrimSpace v) \<and> \<not> Contains (canonicalHeaderValue v) ''  ''"
  using collapse_rounds [of "TrimSpace v"] length_TrimSpace [of v]
  by (auto simp: canonicalHeaderValue_def collapse_spaces_squeeze squeeze_no_double dest: order_trans)

end
