(* ===== verification/Go_Net.thy ===== *)
theory Go_Net
  imports Go_Strings
begin

text \<open>
  The functions of Go's \<^verbatim>\<open>net\<close> package that the program calls: whether a string is an IP
  address (\<^verbatim>\<open>net.ParseIP(s) != nil\<close>) and the split of a host and port.
\<close>

section \<open>IP addresses\<close>

definition ipv4_octet :: "string \<Rightarrow> bool" where
  "ipv4_octet s =
     (s \<noteq> [] \<and> list_all is_digit s \<and> (length s = 1 \<or> hd s \<noteq> CHR ''0'') \<and> digits_value s \<le> 255)"

definition parseIPv4 :: "string \<Rightarrow> bool" where
  "parseIPv4 s = (let parts = Split s ''.'' in length parts = 4 \<and> list_all ipv4_octet parts)"

definition is_hex :: "char \<Rightarrow> bool" where
  "is_hex c =
     (is_digit c \<or> (97 \<le> byte c \<and> byte c \<le> 102) \<or> (65 \<le> byte c \<and> byte c \<le> 70))"

text \<open>
  The groups of an IPv6 address: how many more 16-bit groups fit, whether \<^verbatim>\<open>::\<close> has been
  read, and the rest of the text. At the end \<^verbatim>\<open>::\<close> must stand for at least one group.
\<close>

definition ipv6_end :: "nat \<Rightarrow> bool \<Rightarrow> bool" where
  "ipv6_end room ellipsis = (if 0 < room then ellipsis else \<not> ellipsis)"

fun ipv6_groups :: "nat \<Rightarrow> bool \<Rightarrow> string \<Rightarrow> bool" where
  "ipv6_groups 0 ellipsis s = (s = [] \<and> \<not> ellipsis)"
| "ipv6_groups (Suc room) ellipsis s =
     (let hex = takeWhile is_hex s; rest = dropWhile is_hex s in
      if 4 < length hex \<or> hex = [] then False
      else case rest of
             [] \<Rightarrow> ipv6_end room ellipsis
           | c # s1 \<Rightarrow>
               if c = CHR ''.'' then
                 (if \<not> ellipsis \<and> Suc room \<noteq> 2 then False
                  else if Suc room < 2 then False
                  else parseIPv4 s \<and> ipv6_end (Suc room - 2) ellipsis)
               else if c \<noteq> CHR '':'' then False
               else (case s1 of
                       [] \<Rightarrow> False
                     | d # s2 \<Rightarrow>
                         if d = CHR '':'' then
                           (if ellipsis then False
                            else if s2 = [] then ipv6_end room True
                            else ipv6_groups room True s2)
                         else ipv6_groups room ellipsis s1))"

definition parseIPv6 :: "string \<Rightarrow> bool" where
  "parseIPv6 s =
     (if HasPrefix s ''::'' then (if length s = 2 then True else ipv6_groups 8 True (drop 2 s))
      else ipv6_groups 8 False s)"

text \<open>
  The first of the characters dot, colon and percent decides the form. An address with a
  zone is no \<^verbatim>\<open>net.IP\<close>.
\<close>

definition ParseIP :: "string \<Rightarrow> bool" where
  "ParseIP s =
     (case dropWhile (\<lambda>c. c \<notin> set [CHR ''.'', CHR '':'', CHR ''%'']) s of
        [] \<Rightarrow> False
      | c # _ \<Rightarrow>
          if c = CHR ''.'' then parseIPv4 s
          else if c = CHR '':'' then CHR ''%'' \<notin> set s \<and> parseIPv6 s
          else False)"

section \<open>Host and port\<close>

text \<open>The parts before and after the last occurrence of a character.\<close>

definition cut_last :: "char \<Rightarrow> string \<Rightarrow> (string \<times> string) option" where
  "cut_last c s =
     (case Cut (rev s) [c] of None \<Rightarrow> None | Some (a, b) \<Rightarrow> Some (rev b, rev a))"

definition SplitHostPort :: "string \<Rightarrow> (string \<times> string) option" where
  "SplitHostPort hostport =
     (case cut_last (CHR '':'') hostport of
        None \<Rightarrow> None
      | Some (pre, port) \<Rightarrow>
          if hd hostport = CHR ''['' then
            (case Cut hostport '']'' of
               None \<Rightarrow> None
             | Some (a, _) \<Rightarrow>
                 if length a + 1 \<noteq> length pre then None
                 else if CHR ''['' \<in> set (drop 1 hostport) then None
                 else if CHR '']'' \<in> set port then None
                 else Some (drop 1 a, port))
          else if CHR '':'' \<in> set pre then None
          else if CHR ''['' \<in> set hostport then None
          else if CHR '']'' \<in> set hostport then None
          else Some (pre, port))"

section \<open>Facts\<close>

lemma cut_last_Some: "cut_last c s = Some (a, b) \<longleftrightarrow> s = a @ c # b \<and> c \<notin> set b"
proof
  assume "cut_last c s = Some (a, b)"
  then have "Cut (rev s) [c] = Some (rev b, rev a)"
    by (auto simp: cut_last_def split: option.splits)
  then have "rev s = rev b @ c # rev a \<and> c \<notin> set b" by (simp add: Cut_char_Some)
  then show "s = a @ c # b \<and> c \<notin> set b"
    by (metis append.assoc append_Cons append_Nil rev.simps(2) rev_append rev_rev_ident)
next
  assume "s = a @ c # b \<and> c \<notin> set b"
  then have "Cut (rev s) [c] = Some (rev b, rev a)" by (simp add: Cut_char_Some)
  then show "cut_last c s = Some (a, b)" by (simp add: cut_last_def)
qed

text \<open>A host without a colon or brackets and a port are taken apart again.\<close>

lemma SplitHostPort_join:
  assumes "set host \<inter> {CHR '':'', CHR ''['', CHR '']''} = {}"
    and "set port \<inter> {CHR '':'', CHR ''['', CHR '']''} = {}"
  shows "SplitHostPort (host @ '':'' @ port) = Some (host, port)"
proof -
  have "cut_last (CHR '':'') (host @ '':'' @ port) = Some (host, port)"
    using assms by (simp add: cut_last_Some)
  moreover have "hd (host @ '':'' @ port) \<noteq> CHR ''[''"
    using assms by (cases host) auto
  ultimately show ?thesis using assms by (auto simp: SplitHostPort_def)
qed

end
