(* ===== verification/Go_URL_Parse.thy ===== *)
theory Go_URL_Parse
  imports Go_URL Go_Net
begin

text \<open>
  Parsing and printing of URLs in \<^verbatim>\<open>net/url\<close>: \<^verbatim>\<open>url.Parse\<close>, \<^verbatim>\<open>url.ParseRequestURI\<close>, and the methods
  \<^verbatim>\<open>String\<close>, \<^verbatim>\<open>Hostname\<close> and \<^verbatim>\<open>Port\<close>. Of the user information it is recorded whether there is any, which
  is all the program asks.
\<close>

record parsed_url = go_url +
  u_User :: bool
  u_Opaque :: string
  u_ForceQuery :: bool
  u_Fragment :: string
  u_OmitHost :: bool

section \<open>Hosts\<close>

definition hostEscape :: "char \<Rightarrow> bool" where
  "hostEscape c = (\<not> (unreserved c \<or> c \<in> set ''!$&()*+,;=:[]<>'' \<or> byte c = 39 \<or> byte c = 34))"

definition host_escape :: "string \<Rightarrow> string" where
  "host_escape s = concat (map (\<lambda>c. if hostEscape c then percent c else [c]) s)"

text \<open>
  In a host a percent sign may only introduce a byte that is not ASCII, or \<^verbatim>\<open>%25\<close>; in the zone of an
  IPv6 address also a space or what needs no escape.
\<close>

fun host_unescape :: "bool \<Rightarrow> string \<Rightarrow> string option" where
  "host_unescape zone [] = Some []"
| "host_unescape zone (c # cs) =
     (if c = CHR ''%'' then
        (case cs of
           a # b # rest \<Rightarrow>
             let v = char_of (16 * unhex a + unhex b) in
             if ishex a \<and> ishex b
                \<and> (a = CHR ''2'' \<and> b = CHR ''5''
                   \<or> (if zone then v = CHR '' '' \<or> \<not> hostEscape v else 8 \<le> unhex a))
             then map_option (Cons v) (host_unescape zone rest) else None
         | _ \<Rightarrow> None)
      else if byte c < 128 \<and> hostEscape c then None
      else map_option (Cons c) (host_unescape zone cs))"

definition validOptionalPort :: "string \<Rightarrow> bool" where
  "validOptionalPort port = (case port of [] \<Rightarrow> True | c # ds \<Rightarrow> c = CHR '':'' \<and> list_all is_digit ds)"

text \<open>\<^verbatim>\<open>netip.ParseAddr\<close> on the text between brackets: an IPv6 address, with a zone or without.\<close>

definition ipv6_literal :: "string \<Rightarrow> bool" where
  "ipv6_literal s =
     (case dropWhile (\<lambda>c. c \<notin> set [CHR ''.'', CHR '':'', CHR ''%'']) s of
        [] \<Rightarrow> False
      | c # _ \<Rightarrow>
          c = CHR '':'' \<and>
          (case Cut s ''%'' of None \<Rightarrow> parseIPv6 s | Some (a, z) \<Rightarrow> z \<noteq> [] \<and> parseIPv6 a))"

definition parse_literal :: "string \<Rightarrow> string option" where
  "parse_literal hostname =
     (let parts = (case Cut hostname ''%25'' of None \<Rightarrow> (hostname, []) | Some (a, b) \<Rightarrow> (a, ''%25'' @ b)) in
      case (host_unescape False (fst parts), host_unescape True (snd parts)) of
        (Some a, Some b) \<Rightarrow> if ipv6_literal (a @ b) then Some (a @ b) else None
      | _ \<Rightarrow> None)"

text \<open>
  A host is an IP literal in brackets or a name, each with an optional port; the first colon of a name
  begins the port.
\<close>

definition parseHost :: "string \<Rightarrow> string option" where
  "parseHost host =
     (if CHR ''['' \<in> set host then
        (if hd host \<noteq> CHR ''['' \<or> CHR ''['' \<in> set (tl host) then None
         else case cut_last (CHR '']'') host of
                None \<Rightarrow> None
              | Some (pre, colonPort) \<Rightarrow>
                  if \<not> validOptionalPort colonPort then None
                  else case (parse_literal (tl pre), host_unescape False colonPort) of
                         (Some h, Some p) \<Rightarrow> Some (''['' @ h @ '']'' @ p)
                       | _ \<Rightarrow> None)
      else if CHR '':'' \<in> set host \<and> \<not> validOptionalPort (dropWhile (\<lambda>c. c \<noteq> CHR '':'') host) then None
      else host_unescape False host)"

definition validUserinfo :: "string \<Rightarrow> bool" where
  "validUserinfo s =
     list_all (\<lambda>c. 65 \<le> byte c \<and> byte c \<le> 90 \<or> 97 \<le> byte c \<and> byte c \<le> 122 \<or> is_digit c
       \<or> c \<in> set ''-._:~!$&()*+,;=%@'' \<or> byte c = 39) s"

definition parseAuthority :: "string \<Rightarrow> (bool \<times> string) option" where
  "parseAuthority authority =
     (case cut_last (CHR ''@'') authority of
        None \<Rightarrow> map_option (Pair False) (parseHost authority)
      | Some (userinfo, host) \<Rightarrow>
          (case parseHost host of
             None \<Rightarrow> None
           | Some h \<Rightarrow> if validUserinfo userinfo \<and> unescape encodePath userinfo \<noteq> None then Some (True, h) else None))"

section \<open>Parse\<close>

fun scheme_from :: "string \<Rightarrow> string \<Rightarrow> (string \<times> string) option" where
  "scheme_from acc [] = Some ([], rev acc)"
| "scheme_from acc (c # cs) =
     (if 97 \<le> byte c \<and> byte c \<le> 122 \<or> 65 \<le> byte c \<and> byte c \<le> 90
         \<or> acc \<noteq> [] \<and> (is_digit c \<or> c \<in> set ''+-.'') then scheme_from (c # acc) cs
      else if c = CHR '':'' then (if acc = [] then None else Some (rev acc, cs))
      else Some ([], rev acc @ c # cs))"

definition getScheme :: "string \<Rightarrow> (string \<times> string) option" where
  "getScheme rawURL = scheme_from [] rawURL"

definition ctl_byte :: "char \<Rightarrow> bool" where
  "ctl_byte c = (byte c < 32 \<or> byte c = 127)"

definition setPath :: "parsed_url \<Rightarrow> string \<Rightarrow> parsed_url option" where
  "setPath u p =
     (case unescape encodePath p of
        None \<Rightarrow> None
      | Some path \<Rightarrow> Some (u\<lparr>u_Path := path, u_RawPath := (if p = escape encodePath path then [] else p)\<rparr>))"

definition empty_url :: parsed_url where
  "empty_url =
     \<lparr>u_Scheme = [], u_Host = [], u_Path = [], u_RawPath = [], u_RawQuery = [], u_User = False, u_Opaque = [],
      u_ForceQuery = False, u_Fragment = [], u_OmitHost = False\<rparr>"

definition cut_query :: "string \<Rightarrow> string \<times> bool \<times> string" where
  "cut_query rest =
     (if HasSuffix rest ''?'' \<and> length (filter (\<lambda>c. c = CHR ''?'') rest) = 1 then (butlast rest, True, [])
      else case Cut rest ''?'' of None \<Rightarrow> (rest, False, []) | Some (r, q) \<Rightarrow> (r, False, q))"

definition url_parse :: "string \<Rightarrow> bool \<Rightarrow> parsed_url option" where
  "url_parse rawURL viaRequest =
     (if list_ex ctl_byte rawURL \<or> rawURL = [] \<and> viaRequest then None
      else if rawURL = ''*'' then Some (empty_url\<lparr>u_Path := ''*''\<rparr>)
      else case getScheme rawURL of
        None \<Rightarrow> None
      | Some (scheme, rest0) \<Rightarrow>
          (case cut_query rest0 of (rest, force, query) \<Rightarrow>
             let u = empty_url\<lparr>u_Scheme := ToLower scheme, u_ForceQuery := force, u_RawQuery := query\<rparr> in
             if \<not> HasPrefix rest ''/'' \<and> scheme \<noteq> [] then Some (u\<lparr>u_Opaque := rest\<rparr>)
             else if \<not> HasPrefix rest ''/'' \<and> (viaRequest \<or> CHR '':'' \<in> set (takeWhile (\<lambda>c. c \<noteq> CHR ''/'') rest)) then None
             else if (scheme \<noteq> [] \<or> \<not> viaRequest \<and> \<not> HasPrefix rest ''///'') \<and> HasPrefix rest ''//'' then
               (let auth = takeWhile (\<lambda>c. c \<noteq> CHR ''/'') (drop 2 rest); path = dropWhile (\<lambda>c. c \<noteq> CHR ''/'') (drop 2 rest) in
                case parseAuthority auth of
                  None \<Rightarrow> None
                | Some (user, host) \<Rightarrow> setPath (u\<lparr>u_User := user, u_Host := host\<rparr>) path)
             else setPath (u\<lparr>u_OmitHost := (scheme \<noteq> [] \<and> HasPrefix rest ''/'')\<rparr>) rest))"

definition url_Parse :: "string \<Rightarrow> parsed_url option" where
  "url_Parse rawURL =
     (let (u, frag) = (case Cut rawURL ''#'' of None \<Rightarrow> (rawURL, []) | Some uf \<Rightarrow> uf) in
      case url_parse u False of
        None \<Rightarrow> None
      | Some url \<Rightarrow>
          if frag = [] then Some url
          else map_option (\<lambda>f. url\<lparr>u_Fragment := f\<rparr>) (unescape encodePath frag))"

definition ParseRequestURI :: "string \<Rightarrow> parsed_url option" where
  "ParseRequestURI rawURL = url_parse rawURL True"

section \<open>Methods\<close>

definition splitHostPort :: "string \<Rightarrow> string \<times> string" where
  "splitHostPort hostPort =
     (let (host, port) =
        (case cut_last (CHR '':'') hostPort of
           None \<Rightarrow> (hostPort, [])
         | Some (h, p) \<Rightarrow> if validOptionalPort (CHR '':'' # p) then (h, p) else (hostPort, []))
      in (if HasPrefix host ''['' \<and> HasSuffix host '']'' then butlast (tl host) else host, port))"

definition url_Hostname :: "parsed_url \<Rightarrow> string" where
  "url_Hostname u = fst (splitHostPort (u_Host u))"

definition url_Port :: "parsed_url \<Rightarrow> string" where
  "url_Port u = snd (splitHostPort (u_Host u))"

text \<open>\<^verbatim>\<open>String\<close> of a URL with a scheme and a host and without user information, opaque part and fragment.\<close>

definition url_String :: "parsed_url \<Rightarrow> string" where
  "url_String u =
     u_Scheme u @ ''://'' @ host_escape (u_Host u)
     @ (if EscapedPath (go_url.truncate u) \<noteq> [] \<and> hd (EscapedPath (go_url.truncate u)) \<noteq> CHR ''/'' then ''/'' else [])
     @ EscapedPath (go_url.truncate u)
     @ (if u_ForceQuery u \<or> u_RawQuery u \<noteq> [] then ''?'' @ u_RawQuery u else [])"

section \<open>Plain hosts\<close>

text \<open>A host in ASCII without percent signs is read and written as it is.\<close>

definition host_char :: "char \<Rightarrow> bool" where
  "host_char c = (byte c < 128 \<and> \<not> hostEscape c)"

abbreviation plain_text :: "string \<Rightarrow> bool" where
  "plain_text s \<equiv> is_ascii s \<and> CHR ''%'' \<notin> set s"

lemma host_unescape_plain: "plain_text s \<Longrightarrow> host_unescape zone s = Some h \<longleftrightarrow> h = s \<and> list_all host_char s"
  by (induction s arbitrary: h) (auto simp: host_char_def split: if_splits)

lemma host_escape_plain: "list_all host_char s \<Longrightarrow> host_escape s = s"
  by (induction s) (auto simp: host_escape_def host_char_def)

lemma host_char_plain:
  assumes "host_char c"
  shows "c \<noteq> CHR ''/'' \<and> c \<noteq> CHR ''?'' \<and> c \<noteq> CHR ''#'' \<and> c \<noteq> CHR ''@'' \<and> 33 \<le> byte c \<and> byte c < 127"
proof -
  have "unreserved c \<or> c \<in> set ''!$&()*+,;=:[]<>'' \<or> byte c = 39 \<or> byte c = 34"
    using assms by (simp only: host_char_def hostEscape_def) blast
  then consider "unreserved c" | "c \<in> set ''!$&()*+,;=:[]<>''" | "byte c = 39 \<or> byte c = 34" by blast
  then show ?thesis
    by cases (auto simp: unreserved_def Let_def byte_def)
qed

lemma parse_literal_plain:
  assumes "plain_text s" "parse_literal s = Some h"
  shows "h = s \<and> list_all host_char s"
proof -
  have "Cut s ''%25'' = None" using assms(1) by (cases "Cut s ''%25''") (auto dest: Cut_Some)
  then show ?thesis
    using assms by (auto simp: parse_literal_def host_unescape_plain split: option.splits if_splits)
qed

lemma parseHost_plain:
  assumes "plain_text s" "parseHost s = Some h"
  shows "h = s \<and> list_all host_char s"
proof (cases "CHR ''['' \<in> set s")
  case False
  then show ?thesis using assms by (simp add: parseHost_def host_unescape_plain split: if_splits)
next
  case True
  with assms(2) obtain pre port l p where cut: "cut_last (CHR '']'') s = Some (pre, port)" and hd: "hd s = CHR ''[''"
    and parts: "parse_literal (tl pre) = Some l" "host_unescape False port = Some p" and h: "h = ''['' @ l @ '']'' @ p"
    by (auto simp: parseHost_def split: if_splits option.splits)
  from cut have s: "s = pre @ CHR '']'' # port" by (simp add: cut_last_Some)
  with hd obtain q where pre: "pre = CHR ''['' # q" by (cases pre) auto
  have "plain_text q" "plain_text port" using assms(1) by (auto simp: s pre)
  then have "l = q \<and> list_all host_char q" "p = port \<and> list_all host_char port"
    using parts parse_literal_plain [of q l] by (simp_all add: pre host_unescape_plain)
  moreover have "host_char (CHR ''['')" "host_char (CHR '']'')" by code_simp+
  ultimately show ?thesis by (simp add: h s pre)
qed

lemma scheme_http:
  assumes "scheme = ''http'' \<or> scheme = ''https''"
  shows "getScheme (scheme @ '':'' @ rest) = Some (scheme, rest)" "ToLower scheme = scheme" "list_all host_char scheme"
proof -
  show "getScheme (scheme @ '':'' @ rest) = Some (scheme, rest)"
    using assms by (auto simp: getScheme_def byte_def is_digit_def)
  have "ToLower ''http'' = ''http''" "ToLower ''https'' = ''https''" by code_simp+
  then show "ToLower scheme = scheme" using assms by auto
  have "list_all host_char ''http''" "list_all host_char ''https''" by code_simp+
  then show "list_all host_char scheme" using assms by auto
qed

lemma escape_path_char: "x \<in> set (escape encodePath s) \<Longrightarrow> x \<noteq> CHR ''?'' \<and> x \<noteq> CHR ''#'' \<and> \<not> ctl_byte x"
proof -
  assume "x \<in> set (escape encodePath s)"
  then obtain c where "x \<in> set (escape_char encodePath c)" by (auto simp: escape_def)
  from escape_char_chars [OF this] consider "x = CHR ''%'' \<or> x = CHR ''+''" | "ishex x" | "\<not> shouldEscape encodePath x" by blast
  then show ?thesis
  proof cases
    case 3
    then consider "unreserved x" | "x \<in> set ''$&+,/:;=@''" by (auto simp: shouldEscape_def split: if_splits)
    then show ?thesis by cases (auto simp: unreserved_def Let_def byte_def ctl_byte_def)
  qed (auto simp: ishex_def Let_def byte_def ctl_byte_def)
qed

lemma cut_query_plain:
  assumes "CHR ''?'' \<notin> set s"
  shows "cut_query s = (s, False, [])" "CHR ''?'' \<notin> set q \<Longrightarrow> q \<noteq> [] \<Longrightarrow> cut_query (s @ CHR ''?'' # q) = (s, False, q)"
proof -
  have "\<not> HasSuffix s ''?''" using assms unfolding HasSuffix_iff by (metis in_set_conv_decomp)
  then show "cut_query s = (s, False, [])"
    unfolding cut_query_def Cut_char_None [THEN iffD2, OF assms] by simp
  assume q: "CHR ''?'' \<notin> set q" "q \<noteq> []"
  have "last (s @ CHR ''?'' # q) \<noteq> CHR ''?''" using q by (metis last_appendR last_ConsR last_in_set list.discI)
  then have "\<not> HasSuffix (s @ CHR ''?'' # q) ''?''" unfolding HasSuffix_iff by (metis last_snoc)
  then show "cut_query (s @ CHR ''?'' # q) = (s, False, q)"
    unfolding cut_query_def using Cut_char [OF assms, of q] by simp
qed

text \<open>What \<^verbatim>\<open>String\<close> prints of a plain host, a rooted path and an encoded query is read back.\<close>

lemma url_Parse_printed:
  assumes "scheme = ''http'' \<or> scheme = ''https''" "list_all host_char host" "path = [] \<or> hd path = CHR ''/''"
    and "CHR ''?'' \<notin> set query" "CHR ''#'' \<notin> set query" "\<not> list_ex ctl_byte query"
  shows "url_Parse (scheme @ ''://'' @ host @ escape encodePath path @ (if query \<noteq> [] then ''?'' @ query else [])) =
    map_option (\<lambda>h. empty_url\<lparr>u_Scheme := scheme, u_Host := h, u_Path := path, u_RawQuery := query\<rparr>) (parseHost host)"
proof -
  let ?E = "escape encodePath path" and ?q = "if query \<noteq> [] then ''?'' @ query else []"
  let ?s = "scheme @ ''://'' @ host @ ?E @ ?q"
  have free: "CHR ''#'' \<notin> set host" "CHR ''?'' \<notin> set host" "CHR ''/'' \<notin> set host" "CHR ''@'' \<notin> set host"
    "\<not> list_ex ctl_byte host" "\<not> list_ex ctl_byte scheme" "CHR ''#'' \<notin> set scheme"
    using assms(2) scheme_http(3) [OF assms(1)] host_char_plain by (force simp: list_all_iff list_ex_iff ctl_byte_def)+
  have E: "CHR ''#'' \<notin> set ?E" "CHR ''?'' \<notin> set ?E" "\<not> list_ex ctl_byte ?E"
    using escape_path_char by (auto simp: list_ex_iff)
  have "CHR ''#'' \<notin> set ?s" using free(1,7) E(1) assms(5) by auto
  then have frag: "Cut ?s ''#'' = None" by (rule Cut_char_None [THEN iffD2])
  have q: "CHR ''?'' \<notin> set (''//'' @ host @ ?E)" using free(2) E(2) by simp
  have query: "cut_query (''//'' @ host @ ?E @ ?q) = (''//'' @ host @ ?E, False, query)"
    using cut_query_plain(1) [OF q] cut_query_plain(2) [OF q assms(4)] by (cases "query = []") simp_all
  have E_hd: "?E = [] \<or> hd ?E = CHR ''/''"
    using assms(3) by (cases path) (auto simp: escape_def escape_char_def shouldEscape_def unreserved_def byte_def)
  then have slash: "takeWhile (\<lambda>c. c \<noteq> CHR ''/'') (host @ ?E) = host" "dropWhile (\<lambda>c. c \<noteq> CHR ''/'') (host @ ?E) = ?E"
    using free(3) by (cases ?E; force simp: takeWhile_append dropWhile_append3)+
  have "cut_last (CHR ''@'') host = None"
    using free(4) by (cases "cut_last (CHR ''@'') host") (auto simp: cut_last_Some)
  then have auth: "parseAuthority (takeWhile (\<lambda>c. c \<noteq> CHR ''/'') (host @ ?E)) = map_option (\<lambda>h. (False, h)) (parseHost host)"
    unfolding slash(1) parseAuthority_def by (simp split: option.splits)
  have scheme: "getScheme ?s = Some (scheme, ''//'' @ host @ ?E @ ?q)"
    using scheme_http(1) [OF assms(1), of "''//'' @ host @ ?E @ ?q"] by simp
  have bytes: "\<not> list_ex ctl_byte ?s" using free(5,6) E(3) assms(6) by (auto simp: ctl_byte_def byte_def)
  have nonempty: "scheme \<noteq> []" "?s \<noteq> ''*''" using assms(1) by auto
  have set_path: "setPath u ?E = Some (u\<lparr>u_Path := path, u_RawPath := []\<rparr>)" for u
    by (simp add: setPath_def unescape_escape)
  have drop: "drop 2 (''//'' @ r) = r" "HasPrefix (''//'' @ r) ''/''" "HasPrefix (''//'' @ r) ''//''" for r :: string
    by (simp_all add: HasPrefix_def)
  have "url_parse ?s False =
    map_option (\<lambda>h. empty_url\<lparr>u_Scheme := scheme, u_Host := h, u_Path := path, u_RawQuery := query\<rparr>) (parseHost host)"
    unfolding url_parse_def scheme option.case query prod.case Let_def drop slash(2) auth set_path scheme_http(2) [OF assms(1)]
    using bytes nonempty by (cases "parseHost host") (simp_all add: empty_url_def HasPrefix_def)
  then show ?thesis unfolding url_Parse_def frag by (simp add: Let_def map_option_case del: append.simps split: option.splits)
qed

lemma url_Parse_plain:
  assumes "scheme = ''http'' \<or> scheme = ''https''" "list_all host_char host" "parseHost host = Some host"
  shows "url_Parse (scheme @ ''://'' @ host) = Some (empty_url\<lparr>u_Scheme := scheme, u_Host := host\<rparr>)"
  using url_Parse_printed [OF assms(1,2), of "[]" "[]"] assms(3) by (simp add: escape_def empty_url_def)

text \<open>The host of a plain URL is a part of its text that parses to itself.\<close>

lemma cut_query_chars: "cut_query s = (r, f, q) \<Longrightarrow> set r \<subseteq> set s"
  by (auto simp: cut_query_def split: if_splits option.splits dest: Cut_Some in_set_butlastD)

lemma scheme_from_chars: "scheme_from acc s = Some (a, b) \<Longrightarrow> set b \<subseteq> set acc \<union> set s"
proof (induction s arbitrary: acc)
  case (Cons c s)
  show ?case using Cons.prems Cons.IH [of "c # acc"] by (simp split: if_splits) auto
qed auto

lemma setPath_host: "setPath u p = Some v \<Longrightarrow> u_Host v = u_Host u \<and> u_User v = u_User u"
  by (auto simp: setPath_def split: option.splits)

lemma plain_subset: "plain_text s \<Longrightarrow> set t \<subseteq> set s \<Longrightarrow> plain_text t"
  by (auto simp: is_ascii_def list_all_iff)

lemma parseAuthority_plain:
  assumes "plain_text auth" "parseAuthority auth = Some (False, h)"
  shows "list_all host_char h \<and> parseHost h = Some h"
proof -
  have h: "parseHost auth = Some h" using assms(2) by (auto simp: parseAuthority_def split: option.splits if_splits)
  from parseHost_plain [OF assms(1) this] h show ?thesis by simp
qed

lemma url_parse_host:
  assumes "plain_text s" "url_parse s viaRequest = Some u" "u_Host u \<noteq> []" "\<not> u_User u"
  shows "list_all host_char (u_Host u) \<and> parseHost (u_Host u) = Some (u_Host u)"
proof -
  from assms(2,3) obtain scheme rest0 rest force query auth where r: "getScheme s = Some (scheme, rest0)"
    "cut_query rest0 = (rest, force, query)" "auth = takeWhile (\<lambda>c. c \<noteq> CHR ''/'') (drop 2 rest)"
    and a: "parseAuthority auth = Some (u_User u, u_Host u)"
    by (auto simp: url_parse_def Let_def empty_url_def split: if_splits option.splits prod.splits dest!: setPath_host)
  have "set auth \<subseteq> set rest" unfolding r(3) by (auto dest!: set_takeWhileD in_set_dropD)
  moreover have "set rest \<subseteq> set rest0" by (rule cut_query_chars [OF r(2)])
  moreover have "set rest0 \<subseteq> set s" using scheme_from_chars [of "[]" s] r(1) by (simp add: getScheme_def)
  ultimately have "plain_text auth" using plain_subset [OF assms(1)] by blast
  then show ?thesis using parseAuthority_plain a assms(4) by simp
qed

lemma url_Parse_host:
  assumes "plain_text s" "url_Parse s = Some u" "u_Host u \<noteq> []" "\<not> u_User u"
  shows "list_all host_char (u_Host u) \<and> parseHost (u_Host u) = Some (u_Host u)"
proof -
  obtain t frag where t: "(t, frag) = (case Cut s ''#'' of None \<Rightarrow> (s, []) | Some uf \<Rightarrow> uf)"
    by (metis surj_pair)
  then have sub: "set t \<subseteq> set s" by (auto split: option.splits dest: Cut_Some)
  from assms(2) t obtain v where v: "url_parse t False = Some v" "u_Host v = u_Host u" "u_User v = u_User u"
    unfolding url_Parse_def Let_def t [symmetric] by (auto split: option.splits if_splits)
  show ?thesis using url_parse_host [OF plain_subset [OF assms(1) sub] v(1)] v(2,3) assms(3,4) by simp
qed

end
