(* ===== verification/VBucket.thy ===== *)
theory VBucket
  imports S3_Token S3_Signature Go_URL_Parse
begin

text \<open>
  Mappings of virtual buckets as in \<^verbatim>\<open>vbucket.go\<close>: their validation and normal form, and how a request
  names a bucket and an object key, by its host or by its path. \<^verbatim>\<open>Clone\<close> is the identity on values.
  The lemmas: what a normalized mapping satisfies, that normalization is idempotent, and that both ways
  to address an object agree.
\<close>

section \<open>Names\<close>

definition lower_alnum :: "char \<Rightarrow> bool" where
  "lower_alnum c = (97 \<le> byte c \<and> byte c \<le> 122 \<or> is_digit c)"

definition bucketNamePattern :: "string \<Rightarrow> bool" where
  "bucketNamePattern s =
     (3 \<le> length s \<and> length s \<le> 63 \<and> lower_alnum (hd s) \<and> lower_alnum (last s)
      \<and> list_all (\<lambda>c. lower_alnum c \<or> c = CHR ''.'' \<or> c = CHR ''-'') s)"

definition isValidBucketName :: "string \<Rightarrow> bool" where
  "isValidBucketName bucket =
     (bucketNamePattern bucket \<and> \<not> Contains bucket ''..'' \<and> \<not> Contains bucket ''.-'' \<and> \<not> Contains bucket ''-.'')"

definition region_char :: "char \<Rightarrow> bool" where
  "region_char c = (65 \<le> byte c \<and> byte c \<le> 90 \<or> lower_alnum c \<or> c = CHR ''-'')"

definition backendRegionPattern :: "string \<Rightarrow> bool" where
  "backendRegionPattern s = (1 \<le> length s \<and> length s \<le> 64 \<and> list_all region_char s)"

definition printableASCII :: "string \<Rightarrow> bool" where
  "printableASCII v = (v \<noteq> [] \<and> list_all (\<lambda>r. 0x21 \<le> r \<and> r \<le> 0x7e) (rune_list v))"

definition noASCIIControls :: "string \<Rightarrow> bool" where
  "noASCIIControls v = (ValidString v \<and> \<not> list_ex IsControl (rune_list v))"

section \<open>Normalization\<close>

datatype mapping_error =
    MappingMissing | MappingKeyLength | EndpointMissing | EndpointUnparsable | EndpointNotAbsolute | EndpointNotPlain
  | EndpointHostInvalid | EndpointNeedsPathStyle | EndpointPortRange | EndpointPortEmpty | MappingBucket | MappingCredentials
  | MappingRegion | MappingPrefix | MappingCodec

definition endpointPort :: "parsed_url \<Rightarrow> mapping_error + unit" where
  "endpointPort u =
     (if url_Port u \<noteq> [] then
        (case Atoi (url_Port u) of
           None \<Rightarrow> Inl EndpointPortRange
         | Some n \<Rightarrow> guardE (1 \<le> n \<and> n \<le> 65535) EndpointPortRange)
      else guardE (\<not> HasSuffix (u_Host u) '':'') EndpointPortEmpty)"

definition normalizeEndpoint :: "bool \<Rightarrow> string \<Rightarrow> mapping_error + string" where
  "normalizeEndpoint pathStyle raw =
     (let trimmed = TrimSpace raw; endpoint = (if Contains trimmed ''://'' then trimmed else ''https://'' @ trimmed) in
      bindE (guardE (trimmed \<noteq> []) EndpointMissing) (\<lambda>_.
      bindE (of_option EndpointUnparsable (url_Parse endpoint)) (\<lambda>u.
      bindE (guardE ((u_Scheme u = ''http'' \<or> u_Scheme u = ''https'') \<and> u_Host u \<noteq> [] \<and> url_Hostname u \<noteq> []) EndpointNotAbsolute) (\<lambda>_.
      bindE (guardE (\<not> (u_User u \<or> u_Path u \<noteq> [] \<and> u_Path u \<noteq> ''/'' \<or> u_RawPath u \<noteq> [] \<or> u_RawQuery u \<noteq> []
         \<or> u_ForceQuery u \<or> u_Fragment u \<noteq> [])) EndpointNotPlain) (\<lambda>_.
      bindE (guardE (ParseRequestURI (''//'' @ u_Host u) \<noteq> None) EndpointHostInvalid) (\<lambda>_.
      bindE (guardE (pathStyle \<or> \<not> ParseIP (url_Hostname u)) EndpointNeedsPathStyle) (\<lambda>_.
      bindE (endpointPort u) (\<lambda>_.
      Inr (TrimSuffix (url_String (u\<lparr>u_Path := [], u_RawPath := []\<rparr>)) ''/'')))))))))"

definition safe_segment :: "string \<Rightarrow> bool" where
  "safe_segment segment =
     (segment \<noteq> [] \<and> segment \<noteq> ''.'' \<and> segment \<noteq> ''..'' \<and> CHR 0x5C \<notin> set segment \<and> noASCIIControls segment)"

definition normalizePrefix :: "string \<Rightarrow> mapping_error + string" where
  "normalizePrefix raw =
     (let prefix = Trim raw ''/'' in
      bindE (guardE (prefix = [] \<or> list_all safe_segment (Split prefix ''/'')) MappingPrefix) (\<lambda>_. Inr prefix))"

definition ensureCodec :: "VBucketConfig \<Rightarrow> mapping_error + VBucketConfig" where
  "ensureCodec cfg =
     (if (case routingTokenCodec cfg of None \<Rightarrow> False | Some c \<Rightarrow> codec_matches c cfg) then Inr cfg
      else case newOpaqueTokenCipher (Some cfg) of
             Inl _ \<Rightarrow> Inl MappingCodec
           | Inr codec \<Rightarrow> Inr (cfg\<lparr>routingTokenCodec := Some codec\<rparr>))"

definition NormalizeVBucketConfig :: "VBucketConfig option \<Rightarrow> mapping_error + VBucketConfig" where
  "NormalizeVBucketConfig c =
     bindE (of_option MappingMissing c) (\<lambda>cfg.
     bindE (guardE (length (RoutingTokenKey cfg) = 32) MappingKeyLength) (\<lambda>_.
     bindE (normalizeEndpoint (RealUsePathStyle cfg) (RealEndpoint cfg)) (\<lambda>endpoint.
     let bucket = TrimSpace (RealBucket cfg); region = TrimSpace (RealRegion cfg) in
     bindE (guardE (isValidBucketName bucket) MappingBucket) (\<lambda>_.
     bindE (guardE (accessKeyIDPattern (RealAccessKey cfg) \<and> printableASCII (RealSecretKey cfg)) MappingCredentials) (\<lambda>_.
     bindE (guardE (backendRegionPattern region) MappingRegion) (\<lambda>_.
     bindE (normalizePrefix (PathPrefix cfg)) (\<lambda>prefix.
     ensureCodec (cfg\<lparr>RealEndpoint := endpoint, RealBucket := bucket, RealRegion := region, PathPrefix := prefix\<rparr>))))))))"

section \<open>Addressing\<close>

text \<open>The argument is the lookup of base hosts; the result is the bucket, the key and whether the host named the bucket.\<close>

definition requestHost :: "string \<Rightarrow> string" where
  "requestHost host =
     (let bare = (case SplitHostPort host of
        Some (h, _) \<Rightarrow> h
      | None \<Rightarrow> if HasPrefix host ''['' \<and> HasSuffix host '']'' then Trim host ''[]'' else host)
      in ToLower (TrimSuffix bare ''.''))"

definition resolveBucket ::
  "(string \<Rightarrow> 'e + string \<times> bool) \<Rightarrow> http_request \<Rightarrow> 'e + string \<times> string \<times> bool" where
  "resolveBucket lookupBaseHost r =
     (let host = requestHost (r_Host r); path = TrimPrefix (u_Path (r_URL r)) ''/'' in
      bindE (lookupBaseHost host) (\<lambda>(baseHost, found).
        if found \<and> host \<noteq> baseHost then Inr (TrimSuffix host (''.'' @ baseHost), path, True)
        else case SplitN path ''/'' 2 of
               [bucket, objectKey] \<Rightarrow> Inr (bucket, objectKey, False)
             | parts \<Rightarrow> Inr (hd parts, [], False)))"

section \<open>Endpoints\<close>

definition visible :: "char \<Rightarrow> bool" where
  "visible c = (33 \<le> byte c \<and> byte c < 127)"

lemma TrimSpace_visible:
  assumes "list_all visible s"
  shows "TrimSpace s = s"
proof -
  have "list_all (\<lambda>c. byte c < 128) s" using assms by (auto simp: list_all_iff visible_def)
  then have r: "runes s = map (\<lambda>c. (byte c, [c])) s" by (rule runes_ascii)
  have stop: "dropWhile (\<lambda>(r, bs). IsSpace r) xs = xs" if "set xs \<subseteq> (\<lambda>c. (byte c, [c])) ` set s" for xs
    using that assms by (cases xs) (auto simp: list_all_iff visible_def IsSpace_def)
  show ?thesis by (simp add: TrimSpace_def r stop comp_def)
qed

lemma host_escape_no_slash: "CHR ''/'' \<notin> set (host_escape h)"
proof -
  have "CHR ''/'' \<notin> set (percent c)" for c
    using percent_bytes [of "CHR ''/''" c] by (auto simp: byte_def)
  moreover have "hostEscape (CHR ''/'')" by code_simp
  ultimately show ?thesis by (auto simp: host_escape_def)
qed

lemma host_escape_empty: "host_escape h = [] \<longleftrightarrow> h = []"
  by (cases h) (auto simp: host_escape_def percent_def)

definition given_endpoint :: "string \<Rightarrow> string" where
  "given_endpoint raw = (if Contains (TrimSpace raw) ''://'' then TrimSpace raw else ''https://'' @ TrimSpace raw)"

definition plain_endpoint :: "bool \<Rightarrow> parsed_url \<Rightarrow> bool" where
  "plain_endpoint pathStyle u =
     ((u_Scheme u = ''http'' \<or> u_Scheme u = ''https'') \<and> u_Host u \<noteq> [] \<and> url_Hostname u \<noteq> []
      \<and> \<not> u_User u \<and> (u_Path u = [] \<or> u_Path u = ''/'') \<and> u_RawPath u = [] \<and> u_RawQuery u = [] \<and> \<not> u_ForceQuery u \<and> u_Fragment u = []
      \<and> ParseRequestURI (''//'' @ u_Host u) \<noteq> None \<and> (pathStyle \<or> \<not> ParseIP (url_Hostname u)) \<and> endpointPort u = Inr ())"

lemma url_String_root:
  "u_RawQuery u = [] \<Longrightarrow> \<not> u_ForceQuery u \<Longrightarrow>
   url_String (u\<lparr>u_Path := [], u_RawPath := []\<rparr>) = u_Scheme u @ ''://'' @ host_escape (u_Host u)"
  by (simp add: url_String_def EscapedPath_def go_url.truncate_def escape_def)

lemma normalizeEndpoint_Inr:
  "normalizeEndpoint pathStyle raw = Inr e \<longleftrightarrow>
   TrimSpace raw \<noteq> [] \<and> (\<exists>u. url_Parse (given_endpoint raw) = Some u \<and> plain_endpoint pathStyle u
     \<and> e = u_Scheme u @ ''://'' @ host_escape (u_Host u))"
proof -
  have trim: "TrimSuffix (scheme @ ''://'' @ host_escape h) ''/'' = scheme @ ''://'' @ host_escape h" if ne: "h \<noteq> []" for scheme h
  proof -
    obtain init c where "host_escape h = init @ [c]"
      using ne host_escape_empty [of h] by (cases "host_escape h" rule: rev_cases) auto
    moreover from this have "c \<noteq> CHR ''/''" using host_escape_no_slash [of h] by auto
    ultimately have "\<not> HasSuffix ((scheme @ ''://'') @ host_escape h) ''/''"
      by (auto simp: HasSuffix_iff simp flip: append.assoc)
    then show ?thesis by (simp add: TrimSuffix_def)
  qed
  have final: "TrimSuffix (url_String (u\<lparr>u_Path := [], u_RawPath := []\<rparr>)) ''/'' = u_Scheme u @ ''://'' @ host_escape (u_Host u)"
    if "plain_endpoint pathStyle u" for u
    using that trim url_String_root [of u] by (simp add: plain_endpoint_def)
  have "normalizeEndpoint pathStyle raw = Inr e \<longleftrightarrow>
    TrimSpace raw \<noteq> [] \<and> (\<exists>u. url_Parse (given_endpoint raw) = Some u \<and> plain_endpoint pathStyle u
     \<and> TrimSuffix (url_String (u\<lparr>u_Path := [], u_RawPath := []\<rparr>)) ''/'' = e)"
    unfolding normalizeEndpoint_def Let_def given_endpoint_def [symmetric] res_simps plain_endpoint_def
    by (auto simp: res_simps)
  then show ?thesis using final by metis
qed

lemma normalizeEndpoint_plain:
  assumes "plain_text raw" "normalizeEndpoint pathStyle raw = Inr e"
  obtains scheme host where "scheme = ''http'' \<or> scheme = ''https''" "list_all host_char host" "e = scheme @ ''://'' @ host"
    "url_Parse e = Some (empty_url\<lparr>u_Scheme := scheme, u_Host := host\<rparr>)"
    "plain_endpoint pathStyle (empty_url\<lparr>u_Scheme := scheme, u_Host := host\<rparr>)"
proof -
  from assms(2) obtain u where u: "url_Parse (given_endpoint raw) = Some u" "plain_endpoint pathStyle u"
    "e = u_Scheme u @ ''://'' @ host_escape (u_Host u)"
    by (auto simp: normalizeEndpoint_Inr)
  have "plain_text (TrimSpace raw)" using plain_subset [OF assms(1) set_TrimSpace] .
  then have "plain_text (given_endpoint raw)" by (simp add: given_endpoint_def byte_def)
  moreover have un: "u_Host u \<noteq> []" "\<not> u_User u" "u_Scheme u = ''http'' \<or> u_Scheme u = ''https''"
    using u(2) by (simp_all add: plain_endpoint_def)
  ultimately have host: "list_all host_char (u_Host u)" "parseHost (u_Host u) = Some (u_Host u)"
    using url_Parse_host u(1) by blast+
  have e: "e = u_Scheme u @ ''://'' @ u_Host u" using u(3) host_escape_plain [OF host(1)] by simp
  let ?v = "empty_url\<lparr>u_Scheme := u_Scheme u, u_Host := u_Host u\<rparr>"
  have "url_Hostname ?v = url_Hostname u" "endpointPort ?v = endpointPort u"
    unfolding url_Hostname_def endpointPort_def url_Port_def by (simp_all add: empty_url_def)
  then have "plain_endpoint pathStyle ?v" using u(2) by (simp add: plain_endpoint_def) (simp add: empty_url_def)
  then show thesis
    using that un(3) host(1) e url_Parse_plain [OF un(3) host] by blast
qed

lemma scheme_visible: "list_all visible ''https://''" "list_all visible ''http://''"
  by code_simp+

lemma normalizeEndpoint_idem:
  assumes "plain_text raw" "normalizeEndpoint pathStyle raw = Inr e"
  shows "normalizeEndpoint pathStyle e = Inr e"
  using assms
proof (rule normalizeEndpoint_plain)
  fix scheme host assume s: "scheme = ''http'' \<or> scheme = ''https''" and h: "list_all host_char host" and e: "e = scheme @ ''://'' @ host"
    and p: "url_Parse e = Some (empty_url\<lparr>u_Scheme := scheme, u_Host := host\<rparr>)"
    "plain_endpoint pathStyle (empty_url\<lparr>u_Scheme := scheme, u_Host := host\<rparr>)"
  have "list_all visible host" using h host_char_plain by (simp add: list_all_iff visible_def)
  then have "list_all visible e" using s scheme_visible by (auto simp: e)
  then have trim: "TrimSpace e = e" by (rule TrimSpace_visible)
  have "Contains e ''://''" by (auto simp: e Contains_iff)
  then have given: "given_endpoint e = e" by (simp add: given_endpoint_def trim)
  moreover have "e \<noteq> []" by (simp add: e)
  moreover have "e = u_Scheme (empty_url\<lparr>u_Scheme := scheme, u_Host := host\<rparr>) @ ''://''
      @ host_escape (u_Host (empty_url\<lparr>u_Scheme := scheme, u_Host := host\<rparr>))"
    using host_escape_plain [OF h] by (simp add: e)
  ultimately show ?thesis unfolding normalizeEndpoint_Inr trim given using p by blast
qed

section \<open>Normalized mappings\<close>

definition safe_prefix :: "string \<Rightarrow> bool" where
  "safe_prefix prefix = (prefix = [] \<or> list_all safe_segment (Split prefix ''/''))"

definition wf_mapping :: "VBucketConfig \<Rightarrow> bool" where
  "wf_mapping cfg =
     (length (RoutingTokenKey cfg) = 32 \<and> isValidBucketName (RealBucket cfg) \<and> accessKeyIDPattern (RealAccessKey cfg)
      \<and> printableASCII (RealSecretKey cfg) \<and> backendRegionPattern (RealRegion cfg) \<and> safe_prefix (PathPrefix cfg)
      \<and> (case routingTokenCodec cfg of None \<Rightarrow> False | Some c \<Rightarrow> codec_matches c cfg))"

lemma ensureCodec_Inr:
  assumes "ensureCodec cfg = Inr n" "length (RoutingTokenKey cfg) = 32"
  obtains c where "n = cfg\<lparr>routingTokenCodec := Some c\<rparr>" "codec_matches c n" "codec_ok cfg \<longrightarrow> c = codec_of n"
proof (cases "case routingTokenCodec cfg of None \<Rightarrow> False | Some c \<Rightarrow> codec_matches c cfg")
  case True
  then obtain c where c: "routingTokenCodec cfg = Some c" "codec_matches c cfg" by (auto split: option.splits)
  with assms(1) have n: "n = cfg" by (simp add: ensureCodec_def)
  moreover have "cfg = cfg\<lparr>routingTokenCodec := Some c\<rparr>" using c(1) by simp
  ultimately show thesis using that [of c] c kept_codec_is_fresh by metis
next
  case False
  then have n: "n = cfg\<lparr>routingTokenCodec := Some (codec_of cfg)\<rparr>"
    using assms by (simp add: ensureCodec_def newOpaqueTokenCipher_def)
  moreover have "codec_matches (codec_of cfg) n" using assms(2) by (simp add: n codec_matches_def codec_of_def)
  moreover have "codec_of cfg = codec_of n" by (rule codec_of_cong) (simp_all add: n)
  ultimately show thesis using that by blast
qed

lemma NormalizeVBucketConfig_Inr:
  assumes "NormalizeVBucketConfig (Some cfg) = Inr n"
  obtains endpoint prefix c where "normalizeEndpoint (RealUsePathStyle cfg) (RealEndpoint cfg) = Inr endpoint"
    "normalizePrefix (PathPrefix cfg) = Inr prefix" "length (RoutingTokenKey cfg) = 32"
    "n = cfg\<lparr>RealEndpoint := endpoint, RealBucket := TrimSpace (RealBucket cfg), RealRegion := TrimSpace (RealRegion cfg),
             PathPrefix := prefix, routingTokenCodec := Some c\<rparr>"
    "isValidBucketName (RealBucket n)" "accessKeyIDPattern (RealAccessKey n)" "printableASCII (RealSecretKey n)"
    "backendRegionPattern (RealRegion n)" "codec_matches c n" "codec_ok cfg \<longrightarrow> c = codec_of n"
proof -
  from assms obtain endpoint prefix where e: "normalizeEndpoint (RealUsePathStyle cfg) (RealEndpoint cfg) = Inr endpoint"
    and p: "normalizePrefix (PathPrefix cfg) = Inr prefix" and k: "length (RoutingTokenKey cfg) = 32"
    and v: "isValidBucketName (TrimSpace (RealBucket cfg))" "accessKeyIDPattern (RealAccessKey cfg)" "printableASCII (RealSecretKey cfg)"
      "backendRegionPattern (TrimSpace (RealRegion cfg))"
    and c: "ensureCodec (cfg\<lparr>RealEndpoint := endpoint, RealBucket := TrimSpace (RealBucket cfg),
      RealRegion := TrimSpace (RealRegion cfg), PathPrefix := prefix\<rparr>) = Inr n"
    by (auto simp: NormalizeVBucketConfig_def res_simps Let_def)
  let ?m = "cfg\<lparr>RealEndpoint := endpoint, RealBucket := TrimSpace (RealBucket cfg),
      RealRegion := TrimSpace (RealRegion cfg), PathPrefix := prefix\<rparr>"
  have ok: "codec_ok cfg \<Longrightarrow> codec_ok ?m" by (simp add: codec_ok_def codec_of_def routingTokenSubkey_def split: option.splits)
  have k': "length (RoutingTokenKey ?m) = 32" using k by simp
  obtain d where "n = ?m\<lparr>routingTokenCodec := Some d\<rparr>" "codec_matches d n" "codec_ok ?m \<longrightarrow> d = codec_of n"
    using c k' by (rule ensureCodec_Inr)
  then show thesis using that [OF e p k, of d] v ok by simp
qed

lemma normalizePrefix_Inr: "normalizePrefix raw = Inr prefix \<longleftrightarrow> prefix = Trim raw ''/'' \<and> safe_prefix prefix"
  by (auto simp: normalizePrefix_def res_simps safe_prefix_def Let_def)

lemma dropWhile_idem_rev: "dropWhile P (rev (dropWhile P (rev (dropWhile P s)))) = rev (dropWhile P (rev (dropWhile P s)))"
proof (cases "rev (dropWhile P (rev (dropWhile P s)))")
  case (Cons c t)
  have "\<exists>us. dropWhile P s = rev (dropWhile P (rev (dropWhile P s))) @ us"
    by (metis dropWhile_eq_drop drop_rev rev_rev_ident append_take_drop_id)
  then obtain us where "dropWhile P s = c # t @ us" using Cons by auto
  then have "\<not> P c" by (metis hd_dropWhile list.discI list.sel(1))
  then show ?thesis by (simp add: Cons)
next
  case Nil
  then show ?thesis by (simp only: dropWhile.simps)
qed

lemma Trim_idem: "Trim (Trim s cutset) cutset = Trim s cutset"
  unfolding Trim_def dropWhile_idem_rev by (simp add: dropWhile_idem)

lemma valid_bucket_visible: "isValidBucketName b \<Longrightarrow> list_all visible b"
  by (auto simp: isValidBucketName_def bucketNamePattern_def list_all_iff lower_alnum_def is_digit_def visible_def byte_def)

lemma region_visible: "backendRegionPattern s \<Longrightarrow> list_all visible s"
  by (auto simp: backendRegionPattern_def list_all_iff region_char_def lower_alnum_def is_digit_def visible_def byte_def)

section \<open>Properties\<close>


text \<open>
  C28. Normalization is idempotent: a mapping that was normalized once, from an endpoint in ASCII without
  percent signs, is accepted again and stays as it is, so that it may be normalized both where it enters
  the cache and where the proxy uses it.
\<close>

theorem normalization_is_idempotent:
  assumes "NormalizeVBucketConfig (Some cfg) = Inr n" "is_ascii (RealEndpoint cfg)" "CHR ''%'' \<notin> set (RealEndpoint cfg)"
  shows "NormalizeVBucketConfig (Some n) = Inr n"
  using assms(1)
proof (rule NormalizeVBucketConfig_Inr)
  fix endpoint prefix c
  assume e: "normalizeEndpoint (RealUsePathStyle cfg) (RealEndpoint cfg) = Inr endpoint" and p: "normalizePrefix (PathPrefix cfg) = Inr prefix"
    and n: "n = cfg\<lparr>RealEndpoint := endpoint, RealBucket := TrimSpace (RealBucket cfg), RealRegion := TrimSpace (RealRegion cfg),
             PathPrefix := prefix, routingTokenCodec := Some c\<rparr>"
    and v: "length (RoutingTokenKey cfg) = 32" "isValidBucketName (RealBucket n)" "accessKeyIDPattern (RealAccessKey n)"
      "printableASCII (RealSecretKey n)" "backendRegionPattern (RealRegion n)" "codec_matches c n"
  have "normalizeEndpoint (RealUsePathStyle n) (RealEndpoint n) = Inr (RealEndpoint n)"
    using normalizeEndpoint_idem [OF _ e] assms(2,3) by (simp add: n)
  moreover have "normalizePrefix (PathPrefix n) = Inr (PathPrefix n)"
    using p by (auto simp: n normalizePrefix_Inr Trim_idem)
  moreover have "TrimSpace (RealBucket n) = RealBucket n" "TrimSpace (RealRegion n) = RealRegion n"
    using v(2,5) by (simp_all only: TrimSpace_visible valid_bucket_visible region_visible)
  moreover have "n = n\<lparr>RealEndpoint := RealEndpoint n, RealBucket := RealBucket n, RealRegion := RealRegion n, PathPrefix := PathPrefix n\<rparr>"
    by simp
  moreover have "routingTokenCodec n = Some c" "length (RoutingTokenKey n) = 32" using v(1) by (simp_all add: n)
  ultimately show ?thesis
    using v(2-6) unfolding NormalizeVBucketConfig_def by (simp add: ensureCodec_def)
qed

text \<open>
  C29. Both ways to address an object agree: a request whose host is the bucket in front of a base host,
  with the key as its path, and a request to a host that is no such host, with the bucket and the key in
  its path, resolve to the same bucket and key.
\<close>

theorem addressing_styles_agree:
  assumes "requestHost (r_Host r) = bucket @ ''.'' @ base" "lookup (bucket @ ''.'' @ base) = Inr (base, True)"
    and "u_Path (r_URL r) = ''/'' @ key"
    and "lookup (requestHost (r_Host r')) = Inr (base', found)" "found \<Longrightarrow> requestHost (r_Host r') = base'"
    and "u_Path (r_URL r') = ''/'' @ bucket @ ''/'' @ key" "CHR ''/'' \<notin> set bucket"
  shows "resolveBucket lookup r = Inr (bucket, key, True) \<and> resolveBucket lookup r' = Inr (bucket, key, False)"
proof -
  have "bucket @ ''.'' @ base \<noteq> base" by (metis append_self_conv2 append.assoc append_is_Nil_conv list.discI)
  moreover have "TrimSuffix (bucket @ ''.'' @ base) (''.'' @ base) = bucket" by (rule TrimSuffix_append)
  moreover have "TrimPrefix (''/'' @ s) ''/'' = s" for s by (rule TrimPrefix_append)
  ultimately have "resolveBucket lookup r = Inr (bucket, key, True)"
    using assms(1-3) by (simp add: resolveBucket_def)
  moreover have "SplitN (bucket @ ''/'' @ key) ''/'' 2 = [bucket, key]"
    using Cut_char [OF assms(7), of key] by (simp add: numeral_2_eq_2)
  then have "resolveBucket lookup r' = Inr (bucket, key, False)"
    using assms(4-6) TrimPrefix_append [of "''/''" "bucket @ ''/'' @ key"] by (auto simp: resolveBucket_def Let_def)
  ultimately show ?thesis by blast
qed

section \<open>Witnesses\<close>

definition demo_mapping :: VBucketConfig where
  "demo_mapping = demo_cfg\<lparr>routingTokenCodec := Some (codec_of demo_cfg)\<rparr>"

lemma demo_normalized: "NormalizeVBucketConfig (Some demo_cfg) = Inr demo_mapping"
proof -
  have "normalizeEndpoint (RealUsePathStyle demo_cfg) (RealEndpoint demo_cfg) = Inr (RealEndpoint demo_cfg)" by code_simp
  moreover have "TrimSpace (RealBucket demo_cfg) = RealBucket demo_cfg" "TrimSpace (RealRegion demo_cfg) = RealRegion demo_cfg"
    "isValidBucketName (RealBucket demo_cfg)" "accessKeyIDPattern (RealAccessKey demo_cfg)" "printableASCII (RealSecretKey demo_cfg)"
    "backendRegionPattern (RealRegion demo_cfg)" "normalizePrefix (PathPrefix demo_cfg) = Inr (PathPrefix demo_cfg)"
    "length (RoutingTokenKey demo_cfg) = 32"
    by code_simp+
  moreover have "routingTokenCodec demo_cfg = None" by (simp add: demo_cfg_def)
  ultimately show ?thesis
    unfolding NormalizeVBucketConfig_def demo_mapping_def by (simp add: ensureCodec_def newOpaqueTokenCipher_def)
qed


theorem normalization_is_idempotent_witness: "NormalizeVBucketConfig (Some demo_mapping) = Inr demo_mapping"
proof (rule normalization_is_idempotent [OF demo_normalized])
  show "is_ascii (RealEndpoint demo_cfg)" "CHR ''%'' \<notin> set (RealEndpoint demo_cfg)" by code_simp+
qed

definition demo_lookup :: "string \<Rightarrow> unit + string \<times> bool" where
  "demo_lookup host = Inr (if HasSuffix host ''.s3.example'' then (''s3.example'', True) else ([], False))"

definition demo_addressed :: "string \<Rightarrow> string \<Rightarrow> http_request" where
  "demo_addressed host path =
     \<lparr>r_Method = ''GET'', r_URL = \<lparr>u_Scheme = [], u_Host = [], u_Path = path, u_RawPath = [], u_RawQuery = []\<rparr>,
      r_Host = host, r_Header = [], r_ContentLength = 0, r_TransferEncoding = [], r_TLS = True, r_Trailer = []\<rparr>"

theorem addressing_styles_agree_witness:
  "resolveBucket demo_lookup (demo_addressed ''Photos.S3.example:8080'' ''/a/b'') = Inr (''photos'', ''a/b'', True)
   \<and> resolveBucket demo_lookup (demo_addressed ''127.0.0.1'' ''/photos/a/b'') = Inr (''photos'', ''a/b'', False)"
proof (rule addressing_styles_agree)
  show "requestHost (r_Host (demo_addressed ''Photos.S3.example:8080'' ''/a/b'')) = ''photos'' @ ''.'' @ ''s3.example''"
    "demo_lookup (''photos'' @ ''.'' @ ''s3.example'') = Inr (''s3.example'', True)"
    "demo_lookup (requestHost (r_Host (demo_addressed ''127.0.0.1'' ''/photos/a/b''))) = Inr ([], False)"
    by code_simp+
qed (simp_all add: demo_addressed_def)

end
