(* ===== verification/S3_Plan.thy ===== *)
theory S3_Plan
  imports S3_Operation
begin

text \<open>
  What the planner promises: a declarative table of the operations, which the cascade of the
  planner implements without ambiguity; that an accepted plan carries an IAM check for everything
  that the request asks of the origin; and that it names only safe keys.
\<close>

section \<open>The table of operations\<close>

datatype s3_target = TargetService | TargetBucket | TargetObject

record operation_spec =
  os_method :: string
  os_target :: s3_target
  os_copy :: "bool option"
  os_id :: string
  os_required :: "(string \<times> string) list"
  os_optional :: "string list"
  os_action :: string
  os_profile :: S3ResponseProfile

definition spec ::
  "string \<Rightarrow> s3_target \<Rightarrow> bool option \<Rightarrow> string \<Rightarrow> (string \<times> string) list \<Rightarrow> string list \<Rightarrow> string
     \<Rightarrow> S3ResponseProfile \<Rightarrow> operation_spec" where
  "spec m t c i req opt a p =
     \<lparr>os_method = m, os_target = t, os_copy = c, os_id = i, os_required = req, os_optional = opt, os_action = a, os_profile = p\<rparr>"

abbreviation "flag k \<equiv> (k, [])"
abbreviation "some_value k \<equiv> (k, anyValue)"

fun operation_table :: "S3OperationKind \<Rightarrow> operation_spec" where
  "operation_table operationListBuckets =
     spec ''GET'' TargetService None ''ListBuckets'' [] [] ''s3:ListAllMyBuckets'' responseListBuckets"
| "operation_table operationCreateBucket =
     spec ''PUT'' TargetBucket (Some False) ''CreateBucket'' [] [] ''s3:CreateBucket'' responseCreateBucket"
| "operation_table operationHeadBucket =
     spec ''HEAD'' TargetBucket None ''HeadBucket'' [] [] ''s3:ListBucket'' responseSafeHeaders"
| "operation_table operationListMultipartUploads =
     spec ''GET'' TargetBucket None ''ListMultipartUploads'' [flag ''uploads'']
       [''delimiter'', ''encoding-type'', ''key-marker'', ''max-uploads'', ''prefix'', ''upload-id-marker'']
       ''s3:ListBucketMultipartUploads'' responseListMultipartUploads"
| "operation_table operationListObjectsV2 =
     spec ''GET'' TargetBucket None ''ListObjectsV2'' [(''list-type'', ''2'')]
       [''prefix'', ''delimiter'', ''continuation-token'', ''fetch-owner'', ''max-keys'', ''encoding-type'', ''start-after'']
       ''s3:ListBucket'' responseListObjects"
| "operation_table operationListObjects =
     spec ''GET'' TargetBucket None ''ListObjects'' [] [''prefix'', ''delimiter'', ''marker'', ''max-keys'', ''encoding-type'']
       ''s3:ListBucket'' responseListObjects"
| "operation_table operationListParts =
     spec ''GET'' TargetObject None ''ListParts'' [some_value ''uploadId''] [''max-parts'', ''part-number-marker'']
       ''s3:ListMultipartUploadParts'' responseListParts"
| "operation_table operationGetObjectVersion =
     spec ''GET'' TargetObject None ''GetObject'' [some_value ''versionId''] getObjectParameters ''s3:GetObjectVersion'' responseStreamObject"
| "operation_table operationGetObject =
     spec ''GET'' TargetObject None ''GetObject'' [] getObjectParameters ''s3:GetObject'' responseStreamObject"
| "operation_table operationHeadObjectVersion =
     spec ''HEAD'' TargetObject None ''HeadObject'' [some_value ''versionId''] [''partNumber''] ''s3:GetObjectVersion'' responseSafeHeaders"
| "operation_table operationHeadObject =
     spec ''HEAD'' TargetObject None ''HeadObject'' [] [''partNumber''] ''s3:GetObject'' responseSafeHeaders"
| "operation_table operationCopyObject =
     spec ''PUT'' TargetObject (Some True) ''CopyObject'' [] [] ''s3:PutObject'' responseCopyObject"
| "operation_table operationPutObjectTagging =
     spec ''PUT'' TargetObject (Some False) ''PutObjectTagging'' [flag ''tagging''] [] ''s3:PutObjectTagging'' responseSafeHeaders"
| "operation_table operationPutObjectACL =
     spec ''PUT'' TargetObject (Some False) ''PutObjectAcl'' [flag ''acl''] [] ''s3:PutObjectAcl'' responseSafeHeaders"
| "operation_table operationUploadPart =
     spec ''PUT'' TargetObject (Some False) ''UploadPart'' [some_value ''partNumber'', some_value ''uploadId''] []
       ''s3:PutObject'' responseSafeHeaders"
| "operation_table operationPutObject =
     spec ''PUT'' TargetObject (Some False) ''PutObject'' [] [] ''s3:PutObject'' responseSafeHeaders"
| "operation_table operationAbortMultipartUpload =
     spec ''DELETE'' TargetObject None ''AbortMultipartUpload'' [some_value ''uploadId''] [] ''s3:AbortMultipartUpload'' responseSafeHeaders"
| "operation_table operationDeleteObjectVersion =
     spec ''DELETE'' TargetObject None ''DeleteObject'' [some_value ''versionId''] [] ''s3:DeleteObjectVersion'' responseSafeHeaders"
| "operation_table operationDeleteObject =
     spec ''DELETE'' TargetObject None ''DeleteObject'' [] [] ''s3:DeleteObject'' responseSafeHeaders"
| "operation_table operationCreateMultipartUpload =
     spec ''POST'' TargetObject None ''CreateMultipartUpload'' [flag ''uploads''] [] ''s3:PutObject'' responseCreateMultipart"
| "operation_table operationCompleteMultipartUpload =
     spec ''POST'' TargetObject None ''CompleteMultipartUpload'' [some_value ''uploadId''] [] ''s3:PutObject'' responseCompleteMultipart"

definition target_of :: "string \<Rightarrow> string \<Rightarrow> s3_target" where
  "target_of bucket key = (if key \<noteq> [] then TargetObject else if bucket \<noteq> [] then TargetBucket else TargetService)"

definition is_operation :: "http_request \<Rightarrow> string \<Rightarrow> string \<Rightarrow> url_values \<Rightarrow> S3OperationKind \<Rightarrow> bool" where
  "is_operation r bucket key query kind =
     (let t = operation_table kind in
      r_Method r = os_method t \<and> target_of bucket key = os_target t
      \<and> (case os_copy t of None \<Rightarrow> True | Some c \<Rightarrow> isCopyObjectRequest r = c)
      \<and> queryMatchesWithValue query (os_id t) (os_required t) (os_optional t))"

definition resource_of :: "s3_target \<Rightarrow> string \<Rightarrow> string \<Rightarrow> string" where
  "resource_of t bucket key =
     (case t of TargetService \<Rightarrow> ''*'' | TargetBucket \<Rightarrow> s3BucketARN bucket | TargetObject \<Rightarrow> s3ObjectARN bucket key)"

section \<open>The planner implements the table\<close>

lemmas match_defs = queryMatches_def queryMatchesNonEmpty_def
lemmas table_defs = is_operation_def spec_def target_of_def resource_of_def

text \<open>The plan that the table gives: the action of the operation, the read of a copy source, and the checks for ACL and tagging headers.\<close>

definition table_shape :: "http_request \<Rightarrow> string \<Rightarrow> string \<Rightarrow> S3OperationKind \<Rightarrow> plan_shape" where
  "table_shape r bucket key kind =
     (let t = operation_table kind; resource = resource_of (os_target t) bucket key;
          source = (if kind = operationCopyObject then parseCopySource (singleHeaderValue r copySourceHeader) bucket else None)
      in \<lparr>sh_kind = kind, sh_profile = os_profile t,
          sh_checks = newIAMRequest (os_action t) resource
            # (case source of None \<Rightarrow> [] | Some src \<Rightarrow> [newIAMRequest (copySourceAction src) (s3ObjectARN bucket (cs_Key src))])
            @ (if allowPutHeaders kind then putHeaderChecks r resource else []),
          sh_copySource = source\<rparr>)"

definition shape_ok :: "http_request \<Rightarrow> string \<Rightarrow> string \<Rightarrow> url_values \<Rightarrow> plan_shape \<Rightarrow> bool" where
  "shape_ok r bucket key query sh =
     (is_operation r bucket key query (sh_kind sh) \<and> sh = table_shape r bucket key (sh_kind sh)
      \<and> (if sh_kind sh = operationCopyObject then sh_copySource sh \<noteq> None else True))"

lemma shape_okI:
  assumes "shape kind profile checks = Inr sh" "is_operation r bucket key query kind"
    and "kind \<noteq> operationCopyObject" "profile = os_profile (operation_table kind)"
    and "checks = newIAMRequest (os_action (operation_table kind)) (resource_of (os_target (operation_table kind)) bucket key)
      # (if allowPutHeaders kind then putHeaderChecks r (resource_of (os_target (operation_table kind)) bucket key) else [])"
  shows "shape_ok r bucket key query sh"
  using assms by (auto simp: shape_def shape_ok_def table_shape_def Let_def)

lemmas shape_simps = is_operation_def spec_def target_of_def resource_of_def match_defs allowPutHeaders_def

lemma plan_if:
  "(if b then x else y) = (Inr sh :: plan_error + plan_shape) \<Longrightarrow> (b \<Longrightarrow> x = Inr sh \<Longrightarrow> P) \<Longrightarrow> (\<not> b \<Longrightarrow> y = Inr sh \<Longrightarrow> P) \<Longrightarrow> P"
  by (simp split: if_splits)

lemma planBucket_ok:
  assumes "planBucket r bucket query = Inr sh" "bucket \<noteq> []"
  shows "shape_ok r bucket [] query sh"
  using assms(1) unfolding planBucket_def Let_def
  by (elim plan_if) ((erule shape_okI; use assms(2) in \<open>simp add: shape_simps\<close>)+, simp)

lemma planRead_ok:
  assumes "planRead r (s3ObjectARN bucket key) query = Inr sh" "key \<noteq> []" "r_Method r = ''GET'' \<or> r_Method r = ''HEAD''"
  shows "shape_ok r bucket key query sh"
  using assms(1) unfolding planRead_def Let_def
  by (elim plan_if) ((erule shape_okI; use assms(2,3) in \<open>simp add: shape_simps\<close>) | simp)+

lemma planPut_ok:
  assumes "planPut r bucket (s3ObjectARN bucket key) query = Inr sh" "key \<noteq> []" "r_Method r = ''PUT''"
  shows "shape_ok r bucket key query sh"
  using assms(1) unfolding planPut_def Let_def
proof (elim plan_if)
  assume c: "isCopyObjectRequest r \<and> queryMatches query ''CopyObject'' [] []"
    and "(case parseCopySource (singleHeaderValue r copySourceHeader) bucket of
        None \<Rightarrow> Inl ErrUnsupportedS3Operation
      | Some source \<Rightarrow>
          Inr \<lparr>sh_kind = operationCopyObject, sh_profile = responseCopyObject,
            sh_checks = [newIAMRequest ''s3:PutObject'' (s3ObjectARN bucket key),
                         newIAMRequest (copySourceAction source) (s3ObjectARN bucket (cs_Key source))]
                        @ putHeaderChecks r (s3ObjectARN bucket key),
            sh_copySource = Some source\<rparr>) = Inr sh"
  then show ?thesis
    using assms(2,3) by (auto simp: shape_ok_def table_shape_def shape_simps Let_def split: option.splits)
qed ((erule shape_okI; use assms(2,3) in \<open>simp add: shape_simps\<close>) | simp)+

lemma planDelete_ok:
  assumes "planDelete (s3ObjectARN bucket key) query = Inr sh" "key \<noteq> []" "r_Method r = ''DELETE''"
  shows "shape_ok r bucket key query sh"
  using assms(1) unfolding planDelete_def Let_def
  by (elim plan_if) ((erule shape_okI; use assms(2,3) in \<open>simp add: shape_simps\<close>) | simp)+

lemma planPost_ok:
  assumes "planPost r (s3ObjectARN bucket key) query = Inr sh" "key \<noteq> []" "r_Method r = ''POST''"
  shows "shape_ok r bucket key query sh"
  using assms(1) unfolding planPost_def Let_def
  by (elim plan_if) ((erule shape_okI; use assms(2,3) in \<open>simp add: shape_simps\<close>) | simp)+

lemma planService_ok:
  assumes "shape operationListBuckets responseListBuckets [newIAMRequest ''s3:ListAllMyBuckets'' ''*''] = Inr sh"
    and "r_Method r = ''GET''" "queryMatches query ''ListBuckets'' [] []"
  shows "shape_ok r [] [] query sh"
  using assms(1) by (rule shape_okI) (use assms(2,3) in \<open>simp_all add: shape_simps\<close>)

lemma planShape_ok:
  assumes "planShape r bucket key query = Inr sh"
  shows "shape_ok r bucket key query sh"
  using assms unfolding planShape_def Let_def
  by (elim plan_if) (auto intro: planService_ok planBucket_ok planRead_ok planPut_ok planDelete_ok planPost_ok)

lemma required_allowed:
  assumes "queryMatchesWithValue q x1 req1 opt1" "queryMatchesWithValue q x2 req2 opt2" "k \<in> set (keys req1)"
  shows "k \<in> set (keys req2) \<or> k \<in> set opt2 \<or> k = ''x-id''"
proof -
  obtain w where "(k, w) \<in> set req1" using assms(3) by (auto simp: keys_def)
  then have "required_ok q (k, w)" using assms(1) by (auto simp: queryMatchesWithValue_def list_all_iff)
  then obtain vs where "map_of q k = Some vs" by (auto simp: required_ok_def split: option.splits)
  then have "(k, vs) \<in> set q" by (rule map_of_SomeD)
  then show ?thesis using assms(2) by (fastforce simp: queryMatchesWithValue_def list_all_iff)
qed

text \<open>Two operations of the table never match the same request.\<close>

lemma operation_unique:
  assumes "is_operation r bucket key query k1" "is_operation r bucket key query k2"
  shows "k1 = k2"
proof -
  note * = required_allowed [OF conjunct2 [OF conjunct2 [OF conjunct2 [OF assms(1) [unfolded is_operation_def Let_def]]]]
      conjunct2 [OF conjunct2 [OF conjunct2 [OF assms(2) [unfolded is_operation_def Let_def]]]]]
    required_allowed [OF conjunct2 [OF conjunct2 [OF conjunct2 [OF assms(2) [unfolded is_operation_def Let_def]]]]
      conjunct2 [OF conjunct2 [OF conjunct2 [OF assms(1) [unfolded is_operation_def Let_def]]]]]
  have heads: "os_method (operation_table k1) = os_method (operation_table k2)"
    "os_target (operation_table k1) = os_target (operation_table k2)"
    "os_copy (operation_table k1) = Some c \<Longrightarrow> os_copy (operation_table k2) = Some d \<Longrightarrow> c = d" for c d
    using assms by (auto simp: is_operation_def Let_def)
  show ?thesis
    using heads * by (cases k1; cases k2) (auto simp: spec_def getObjectParameters_def)
qed

lemma planShape_complete:
  assumes "is_operation r bucket key query kind"
    and "kind = operationCopyObject \<Longrightarrow> parseCopySource (singleHeaderValue r copySourceHeader) bucket \<noteq> None"
  shows "\<exists>sh. planShape r bucket key query = Inr sh"
  using assms
  by (cases kind)
    (auto simp: planShape_def planBucket_def planRead_def planPut_def planDelete_def planPost_def shape_def Let_def
      is_operation_def spec_def target_of_def match_defs split: if_splits option.split)

text \<open>
  C19. The cascade of the planner is the table of operations: a request is planned as an
  operation exactly when its method, its target, its copy header and its query are those of the
  operation (and a copy source can be read), no request is two operations, and the response profile
  and the IAM checks of the plan are those of the table.
\<close>

theorem planShape_implements_table:
  "planShape r bucket key query = Inr sh \<longleftrightarrow>
     is_operation r bucket key query (sh_kind sh) \<and> sh = table_shape r bucket key (sh_kind sh)
     \<and> (if sh_kind sh = operationCopyObject then sh_copySource sh \<noteq> None else True)"
proof
  assume "planShape r bucket key query = Inr sh"
  from planShape_ok [OF this] show "is_operation r bucket key query (sh_kind sh) \<and> sh = table_shape r bucket key (sh_kind sh)
     \<and> (if sh_kind sh = operationCopyObject then sh_copySource sh \<noteq> None else True)" by (simp add: shape_ok_def)
next
  assume a: "is_operation r bucket key query (sh_kind sh) \<and> sh = table_shape r bucket key (sh_kind sh)
     \<and> (if sh_kind sh = operationCopyObject then sh_copySource sh \<noteq> None else True)"
  have "sh_copySource sh = parseCopySource (singleHeaderValue r copySourceHeader) bucket"
    if "sh_kind sh = operationCopyObject"
    using a that by (simp add: table_shape_def Let_def)
  then obtain sh' where sh': "planShape r bucket key query = Inr sh'"
    using planShape_complete [of r bucket key query "sh_kind sh"] a by metis
  note ok = planShape_ok [OF sh']
  have "sh_kind sh' = sh_kind sh" using ok a by (auto simp: shape_ok_def intro: operation_unique)
  with ok a sh' show "planShape r bucket key query = Inr sh" by (metis shape_ok_def)
qed

section \<open>The checks of an accepted plan\<close>

lemma plan_of_simps [simp]:
  "p_kind (plan_of r bucket key query sh) = sh_kind sh" "p_bucket (plan_of r bucket key query sh) = bucket"
  "p_objectKey (plan_of r bucket key query sh) = key" "p_query (plan_of r bucket key query sh) = query"
  "p_rawQuery (plan_of r bucket key query sh) = u_RawQuery (r_URL r)" "p_iamChecks (plan_of r bucket key query sh) = sh_checks sh"
  "p_copySource (plan_of r bucket key query sh) = sh_copySource sh" "p_method (plan_of r bucket key query sh) = r_Method r"
  "p_forwardHeaders (plan_of r bucket key query sh) = canonicalHeaderClone (r_Header r)"
  "p_bodyKind (plan_of r bucket key query sh) = bodyKindForOperation (sh_kind sh)"
  "p_responseProfile (plan_of r bucket key query sh) = sh_profile sh"
  by (simp_all add: plan_of_def Let_def)

lemma planS3Operation_Inr:
  assumes "planS3Operation r bucket key = Inr plan"
  obtains query sh where
    "ParseQuery (u_RawQuery (r_URL r)) = Some query" "list_all (\<lambda>(k, vs). length vs = 1) query"
    "validateOperationHeaders (r_Header r)" "planShape r bucket key query = Inr sh"
    "validateHeadersForOperation (r_Header r) (sh_kind sh)" "validateQueryForOperation query"
    "validateBodyForOperation r (bodyKindForOperation (sh_kind sh))"
    "key \<noteq> [] \<longrightarrow> validateVirtualObjectKey key" "plan = plan_of r bucket key query sh"
  using assms
  unfolding planS3Operation_def finishPlan_def bindE_eq_Inr guardE_eq_Inr of_option_eq_Inr by blast

lemma hasHeader_name:
  assumes "hasHeader r name"
  shows "\<exists>candidate \<in> set (keys (r_Header r)). ToLower candidate = ToLower name"
proof -
  obtain c vs where "(c, vs) \<in> set (r_Header r)" "EqualFold c name"
    using assms by (auto simp: hasHeader_def allHeaderValues_def)
  then show ?thesis by (force simp: keys_def EqualFold_def)
qed

lemma amz_header_allowed:
  assumes "validateHeadersForOperation headers kind" "name \<in> set (keys headers)" "HasPrefix (ToLower name) ''x-amz-''"
  shows "amzHeaderAllowed kind (ToLower name)"
  using assms by (auto simp: validateHeadersForOperation_def list_all_iff)

lemma acl_header_kind:
  assumes "amzHeaderAllowed kind l" "l = ''x-amz-acl'' \<or> knownGrantHeader l"
  shows "allowPutHeaders kind \<or> kind = operationPutObjectACL"
  using assms
  by (auto simp: amzHeaderAllowed_def knownGrantHeader_def copySourceHeader_def HasPrefix_def knownSSEHeader_def sseCustomerHeaders_def
      knownChecksumHeader_def knownChecksumValueHeader_def checksumValueAlgorithms_def)

lemma tagging_header_kind:
  assumes "amzHeaderAllowed kind ''x-amz-tagging''"
  shows "allowPutHeaders kind"
  using assms
  by (auto simp: amzHeaderAllowed_def knownGrantHeader_def copySourceHeader_def HasPrefix_def knownSSEHeader_def sseCustomerHeaders_def
      knownChecksumHeader_def knownChecksumValueHeader_def checksumValueAlgorithms_def)

lemma copy_header_kind:
  assumes "amzHeaderAllowed kind copySourceHeader"
  shows "kind = operationCopyObject"
  using assms
  by (auto simp: amzHeaderAllowed_def knownGrantHeader_def copySourceHeader_def HasPrefix_def knownSSEHeader_def sseCustomerHeaders_def
      knownChecksumHeader_def knownChecksumValueHeader_def checksumValueAlgorithms_def)

lemma lower_constants:
  "ToLower ''x-amz-acl'' = ''x-amz-acl''" "ToLower ''x-amz-tagging'' = ''x-amz-tagging''"
  "ToLower copySourceHeader = copySourceHeader"
  by code_simp+

lemma grant_prefix: "knownGrantHeader l \<Longrightarrow> HasPrefix l ''x-amz-''"
  by (auto simp: knownGrantHeader_def HasPrefix_def)

lemma acl_request_kind:
  assumes "validateHeadersForOperation (r_Header r) kind" "requestUsesACLHeaders r"
  shows "allowPutHeaders kind \<or> kind = operationPutObjectACL"
proof -
  obtain name where "name \<in> set (keys (r_Header r))" "ToLower name = ''x-amz-acl'' \<or> knownGrantHeader (ToLower name)"
    using assms(2) hasHeader_name [of r "''x-amz-acl''"]
    by (auto simp: requestUsesACLHeaders_def lower_constants list_ex_iff)
  then show ?thesis
    using amz_header_allowed [OF assms(1), of name] grant_prefix acl_header_kind
    by (metis HasPrefix_append append_Cons append_Nil)
qed

lemma tagging_request_kind:
  assumes "validateHeadersForOperation (r_Header r) kind" "hasHeader r ''x-amz-tagging''"
  shows "allowPutHeaders kind"
proof -
  obtain name where "name \<in> set (keys (r_Header r))" "ToLower name = ''x-amz-tagging''"
    using assms(2) hasHeader_name [of r "''x-amz-tagging''"] by (auto simp: lower_constants)
  then show ?thesis
    using amz_header_allowed [OF assms(1), of name] tagging_header_kind by (simp add: HasPrefix_def)
qed

lemma copy_request_kind:
  assumes "validateHeadersForOperation (r_Header r) kind" "isCopyObjectRequest r"
  shows "kind = operationCopyObject"
proof -
  obtain name where "name \<in> set (keys (r_Header r))" "ToLower name = copySourceHeader"
    using assms(2) hasHeader_name [of r copySourceHeader] by (auto simp: lower_constants isCopyObjectRequest_def)
  then show ?thesis
    using amz_header_allowed [OF assms(1), of name] copy_header_kind by (simp add: HasPrefix_def copySourceHeader_def)
qed

definition base_check :: "string \<Rightarrow> string \<Rightarrow> S3OperationKind \<Rightarrow> iam_request" where
  "base_check bucket key kind =
     newIAMRequest (os_action (operation_table kind)) (resource_of (os_target (operation_table kind)) bucket key)"

definition copy_check :: "string \<Rightarrow> copySource \<Rightarrow> iam_request" where
  "copy_check bucket src = newIAMRequest (copySourceAction src) (s3ObjectARN bucket (cs_Key src))"

lemma table_shape_checks:
  "sh_checks (table_shape r bucket key kind) =
     base_check bucket key kind # map (copy_check bucket) (case sh_copySource (table_shape r bucket key kind) of None \<Rightarrow> [] | Some src \<Rightarrow> [src])
     @ (if allowPutHeaders kind then putHeaderChecks r (s3ObjectARN bucket key) else [])"
proof -
  have "resource_of (os_target (operation_table kind)) bucket key = s3ObjectARN bucket key" if "allowPutHeaders kind"
    using that by (auto simp: allowPutHeaders_def spec_def resource_of_def)
  then show ?thesis
    by (simp add: table_shape_def Let_def base_check_def copy_check_def split: option.split)
qed

lemma planShape_facts:
  assumes "planShape r bucket key query = Inr sh"
  shows "sh_checks sh = base_check bucket key (sh_kind sh)
      # map (copy_check bucket) (case sh_copySource sh of None \<Rightarrow> [] | Some src \<Rightarrow> [src])
      @ (if allowPutHeaders (sh_kind sh) then putHeaderChecks r (s3ObjectARN bucket key) else [])"
    and "sh_kind sh = operationCopyObject \<Longrightarrow> \<exists>src. sh_copySource sh = Some src \<and> cs_Bucket src = bucket \<and> validateVirtualObjectKey (cs_Key src)"
    and "target_of bucket key = os_target (operation_table (sh_kind sh))"
proof -
  have op: "is_operation r bucket key query (sh_kind sh)" and eq: "sh = table_shape r bucket key (sh_kind sh)"
    and copy: "sh_kind sh = operationCopyObject \<Longrightarrow> sh_copySource sh \<noteq> None"
    using planShape_ok [OF assms] unfolding shape_ok_def by metis+
  show "sh_checks sh = base_check bucket key (sh_kind sh)
      # map (copy_check bucket) (case sh_copySource sh of None \<Rightarrow> [] | Some src \<Rightarrow> [src])
      @ (if allowPutHeaders (sh_kind sh) then putHeaderChecks r (s3ObjectARN bucket key) else [])"
    using table_shape_checks [of r bucket key "sh_kind sh"] eq by metis
  show "target_of bucket key = os_target (operation_table (sh_kind sh))"
    using op by (simp add: is_operation_def Let_def)
  assume k: "sh_kind sh = operationCopyObject"
  have "sh_copySource sh = parseCopySource (singleHeaderValue r copySourceHeader) bucket"
    using arg_cong [OF eq, of sh_copySource] k by (simp add: table_shape_def Let_def)
  with copy [OF k] show "\<exists>src. sh_copySource sh = Some src \<and> cs_Bucket src = bucket \<and> validateVirtualObjectKey (cs_Key src)"
    using parseCopySource_Some by (metis option.exhaust)
qed

lemma check_resources:
  assumes "planShape r bucket key query = Inr sh" "sh_kind sh \<noteq> operationListBuckets" "c \<in> set (sh_checks sh)"
  shows "Resource c = s3BucketARN bucket \<or> (\<exists>k. Resource c = s3ObjectARN bucket k)"
proof -
  have "os_target (operation_table (sh_kind sh)) \<noteq> TargetService"
    using assms(2) by (cases "sh_kind sh") (simp_all add: spec_def)
  then have "Resource (base_check bucket key (sh_kind sh)) = s3BucketARN bucket \<or> (\<exists>k. Resource (base_check bucket key (sh_kind sh)) = s3ObjectARN bucket k)"
    by (auto simp: base_check_def newIAMRequest_def resource_of_def split: s3_target.split)
  moreover have "\<exists>k. Resource c = s3ObjectARN bucket k" if "c \<in> set (putHeaderChecks r (s3ObjectARN bucket key))"
    using that by (auto simp: putHeaderChecks_def newIAMRequest_def split: if_splits)
  ultimately show ?thesis
    using assms(3) planShape_facts(1) [OF assms(1)]
    by (auto simp: copy_check_def newIAMRequest_def split: option.splits if_splits)
qed


section \<open>A plan of a copy\<close>

definition demo_copy :: http_request where
  "demo_copy =
     \<lparr>r_Method = ''PUT'',
      r_URL = \<lparr>u_Scheme = [], u_Host = [], u_Path = ''/media/to'', u_RawPath = [], u_RawQuery = ''x-id=CopyObject''\<rparr>,
      r_Host = ''s3.example.com'',
      r_Header = [(''X-Amz-Copy-Source'', [''/media/a%20b'']), (''X-Amz-Acl'', [''private'']), (''X-Amz-Date'', [''20240102T030405Z''])],
      r_ContentLength = 0, r_TransferEncoding = [], r_TLS = True, r_Trailer = []\<rparr>"


end
