(* ===== verification/S3_Signing.thy ===== *)
theory S3_Signing
  imports S3_Signature
begin

text \<open>
  Signing and verifying are inverse: the header that \<^verbatim>\<open>signRequest\<close> builds is read back by
  \<^verbatim>\<open>parseAuthorizationHeader\<close> and the signed request verifies under the same secret. Then the
  properties of signatures and of the check of the clock.
\<close>

section \<open>Reading the header back\<close>

lemma split_from_sep_plain: "c \<notin> set s \<Longrightarrow> split_from (c # ds) acc s = [rev acc @ s]"
  by (induction s arbitrary: acc) (auto simp: HasPrefix_def)

lemma split_from_sep_append:
  "c \<notin> set a \<Longrightarrow> split_from (c # ds) acc (a @ c # ds @ b) = (rev acc @ a) # split_from (c # ds) [] b"
  by (induction a arbitrary: acc) (auto simp: HasPrefix_def)

lemma Split_three:
  assumes "c \<notin> set p" "c \<notin> set q" "c \<notin> set r"
  shows "Split (p @ c # ds @ q @ c # ds @ r) (c # ds) = [p, q, r]"
  using assms split_from_sep_append [of c p ds "[]" "q @ c # ds @ r"] split_from_sep_append [of c q ds "[]" r]
  by (simp add: Split_def split_from_sep_plain)

lemma access_char_plain: "access_char c \<Longrightarrow> c \<noteq> CHR '','' \<and> c \<noteq> CHR ''/'' \<and> c \<noteq> CHR ''=''"
  by (auto simp: access_char_def Let_def byte_def)

lemma token_plain: "token_byte c \<Longrightarrow> c \<noteq> CHR '','' \<and> c \<noteq> CHR '';'' \<and> c \<noteq> CHR ''=''"
  by (auto simp: token_byte_def Let_def byte_def)

lemma digits_access: "list_all access_char (pad_digits n k)"
  by (induction n arbitrary: k) (auto simp: access_char_def Let_def byte_digit)

lemma date_digits: "time_Format layout_date t = pad_digits 4 (tm_year t) @ pad_digits 2 (tm_month t) @ pad_digits 2 (tm_day t)"
  by (simp add: time_Format_def layout_date_def)

lemma date_access: "list_all access_char (time_Format layout_date t)" "time_Format layout_date t \<noteq> []"
  by (simp_all only: date_digits list_all_append digits_access) (simp_all add: pad_digits_4)

lemma access_free: "list_all access_char s \<Longrightarrow> CHR '','' \<notin> set s \<and> CHR ''/'' \<notin> set s \<and> CHR ''='' \<notin> set s"
  using access_char_plain by (fastforce simp: list_all_iff)

lemma auth_field_read: "CHR ''='' \<notin> set name \<Longrightarrow> auth_field name (name @ CHR ''='' # v) = Some v"
  by (simp add: auth_field_def Cut_char)

definition scope_of :: "civil \<Rightarrow> string \<Rightarrow> string" where
  "scope_of now region = time_Format layout_date now @ ''/'' @ region @ ''/s3/aws4_request''"

lemma parse_credential_read:
  assumes "wf_civil now" "accessKeyIDPattern key" "list_all access_char region" "region \<noteq> []"
  shows "parse_credential (key @ ''/'' @ scope_of now region) =
    Some (key, time_Format layout_date now, region, ''s3'', scope_of now region)"
proof -
  have plain: "CHR ''/'' \<notin> set key" "CHR ''/'' \<notin> set (time_Format layout_date now)" "CHR ''/'' \<notin> set region" "key \<noteq> []"
    using assms(2,3) access_free date_access by (auto simp: accessKeyIDPattern_def)
  have "SplitN (key @ ''/'' @ scope_of now region) ''/'' 5 =
    [key, time_Format layout_date now, region, ''s3'', ''aws4_request'']"
    using Cut_char [OF plain(1)] Cut_char [OF plain(2)] Cut_char [OF plain(3)] Cut_char [of "CHR ''/''" "''s3''" "''aws4_request''"]
    by (simp add: scope_of_def numeral_eq_Suc)
  then show ?thesis
    using assms plain(4) date_access(2) time_Parse_date_Format [OF assms(1)]
    by (simp add: parse_credential_def scope_of_def)
qed

lemma hex_char: "n < 16 \<Longrightarrow> lowerhex n \<in> set ''0123456789abcdef''"
proof -
  assume "n < 16"
  then have "n \<in> set [0..<16]" by simp
  moreover have "list_all (\<lambda>n. lowerhex n \<in> set ''0123456789abcdef'') [0..<16]" by code_simp
  ultimately show ?thesis by (simp only: list_all_iff)
qed

lemma hex_string_chars: "set (hex_string s) \<subseteq> set ''0123456789abcdef''"
proof (induction s)
  case (Cons c s)
  then show ?case using hex_char [OF byte_nibbles(1)] hex_char [OF byte_nibbles(2)] unfolding hex_string_def by simp
qed (simp add: hex_string_def)

lemma Trim_all: "set v \<subseteq> set cutset \<Longrightarrow> Trim v cutset = []"
proof -
  assume "set v \<subseteq> set cutset"
  then have "dropWhile (\<lambda>c. c \<in> set cutset) v = []" by (auto simp: dropWhile_eq_Nil_conv)
  then show ?thesis unfolding Trim_def by (simp only: rev.simps dropWhile.simps)
qed

lemma hex_signature_hmac: "hex_signature (hex_string (hmacSHA256 k m))"
  by (simp only: hex_signature_def length_hex_string length_hmacSHA256 Trim_all [OF hex_string_chars]) simp

lemma hex_string_plain: "CHR '','' \<notin> set (hex_string s)"
  using hex_string_chars [of s] by auto

section \<open>Headers that are signed\<close>

definition signable_header :: "http_header \<Rightarrow> bool" where
  "signable_header h =
     (distinct (keys h) \<and> list_all (\<lambda>k. k \<noteq> [] \<and> list_all token_byte k \<and> CanonicalHeaderKey k = k) (keys h))"

lemma set_keys_Set: "set (keys (header_Set h name v)) = insert (CanonicalHeaderKey name) (set (keys h))"
  by (simp add: header_Set_def set_keys dom_update)

lemma distinct_keys_Set: "distinct (keys h) \<Longrightarrow> distinct (keys (header_Set h name v))"
  by (simp add: header_Set_def keys_def distinct_update)

lemma canonical_token:
  "list_all token_byte name \<Longrightarrow> list_all token_byte (CanonicalHeaderKey name)"
  "CanonicalHeaderKey name = [] \<longleftrightarrow> name = []"
  by (auto simp: CanonicalHeaderKey_def token_canonical_from) (cases name; simp)

lemma signable_Set:
  "signable_header h \<Longrightarrow> name \<noteq> [] \<Longrightarrow> list_all token_byte name \<Longrightarrow> signable_header (header_Set h name v)"
  by (auto simp: signable_header_def list_all_iff set_keys_Set distinct_keys_Set canonical_token [unfolded list_all_iff])

lemma signable_key:
  assumes "signable_header h" "k \<in> set (keys h)"
  shows "k \<noteq> []" "list_all token_byte k" "CanonicalHeaderKey k = k"
  using assms by (auto simp: signable_header_def list_all_iff)

lemma lower_key:
  assumes "list_all token_byte k"
  shows "list_all token_byte (ToLower k)" "ToLower (ToLower k) = ToLower k"
    "CanonicalHeaderKey (ToLower k) = CanonicalHeaderKey k" "ToLower k = [] \<longleftrightarrow> k = []"
proof -
  have lower: "ToLower k = map lower_byte k" using assms by (simp add: ToLower_ascii token_ascii)
  show "list_all token_byte (ToLower k)" using assms by (simp only: lower token_lower)
  show idem: "ToLower (ToLower k) = ToLower k" using assms by (intro ToLower_idem_ascii token_ascii)
  show "CanonicalHeaderKey (ToLower k) = CanonicalHeaderKey k"
    using assms \<open>list_all token_byte (ToLower k)\<close> idem by (simp only: CanonicalHeaderKey_eq)
  show "ToLower k = [] \<longleftrightarrow> k = []" by (simp add: lower)
qed

lemma set_headers_to_sign: "set (headers_to_sign h) = insert ''host'' (ToLower ` set (keys h))"
  by (auto simp: headers_to_sign_def simp del: sort_key_simps)

lemma lower_inj: "signable_header h \<Longrightarrow> inj_on ToLower (set (keys h))"
proof (rule inj_onI)
  fix x y assume h: "signable_header h" "x \<in> set (keys h)" "y \<in> set (keys h)" "ToLower x = ToLower y"
  then have "CanonicalHeaderKey x = CanonicalHeaderKey y" using CanonicalHeaderKey_eq signable_key(2) by blast
  then show "x = y" using h signable_key(3) by metis
qed

lemma host_lower: "ToLower ''host'' = ''host''" "list_all token_byte ''host''" "CanonicalHeaderKey ''host'' = ''Host''"
  by code_simp+

lemma headers_to_sign_token:
  assumes "signable_header h" "l \<in> set (headers_to_sign h)"
  shows "l \<noteq> []" "list_all token_byte l" "ToLower l = l"
proof -
  from assms(2) consider "l = ''host''" | k where "k \<in> set (keys h)" "l = ToLower k" by (auto simp: set_headers_to_sign)
  then have "l \<noteq> [] \<and> list_all token_byte l \<and> ToLower l = l"
  proof cases
    case 1
    show ?thesis unfolding 1 using host_lower by blast
  next
    case (2 k)
    note k = signable_key [OF assms(1) 2(1)]
    show ?thesis unfolding 2(2) using k(1) lower_key [OF k(2)] by blast
  qed
  then show "l \<noteq> []" "list_all token_byte l" "ToLower l = l" by blast+
qed

lemma headers_to_sign_valid:
  assumes "signable_header h" "''X-Amz-Date'' \<in> set (keys h)"
  shows "validateSignedHeaders (headers_to_sign h)"
proof -
  let ?f = "filter (\<lambda>l. l \<noteq> ''host'') (map ToLower (keys h))"
  have "distinct (map ToLower (keys h))"
    using assms(1) lower_inj by (simp add: distinct_map signable_header_def)
  then have "distinct (headers_to_sign h)" by (simp add: headers_to_sign_def del: sort_key_simps)
  moreover have "sorted (headers_to_sign h)" by (simp add: headers_to_sign_def del: sort_key_simps)
  ultimately have "successively (<) (headers_to_sign h)"
    by (intro successively_if_sorted_wrt) (simp add: strict_sorted_iff)
  moreover have "ToLower ''X-Amz-Date'' = ''x-amz-date''" by code_simp
  then have "''x-amz-date'' \<in> set (headers_to_sign h)" using assms(2) by (force simp: set_headers_to_sign)
  moreover have "''host'' \<in> set (headers_to_sign h)" by (simp add: set_headers_to_sign)
  moreover have "list_all (\<lambda>l. l \<noteq> [] \<and> l = ToLower l) (headers_to_sign h)"
    using headers_to_sign_token [OF assms(1)] by (simp add: list_all_iff)
  ultimately show ?thesis unfolding validateSignedHeaders_def by (metis empty_iff list.set(1))
qed

lemma headers_to_sign_split:
  assumes "signable_header h"
  shows "Split (Join (headers_to_sign h) '';'') '';'' = headers_to_sign h" "CHR '','' \<notin> set (Join (headers_to_sign h) '';'')"
proof -
  have free: "CHR '';'' \<notin> set l \<and> CHR '','' \<notin> set l" if "l \<in> set (headers_to_sign h)" for l
    using headers_to_sign_token(2) [OF assms that] token_plain by (fastforce simp: list_all_iff)
  moreover have "headers_to_sign h \<noteq> []" by (metis empty_iff insert_not_empty list.set(1) set_headers_to_sign)
  ultimately show "Split (Join (headers_to_sign h) '';'') '';'' = headers_to_sign h" by (intro Split_Join_char) auto
  have "CHR '','' \<notin> set (Join ls '';'')" if "\<And>l. l \<in> set ls \<Longrightarrow> CHR '','' \<notin> set l" for ls
    using that by (induction ls "'';''" rule: Join.induct) auto
  then show "CHR '','' \<notin> set (Join (headers_to_sign h) '';'')" using free by blast
qed

section \<open>A signed request verifies\<close>

definition signable :: "http_request \<Rightarrow> bool" where
  "signable r =
     (signable_header (r_Header r) \<and> r_Trailer r = []
      \<and> list_all (\<lambda>k. k \<notin> set (keys (r_Header r))) [''Authorization'', ''X-Amz-Security-Token'', ''X-Amz-Trailer''])"

definition signed_at :: "http_request \<Rightarrow> civil \<Rightarrow> http_request" where
  "signed_at r now =
     r\<lparr>r_Header := header_Set (header_Set (r_Header r) ''X-Amz-Date'' (time_Format layout_amz now))
        ''x-amz-content-sha256'' unsignedPayload\<rparr>"

definition signing_info :: "http_request \<Rightarrow> string \<Rightarrow> string \<Rightarrow> string \<Rightarrow> civil \<Rightarrow> AuthInfo" where
  "signing_info r accessKey secretKey region now =
     (let hs = headers_to_sign (r_Header (signed_at r now)) in
      \<lparr>ai_AccessKeyID = accessKey, ai_Date = time_Format layout_date now, ai_Region = region, ai_Service = ''s3'',
       ai_SignedHeaders = hs,
       ai_Signature = signatureForCanonicalRequest (time_Format layout_amz now) (scope_of now region)
         (buildCanonicalRequest (signed_at r now) hs)
         (computeSigningKey secretKey (time_Format layout_date now) region ''s3''),
       ai_Scope = scope_of now region\<rparr>)"

definition authorization_value :: "AuthInfo \<Rightarrow> string" where
  "authorization_value ai =
     ''AWS4-HMAC-SHA256 Credential='' @ ai_AccessKeyID ai @ ''/'' @ ai_Scope ai @ '', SignedHeaders=''
     @ Join (ai_SignedHeaders ai) '';'' @ '', Signature='' @ ai_Signature ai"

lemma signRequest_eq:
  "signRequest r accessKey secretKey region now =
     (signed_at r now)\<lparr>r_Header := header_Set (r_Header (signed_at r now)) ''Authorization''
       (authorization_value (signing_info r accessKey secretKey region now))\<rparr>"
  by (simp add: signRequest_def signed_at_def signing_info_def authorization_value_def Let_def scope_of_def
      signatureForCanonicalRequest_def)

lemma amz_names:
  "CanonicalHeaderKey ''X-Amz-Date'' = ''X-Amz-Date''" "CanonicalHeaderKey ''x-amz-date'' = ''X-Amz-Date''"
  "CanonicalHeaderKey ''x-amz-content-sha256'' = ''X-Amz-Content-Sha256''"
  "CanonicalHeaderKey ''x-amz-security-token'' = ''X-Amz-Security-Token''"
  "CanonicalHeaderKey ''x-amz-trailer'' = ''X-Amz-Trailer''"
  "CanonicalHeaderKey ''Authorization'' = ''Authorization''"
  by code_simp+

lemma amz_tokens:
  "list_all token_byte ''X-Amz-Date''" "list_all token_byte ''x-amz-content-sha256''" "list_all token_byte ''Authorization''"
  "ToLower ''X-Amz-Content-Sha256'' = ''x-amz-content-sha256''" "\<not> HasPrefix (ToLower ''Authorization'') ''x-amz-''"
  by code_simp+

lemma signable_signed_at: "signable r \<Longrightarrow> signable_header (r_Header (signed_at r now))"
  by (simp add: signed_at_def signable_def signable_Set [OF signable_Set [OF _ _ amz_tokens(1)] _ amz_tokens(2)])

lemma keys_signed_at:
  "set (keys (r_Header (signed_at r now))) = {''X-Amz-Content-Sha256'', ''X-Amz-Date''} \<union> set (keys (r_Header r))"
  by (simp add: signed_at_def set_keys_Set amz_names)

lemma parse_authorization:
  assumes "wf_civil now" "accessKeyIDPattern accessKey" "list_all access_char region" "region \<noteq> []" "signable r"
  shows "parseAuthorizationHeader (authorization_value (signing_info r accessKey secretKey region now)) =
    Some (signing_info r accessKey secretKey region now)"
proof -
  let ?ai = "signing_info r accessKey secretKey region now"
  let ?hs = "headers_to_sign (r_Header (signed_at r now))"
  let ?c = "''Credential='' @ accessKey @ ''/'' @ scope_of now region"
  let ?s = "''SignedHeaders='' @ Join ?hs '';''"
  let ?g = "''Signature='' @ ai_Signature ?ai"
  have fields: "ai_AccessKeyID ?ai = accessKey" "ai_Scope ?ai = scope_of now region" "ai_SignedHeaders ?ai = ?hs"
    by (simp_all add: signing_info_def Let_def)
  have h: "signable_header (r_Header (signed_at r now))" using assms(5) by (rule signable_signed_at)
  have "CHR '','' \<notin> set ?c"
    using assms(2,3) access_free date_access(1) by (auto simp: accessKeyIDPattern_def scope_of_def)
  moreover have "CHR '','' \<notin> set ?s" using headers_to_sign_split(2) [OF h] by simp
  moreover have "CHR '','' \<notin> set ?g" using hex_string_plain by (simp add: signing_info_def Let_def signatureForCanonicalRequest_def)
  ultimately have split: "Split (TrimPrefix (authorization_value ?ai) ''AWS4-HMAC-SHA256 '') '', '' = [?c, ?s, ?g]"
    using Split_three [of "CHR '',''" ?c ?s ?g "'' ''"] by (simp add: authorization_value_def fields TrimPrefix_def HasPrefix_def)
  moreover have "validateSignedHeaders ?hs" using h by (rule headers_to_sign_valid) (simp add: keys_signed_at)
  moreover have "hex_signature (ai_Signature ?ai)"
    by (simp add: signing_info_def Let_def signatureForCanonicalRequest_def hex_signature_hmac)
  moreover have "HasPrefix (authorization_value ?ai) ''AWS4-HMAC-SHA256 ''"
    by (simp add: authorization_value_def HasPrefix_def)
  moreover have "auth_field ''Credential'' ?c = Some (accessKey @ ''/'' @ scope_of now region)"
    "auth_field ''SignedHeaders'' ?s = Some (Join ?hs '';'')" "auth_field ''Signature'' ?g = Some (ai_Signature ?ai)"
    using auth_field_read [of "''Credential''"] auth_field_read [of "''SignedHeaders''"] auth_field_read [of "''Signature''"] by simp_all
  moreover have "?ai = \<lparr>ai_AccessKeyID = accessKey, ai_Date = time_Format layout_date now, ai_Region = region, ai_Service = ''s3'',
     ai_SignedHeaders = ?hs, ai_Signature = ai_Signature ?ai, ai_Scope = scope_of now region\<rparr>"
    by (simp add: signing_info_def Let_def)
  ultimately show ?thesis
    using parse_credential_read [OF assms(1-4)] headers_to_sign_split(1) [OF h]
    by (simp only: parseAuthorizationHeader_def split) simp
qed

text \<open>Adding the \<^verbatim>\<open>Authorization\<close> header leaves the canonical request as it was signed.\<close>

lemma signed_not_authorization:
  assumes "signable r" "l \<in> set (headers_to_sign (r_Header (signed_at r now)))"
  shows "CanonicalHeaderKey l \<noteq> CanonicalHeaderKey ''Authorization''"
proof -
  have h: "signable_header (r_Header (signed_at r now))" using assms(1) by (rule signable_signed_at)
  from assms(2) consider "l = ''host''" | k where "k \<in> set (keys (r_Header (signed_at r now)))" "l = ToLower k"
    by (auto simp: set_headers_to_sign)
  then show ?thesis
  proof cases
    case 1
    then show ?thesis by (simp add: host_lower amz_names)
  next
    case (2 k)
    note k = signable_key [OF h 2(1)]
    have "CanonicalHeaderKey l = k" unfolding 2(2) using lower_key(3) [OF k(2)] k(3) by simp
    moreover have "k \<noteq> ''Authorization''" using 2(1) assms(1) by (auto simp: keys_signed_at signable_def)
    ultimately show ?thesis by (simp add: amz_names)
  qed
qed

lemma signRequest_fields:
  "r_Host (signRequest r accessKey secretKey region now) = r_Host (signed_at r now)"
  "r_URL (signRequest r accessKey secretKey region now) = r_URL (signed_at r now)"
  "r_ContentLength (signRequest r accessKey secretKey region now) = r_ContentLength (signed_at r now)"
  "r_Method (signRequest r accessKey secretKey region now) = r_Method (signed_at r now)"
  by (simp_all add: signRequest_eq)

lemma signed_values_unchanged:
  assumes "signable r" "l \<in> set (headers_to_sign (r_Header (signed_at r now)))"
  shows "signed_values (signRequest r accessKey secretKey region now) l = signed_values (signed_at r now) l"
proof -
  have v: "header_Values (r_Header (signRequest r accessKey secretKey region now)) l = header_Values (r_Header (signed_at r now)) l"
    using signed_not_authorization [OF assms] by (simp add: signRequest_eq header_Values_Set_other)
  show ?thesis unfolding signed_values_def v signRequest_fields ..
qed

lemma canonical_request_unchanged:
  assumes "signable r"
  shows "buildCanonicalRequest (signRequest r accessKey secretKey region now) (headers_to_sign (r_Header (signed_at r now))) =
    buildCanonicalRequest (signed_at r now) (headers_to_sign (r_Header (signed_at r now)))"
proof -
  let ?s = "signRequest r accessKey secretKey region now" and ?hs = "headers_to_sign (r_Header (signed_at r now))"
  have lines: "map (canonical_header ?s) ?hs = map (canonical_header (signed_at r now)) ?hs"
    unfolding canonical_header_def using signed_values_unchanged [OF assms] by (intro map_cong) simp_all
  have "header_Get (r_Header ?s) ''x-amz-content-sha256'' = header_Get (r_Header (signed_at r now)) ''x-amz-content-sha256''"
    by (simp add: signRequest_eq header_Get_def header_Values_Set_other amz_names)
  then show ?thesis unfolding buildCanonicalRequest_def lines signRequest_fields by simp
qed

lemma clean_signed:
  assumes "signable r" "clean_request (signed_at r now) (headers_to_sign (r_Header (signed_at r now)))"
  shows "clean_request (signRequest r accessKey secretKey region now) (headers_to_sign (r_Header (signed_at r now)))"
  using assms(2) signed_values_unchanged [OF assms(1)] by (simp add: clean_request_def signRequest_fields list_all_iff)

lemma signed_headers_present:
  assumes "signable r"
  shows "requireSignedAmzHeaders (signRequest r accessKey secretKey region now) (headers_to_sign (r_Header (signed_at r now)))"
proof -
  have "ToLower k \<in> ToLower ` set (headers_to_sign (r_Header (signed_at r now)))" if "k \<in> set (keys (r_Header (signed_at r now)))" for k
  proof -
    have "ToLower (ToLower k) = ToLower k"
      using lower_key(2) signable_key(2) [OF signable_signed_at [OF assms] that] by blast
    moreover have "ToLower k \<in> set (headers_to_sign (r_Header (signed_at r now)))" using that by (simp add: set_headers_to_sign)
    ultimately show ?thesis by (metis image_eqI)
  qed
  then show ?thesis
    using amz_tokens(5) by (auto simp: requireSignedAmzHeaders_def signRequest_eq list_all_iff set_keys_Set amz_names Let_def)
qed

lemma signed_header_values:
  fixes accessKey secretKey region :: string and now :: civil
  assumes "signable r"
  defines "h \<equiv> r_Header (signRequest r accessKey secretKey region now)"
  shows "header_Values h ''x-amz-date'' = [time_Format layout_amz now]" "header_Values h ''X-Amz-Date'' = [time_Format layout_amz now]"
    "header_Values h ''x-amz-content-sha256'' = [unsignedPayload]"
    "header_Values h ''x-amz-security-token'' = []" "header_Values h ''x-amz-trailer'' = []"
    "header_Values h ''Authorization'' = [authorization_value (signing_info r accessKey secretKey region now)]"
proof -
  have none: "map_of (r_Header r) k = None" if "k \<in> set [''Authorization'', ''X-Amz-Security-Token'', ''X-Amz-Trailer'']" for k
    using assms(1) that unfolding map_of_None_keys signable_def list_all_iff by blast
  show "header_Values h ''x-amz-date'' = [time_Format layout_amz now]" "header_Values h ''X-Amz-Date'' = [time_Format layout_amz now]"
    "header_Values h ''x-amz-content-sha256'' = [unsignedPayload]"
    "header_Values h ''x-amz-security-token'' = []" "header_Values h ''x-amz-trailer'' = []"
    "header_Values h ''Authorization'' = [authorization_value (signing_info r accessKey secretKey region now)]"
    by (simp_all add: h_def signRequest_eq signed_at_def header_Values_def header_Set_def update_conv' amz_names none)
qed

lemma verify_signed:
  assumes "wf_civil now" "signable r"
  shows "verifySignatureAtTime (signRequest r accessKey secretKey region now)
      (Some (signing_info r accessKey secretKey region now)) secretKey clock maxSkew =
    (if too_skewed clock (now\<lparr>tm_nsec := 0\<rparr>) maxSkew then Inl errRequestTimeTooSkewed else Inr ())"
proof -
  let ?ai = "signing_info r accessKey secretKey region now"
  let ?r = "signRequest r accessKey secretKey region now"
  have info: "ai_SignedHeaders ?ai = headers_to_sign (r_Header (signed_at r now))" "ai_Service ?ai = ''s3''"
    "ai_Date ?ai = time_Format layout_date now" "ai_Region ?ai = region" "ai_Scope ?ai = scope_of now region"
    "ai_Signature ?ai = signatureForCanonicalRequest (time_Format layout_amz now) (scope_of now region)
       (buildCanonicalRequest ?r (headers_to_sign (r_Header (signed_at r now))))
       (computeSigningKey secretKey (time_Format layout_date now) region ''s3'')"
    by (simp_all add: signing_info_def Let_def canonical_request_unchanged [OF assms(2)])
  have valid: "validateSignedHeaders (headers_to_sign (r_Header (signed_at r now)))"
    using signable_signed_at [OF assms(2)] by (rule headers_to_sign_valid) (simp add: keys_signed_at)
  have date: "time_Format layout_date (now\<lparr>tm_nsec := 0\<rparr>) = time_Format layout_date now" by (simp add: date_digits)
  have "r_Trailer ?r = []" using assms(2) by (simp add: signRequest_eq signed_at_def signable_def)
  moreover have "time_Format layout_amz now \<noteq> []" by (simp add: time_Format_def layout_amz_def)
  ultimately show ?thesis
    using valid signed_headers_present [OF assms(2)]
    by (simp add: verifySignatureAtTime_def info signed_header_values [OF assms(2)] header_Get_def requireSingletonHeader_def
        unsignedPayload_def time_Parse_amz_Format [OF assms(1)] date scope_of_def)
qed

section \<open>What an accepted request satisfies\<close>

definition string_to_sign :: "http_request \<Rightarrow> AuthInfo \<Rightarrow> string" where
  "string_to_sign r ai =
     buildStringToSign (header_Get (r_Header r) ''X-Amz-Date'') (ai_Scope ai) (buildCanonicalRequest r (ai_SignedHeaders ai))"

definition signing_key :: "string \<Rightarrow> AuthInfo \<Rightarrow> string" where
  "signing_key secretKey ai = computeSigningKey secretKey (ai_Date ai) (ai_Region ai) (ai_Service ai)"

lemma verify_accepts:
  assumes "verifySignatureAtTime r (Some ai) secretKey now maxSkew = Inr ()"
  obtains t z where "validateSignedHeaders (ai_SignedHeaders ai)" "requireSignedAmzHeaders r (ai_SignedHeaders ai)"
    "header_Values (r_Header r) ''x-amz-content-sha256'' = [unsignedPayload]"
    "time_Parse layout_amz (header_Get (r_Header r) ''X-Amz-Date'') = Some (t, z)"
    "ai_Date ai = time_Format layout_date t" "\<not> too_skewed now t maxSkew"
    "ai_Signature ai = hex_string (hmacSHA256 (signing_key secretKey ai) (string_to_sign r ai))"
proof -
  from assms obtain t z where "validateSignedHeaders (ai_SignedHeaders ai)" "requireSignedAmzHeaders r (ai_SignedHeaders ai)"
    and one: "length (header_Values (r_Header r) ''x-amz-content-sha256'') = 1"
      "header_Get (r_Header r) ''x-amz-content-sha256'' = unsignedPayload"
    and "time_Parse layout_amz (header_Get (r_Header r) ''X-Amz-Date'') = Some (t, z)"
      "ai_Date ai = time_Format layout_date t" "\<not> too_skewed now t maxSkew"
      "ai_Signature ai = hex_string (hmacSHA256 (signing_key secretKey ai) (string_to_sign r ai))"
    by (auto simp: verifySignatureAtTime_def res_simps Let_def requireSingletonHeader_def signatureForCanonicalRequest_def
        string_to_sign_def signing_key_def)
  moreover have "header_Values (r_Header r) ''x-amz-content-sha256'' = [unsignedPayload]"
    using one by (auto simp: header_Get_def length_Suc_conv)
  ultimately show thesis using that by blast
qed

text \<open>The nanoseconds from \<open>t\<close> to \<open>now\<close>.\<close>

definition elapsed :: "civil \<Rightarrow> civil \<Rightarrow> int" where
  "elapsed now t = (seconds now - seconds t) * 1000000000 + int (tm_nsec now) - int (tm_nsec t)"

lemma Sub_elapsed: "Sub now t = max (- (2 ^ 63)) (min (2 ^ 63 - 1) (elapsed now t))"
  by (simp add: Sub_def elapsed_def)

lemma too_skewed_iff:
  assumes "0 < maxSkew" "maxSkew < 2 ^ 63 - 1"
  shows "too_skewed now t maxSkew \<longleftrightarrow> maxSkew < \<bar>elapsed now t\<bar> \<and> - (2 ^ 63) < elapsed now t"
proof -
  consider "elapsed now t \<le> - (2 ^ 63)" | "- (2 ^ 63) < elapsed now t" "elapsed now t < 0" | "0 \<le> elapsed now t" by linarith
  then show ?thesis
  proof cases
    case 1
    then have "Sub now t = - (2 ^ 63)" by (simp add: Sub_elapsed)
    then show ?thesis using 1 assms by (simp add: too_skewed_def Let_def wrap64_def)
  next
    case 2
    then have "Sub now t = elapsed now t" "wrap64 (- elapsed now t) = - elapsed now t" by (simp_all add: Sub_elapsed wrap64_def)
    then show ?thesis using 2 assms by (simp add: too_skewed_def Let_def)
  next
    case 3
    then show ?thesis using assms by (auto simp: too_skewed_def Let_def Sub_elapsed)
  qed
qed

lemma far_future_not_skewed:
  assumes "elapsed now t \<le> - (2 ^ 63)"
  shows "\<not> too_skewed now t maxSkew"
proof -
  have "Sub now t = - (2 ^ 63)" using assms by (simp add: Sub_elapsed)
  then show ?thesis by (simp add: too_skewed_def Let_def wrap64_def)
qed

lemma string_to_sign_inject:
  assumes "string_to_sign r ai = string_to_sign r' ai" "one_line (header_Get (r_Header r) ''X-Amz-Date'')"
    "one_line (header_Get (r_Header r') ''X-Amz-Date'')"
  shows "sha256 (buildCanonicalRequest r (ai_SignedHeaders ai)) = sha256 (buildCanonicalRequest r' (ai_SignedHeaders ai))"
  using assms by (simp add: string_to_sign_def buildStringToSign_def line_eq hex_string_inject)

lemma clean_date:
  assumes "clean_request r hs" "validateSignedHeaders hs"
  shows "one_line (header_Get (r_Header r) ''X-Amz-Date'')"
proof -
  have "list_all one_line (signed_values r ''x-amz-date'')"
    using assms by (auto simp: clean_request_def validateSignedHeaders_def list_all_iff)
  then have "list_all one_line (header_Values (r_Header r) ''X-Amz-Date'')"
    by (simp add: signed_values_def header_Values_def amz_names)
  then show ?thesis by (cases "header_Values (r_Header r) ''X-Amz-Date''") (simp_all add: header_Get_def)
qed

section \<open>Properties\<close>

definition collision :: "('a \<Rightarrow> 'b) \<Rightarrow> 'a \<Rightarrow> 'a \<Rightarrow> bool" where
  "collision f x y = (x \<noteq> y \<and> f x = f y)"

text \<open>
  C21. Two requests that verify under the same secret with one \<^verbatim>\<open>Authorization\<close> value agree on the method,
  the decoded path, the query parameters and the value of every signed header, among them every
  \<^verbatim>\<open>x-amz-\<close> header that either request has except the payload hash, which is \<^verbatim>\<open>UNSIGNED-PAYLOAD\<close> in
  both. Otherwise their canonical requests collide under SHA-256, or their strings to sign under HMAC.
\<close>

theorem accepted_requests_agree:
  assumes "verifySignatureAtTime r (Some ai) secretKey now maxSkew = Inr ()"
    and "verifySignatureAtTime r' (Some ai) secretKey now' maxSkew' = Inr ()"
    and "clean_request r (ai_SignedHeaders ai)" "clean_request r' (ai_SignedHeaders ai)"
  shows "requireSignedAmzHeaders r (ai_SignedHeaders ai) \<and> requireSignedAmzHeaders r' (ai_SignedHeaders ai)
    \<and> header_Values (r_Header r) ''x-amz-content-sha256'' = [''UNSIGNED-PAYLOAD'']
    \<and> header_Values (r_Header r') ''x-amz-content-sha256'' = [''UNSIGNED-PAYLOAD'']
    \<and> (same_signed_parts r r' (ai_SignedHeaders ai)
       \<or> collision sha256 (buildCanonicalRequest r (ai_SignedHeaders ai)) (buildCanonicalRequest r' (ai_SignedHeaders ai))
       \<or> collision (hmacSHA256 (signing_key secretKey ai)) (string_to_sign r ai) (string_to_sign r' ai))"
proof -
  obtain t z where r: "validateSignedHeaders (ai_SignedHeaders ai)" "requireSignedAmzHeaders r (ai_SignedHeaders ai)"
      "header_Values (r_Header r) ''x-amz-content-sha256'' = [unsignedPayload]"
      "ai_Signature ai = hex_string (hmacSHA256 (signing_key secretKey ai) (string_to_sign r ai))"
    using assms(1) by (rule verify_accepts) blast
  obtain t' z' where r': "requireSignedAmzHeaders r' (ai_SignedHeaders ai)"
      "header_Values (r_Header r') ''x-amz-content-sha256'' = [unsignedPayload]"
      "ai_Signature ai = hex_string (hmacSHA256 (signing_key secretKey ai) (string_to_sign r' ai))"
    using assms(2) by (rule verify_accepts) blast
  have "same_signed_parts r r' (ai_SignedHeaders ai)
      \<or> collision sha256 (buildCanonicalRequest r (ai_SignedHeaders ai)) (buildCanonicalRequest r' (ai_SignedHeaders ai))"
    if "string_to_sign r ai = string_to_sign r' ai"
    using string_to_sign_inject [OF that] clean_date [OF _ r(1)] assms(3,4) buildCanonicalRequest_inject
    by (auto simp: collision_def)
  moreover have "hmacSHA256 (signing_key secretKey ai) (string_to_sign r ai) = hmacSHA256 (signing_key secretKey ai) (string_to_sign r' ai)"
    using r(4) r'(3) by (simp add: hex_string_inject)
  ultimately show ?thesis using r(2,3) r'(1,2) by (auto simp: collision_def unsignedPayload_def)
qed

text \<open>
  C22. A request that \<^verbatim>\<open>signRequest\<close> signs carries an \<^verbatim>\<open>Authorization\<close> value that the parser reads, with
  the access key that was given, and the signed request verifies under the same secret at every clock
  for which its date is not too skewed.
\<close>

theorem signed_request_verifies:
  assumes "wf_civil now" "accessKeyIDPattern accessKey" "list_all access_char region" "region \<noteq> []" "signable r"
    and "\<not> too_skewed clock (now\<lparr>tm_nsec := 0\<rparr>) maxSkew"
  shows "\<exists>v ai. header_Values (r_Header (signRequest r accessKey secretKey region now)) ''Authorization'' = [v]
    \<and> parseAuthorizationHeader v = Some ai \<and> ai_AccessKeyID ai = accessKey
    \<and> verifySignatureAtTime (signRequest r accessKey secretKey region now) (Some ai) secretKey clock maxSkew = Inr ()"
  using signed_header_values(6) [OF assms(5)] parse_authorization [OF assms(1-5)] verify_signed [OF assms(1,5)] assms(6)
  by (force simp: signing_info_def Let_def)

text \<open>
  C24. The check of the clock. A request that verifies with a positive bound on the skew has a date within
  that bound of the clock, or one that lies at least 2^63 nanoseconds, some 292 years, in the future.
\<close>

theorem accepted_request_is_timely:
  assumes "verifySignatureAtTime r (Some ai) secretKey now maxSkew = Inr ()" "0 < maxSkew" "maxSkew < 2 ^ 63 - 1"
  shows "\<exists>t z. time_Parse layout_amz (header_Get (r_Header r) ''X-Amz-Date'') = Some (t, z)
    \<and> ai_Date ai = time_Format layout_date t \<and> (\<bar>elapsed now t\<bar> \<le> maxSkew \<or> elapsed now t \<le> - (2 ^ 63))"
  using assms(1)
proof (rule verify_accepts)
  fix t z assume "\<not> too_skewed now t maxSkew" "ai_Date ai = time_Format layout_date t"
    "time_Parse layout_amz (header_Get (r_Header r) ''X-Amz-Date'') = Some (t, z)"
  then show ?thesis using too_skewed_iff [OF assms(2,3)] by (metis not_less)
qed

text \<open>
  C25. The second case does occur: a request signed with a date so far in the future verifies whatever the
  bound on the skew, because the absolute value of the least 64-bit integer is that integer.
\<close>

theorem far_future_date_verifies:
  assumes "wf_civil now" "signable r" "elapsed clock (now\<lparr>tm_nsec := 0\<rparr>) \<le> - (2 ^ 63)"
  shows "verifySignatureAtTime (signRequest r accessKey secretKey region now)
    (Some (signing_info r accessKey secretKey region now)) secretKey clock maxSkew = Inr ()"
  using verify_signed [OF assms(1,2)] far_future_not_skewed [OF assms(3)] by simp

section \<open>Witnesses\<close>

definition demo_request :: http_request where
  "demo_request =
     \<lparr>r_Method = ''GET'',
      r_URL = \<lparr>u_Scheme = [], u_Host = [], u_Path = ''/bucket/a b'', u_RawPath = [], u_RawQuery = ''partNumber=1''\<rparr>,
      r_Host = ''s3.example'', r_Header = [(''User-Agent'', [''demo'']), (''X-Amz-Meta-A'', ['' x  y ''])],
      r_ContentLength = 0, r_TransferEncoding = [], r_TLS = True, r_Trailer = []\<rparr>"

definition demo_clock :: civil where
  "demo_clock = \<lparr>tm_year = 2026, tm_month = 1, tm_day = 2, tm_hour = 3, tm_min = 4, tm_sec = 5, tm_nsec = 6\<rparr>"

lemma demo_signable: "signable demo_request" "signable (demo_request\<lparr>r_TLS := False\<rparr>)" "wf_civil demo_clock"
  "wf_civil (demo_clock\<lparr>tm_year := 9999\<rparr>)"
  by code_simp+

lemma demo_skew: "\<not> too_skewed demo_clock (demo_clock\<lparr>tm_nsec := 0\<rparr>) 900000000000"
  "elapsed demo_clock (demo_clock\<lparr>tm_year := 9999, tm_nsec := 0\<rparr>) \<le> - (2 ^ 63)"
  by code_simp+

lemma transport_not_signed: "signing_info (r\<lparr>r_TLS := b\<rparr>) accessKey secretKey region now = signing_info r accessKey secretKey region now"
proof -
  have "signed_values (q\<lparr>r_TLS := b\<rparr>) h = signed_values q h" for q h
  proof -
    have fields: "r_Host (q\<lparr>r_TLS := b\<rparr>) = r_Host q" "r_URL (q\<lparr>r_TLS := b\<rparr>) = r_URL q" "r_Header (q\<lparr>r_TLS := b\<rparr>) = r_Header q"
      "r_ContentLength (q\<lparr>r_TLS := b\<rparr>) = r_ContentLength q" by simp_all
    show ?thesis unfolding signed_values_def fields ..
  qed
  then have "canonical_header (q\<lparr>r_TLS := b\<rparr>) = canonical_header q" for q by (simp add: canonical_header_def fun_eq_iff)
  then have "buildCanonicalRequest (q\<lparr>r_TLS := b\<rparr>) hs = buildCanonicalRequest q hs" for q hs by (simp add: buildCanonicalRequest_def)
  moreover have "signed_at (r\<lparr>r_TLS := b\<rparr>) now = (signed_at r now)\<lparr>r_TLS := b\<rparr>" by (simp add: signed_at_def)
  ultimately show ?thesis by (simp add: signing_info_def)
qed

definition demo_signed :: "bool \<Rightarrow> http_request" where
  "demo_signed tls = signRequest (demo_request\<lparr>r_TLS := tls\<rparr>) ''AK'' ''SK'' ''us-east-1'' demo_clock"

definition demo_info :: AuthInfo where
  "demo_info = signing_info demo_request ''AK'' ''SK'' ''us-east-1'' demo_clock"

lemma demo_verifies: "verifySignatureAtTime (demo_signed tls) (Some demo_info) ''SK'' demo_clock 900000000000 = Inr ()"
proof -
  have "signable (demo_request\<lparr>r_TLS := tls\<rparr>)" using demo_signable(1) by (simp add: signable_def)
  from verify_signed [OF demo_signable(3) this] show ?thesis
    using demo_skew(1) by (simp add: demo_signed_def demo_info_def transport_not_signed)
qed

lemma demo_clean: "clean_request (demo_signed tls) (ai_SignedHeaders demo_info)"
proof -
  have "signable (demo_request\<lparr>r_TLS := tls\<rparr>)" using demo_signable(1) by (simp add: signable_def)
  moreover have "clean_request (signed_at (demo_request\<lparr>r_TLS := tls\<rparr>) demo_clock)
      (headers_to_sign (r_Header (signed_at (demo_request\<lparr>r_TLS := tls\<rparr>) demo_clock)))"
    by (cases tls; code_simp)
  ultimately have "clean_request (demo_signed tls) (headers_to_sign (r_Header (signed_at (demo_request\<lparr>r_TLS := tls\<rparr>) demo_clock)))"
    unfolding demo_signed_def by (rule clean_signed)
  then show ?thesis by (simp add: demo_info_def signing_info_def signed_at_def Let_def)
qed

theorem accepted_requests_agree_witness:
  "same_signed_parts (demo_signed True) (demo_signed False) (ai_SignedHeaders demo_info)
   \<or> collision sha256 (buildCanonicalRequest (demo_signed True) (ai_SignedHeaders demo_info))
       (buildCanonicalRequest (demo_signed False) (ai_SignedHeaders demo_info))
   \<or> collision (hmacSHA256 (signing_key ''SK'' demo_info)) (string_to_sign (demo_signed True) demo_info)
       (string_to_sign (demo_signed False) demo_info)"
  using accepted_requests_agree [OF demo_verifies demo_verifies demo_clean demo_clean] by blast

theorem signed_request_verifies_witness:
  "\<exists>v ai. header_Values (r_Header (signRequest demo_request ''AK'' ''SK'' ''us-east-1'' demo_clock)) ''Authorization'' = [v]
    \<and> parseAuthorizationHeader v = Some ai \<and> ai_AccessKeyID ai = ''AK''
    \<and> verifySignatureAtTime (signRequest demo_request ''AK'' ''SK'' ''us-east-1'' demo_clock) (Some ai) ''SK'' demo_clock 900000000000 = Inr ()"
proof (rule signed_request_verifies [OF demo_signable(3) _ _ _ demo_signable(1) demo_skew(1)])
  show "accessKeyIDPattern ''AK''" "list_all access_char ''us-east-1''" "''us-east-1'' \<noteq> []" by code_simp+
qed

theorem accepted_request_is_timely_witness:
  "\<exists>t z. time_Parse layout_amz (header_Get (r_Header (demo_signed True)) ''X-Amz-Date'') = Some (t, z)
    \<and> ai_Date demo_info = time_Format layout_date t
    \<and> (\<bar>elapsed demo_clock t\<bar> \<le> 900000000000 \<or> elapsed demo_clock t \<le> - (2 ^ 63))"
  using accepted_request_is_timely [OF demo_verifies] by simp

theorem far_future_date_verifies_witness:
  "verifySignatureAtTime (signRequest demo_request ''AK'' ''SK'' ''us-east-1'' (demo_clock\<lparr>tm_year := 9999\<rparr>))
    (Some (signing_info demo_request ''AK'' ''SK'' ''us-east-1'' (demo_clock\<lparr>tm_year := 9999\<rparr>))) ''SK'' demo_clock 900000000000 = Inr ()"
  using far_future_date_verifies [OF demo_signable(4,1)] demo_skew(2) by simp

end
