(* ===== verification/S3_Proxy.thy ===== *)
theory S3_Proxy
  imports VBucket S3_Plan S3_Signing
begin

text \<open>
  The outbound side of the proxy: the rewriting of queries (\<^verbatim>\<open>s3_list_rewrite.go\<close>) and the construction
  of the request to the origin (\<^verbatim>\<open>proxyS3Request\<close> and its helpers in \<^verbatim>\<open>s3_proxy.go\<close>). The clock is an
  argument. A failure is the status, code and message that the client is sent, or the dereference of a
  nil pointer, which ends the handler.
\<close>

record s3_error =
  e_status :: nat
  e_code :: string
  e_message :: string

definition s3Error :: "nat \<Rightarrow> string \<Rightarrow> string \<Rightarrow> s3_error" where
  "s3Error status code message = \<lparr>e_status = status, e_code = code, e_message = message\<rparr>"

datatype proxy_error = Answer s3_error | NilDereference

section \<open>Queries\<close>

definition keyFields :: "S3OperationKind \<Rightarrow> string list" where
  "keyFields kind =
     (if kind = operationListObjects then [''marker'']
      else if kind = operationListObjectsV2 then [''start-after'']
      else if kind = operationListMultipartUploads then [''key-marker''] else [])"

definition prefixField :: "string \<Rightarrow> url_values \<Rightarrow> string \<Rightarrow> url_values" where
  "prefixField pathPrefix q field =
     (if values_Get q field \<noteq> [] \<and> pathPrefix \<noteq> [] then values_Set q field (pathPrefix @ values_Get q field) else q)"

definition tokenFields :: "(string \<times> string) list" where
  "tokenFields =
     [(''continuation-token'', ''continuation''), (''upload-id-marker'', ''upload''), (''uploadId'', ''upload''), (''versionId'', ''version'')]"

fun decodeFields :: "VBucketConfig option \<Rightarrow> (string \<times> string) list \<Rightarrow> url_values \<Rightarrow> token_error + url_values" where
  "decodeFields cfg [] q = Inr q"
| "decodeFields cfg ((name, kind) # fs) q =
     (if values_Get q name \<noteq> [] then
        bindE (decodeOpaqueToken cfg kind (values_Get q name)) (\<lambda>decoded. decodeFields cfg fs (values_Set q name decoded))
      else decodeFields cfg fs q)"

definition rewriteValues ::
  "S3OperationKind \<Rightarrow> url_values \<Rightarrow> string \<Rightarrow> bool \<Rightarrow> VBucketConfig option \<Rightarrow> token_error + url_values" where
  "rewriteValues kind q0 pathPrefix prefixKeyFields cfg =
     (let q1 = (if prefixKeyFields \<and> pathPrefix \<noteq> [] then values_Set q0 ''prefix'' (pathPrefix @ values_Get q0 ''prefix'') else q0);
          q2 = foldl (prefixField pathPrefix) q1 (keyFields kind)
      in if cfg = None then Inr q2 else decodeFields cfg tokenFields q2)"

definition rewriteOutboundQuery ::
  "S3OperationKind \<Rightarrow> string \<Rightarrow> string \<Rightarrow> bool \<Rightarrow> VBucketConfig option \<Rightarrow> token_error + string" where
  "rewriteOutboundQuery kind rawQuery pathPrefix prefixKeyFields cfg =
     bindE (rewriteValues kind (URL_Query rawQuery) pathPrefix prefixKeyFields cfg) (\<lambda>q. Inr (values_Encode q))"

definition stripListPathPrefix :: "string \<Rightarrow> string \<Rightarrow> bool \<Rightarrow> string" where
  "stripListPathPrefix txt pathPrefix urlEncoded =
     (if \<not> urlEncoded then TrimPrefix txt pathPrefix
      else case PathUnescape txt of
        None \<Rightarrow> TrimPrefix txt (awsURIEncode pathPrefix)
      | Some decoded \<Rightarrow> awsURIEncode (TrimPrefix decoded pathPrefix))"

section \<open>Headers\<close>

definition hopByHopNames :: "string list" where
  "hopByHopNames =
     [''Connection'', ''Keep-Alive'', ''Proxy-Authenticate'', ''Proxy-Authorization'', ''Te'', ''Trailer'', ''Transfer-Encoding'', ''Upgrade'']"

definition hopByHopHeaderSet :: "http_header \<Rightarrow> string \<Rightarrow> bool" where
  "hopByHopHeaderSet headers name =
     (name \<in> set hopByHopNames
      \<or> list_ex (\<lambda>connection. list_ex (\<lambda>n. TrimSpace n \<noteq> [] \<and> CanonicalHeaderKey (TrimSpace n) = name) (Split connection '',''))
          (header_Values headers ''Connection''))"

definition copyOutboundRequestHeaders :: "http_header \<Rightarrow> http_header \<Rightarrow> S3OperationKind \<Rightarrow> http_header" where
  "copyOutboundRequestHeaders src dst kind =
     foldl (\<lambda>d (name, vs).
         let canonical = CanonicalHeaderKey name in
         if hopByHopHeaderSet src canonical \<or> \<not> safeOutboundRequestHeader canonical kind then d
         else foldl (\<lambda>d v. header_Add d canonical v) d vs) dst src"

section \<open>URLs\<close>

datatype s3RequestTransform = requestTransformBucketRoot | requestTransformListQuery | requestTransformObjectPath

definition classifyS3RequestTransform :: "S3OperationKind \<Rightarrow> s3RequestTransform" where
  "classifyS3RequestTransform kind =
     (if kind \<in> set [operationListBuckets, operationCreateBucket, operationHeadBucket] then requestTransformBucketRoot
      else if kind \<in> set [operationListObjects, operationListObjectsV2, operationListMultipartUploads] then requestTransformListQuery
      else requestTransformObjectPath)"

definition parseEndpoint :: "string \<Rightarrow> parsed_url option" where
  "parseEndpoint endpoint = url_Parse (if Contains endpoint ''://'' then endpoint else ''https://'' @ endpoint)"

definition outboundPath :: "VBucketConfig \<Rightarrow> string \<Rightarrow> string" where
  "outboundPath cfg objectKey =
     (if RealUsePathStyle cfg then ''/'' @ RealBucket cfg @ (if objectKey \<noteq> [] then ''/'' @ objectKey else [])
      else ''/'' @ objectKey)"

definition outboundHost :: "VBucketConfig \<Rightarrow> string \<Rightarrow> string" where
  "outboundHost cfg host = (if RealUsePathStyle cfg then host else RealBucket cfg @ ''.'' @ host)"

definition buildOutboundURL :: "VBucketConfig \<Rightarrow> string \<Rightarrow> string \<Rightarrow> string option" where
  "buildOutboundURL cfg objectKey rawQuery =
     (case parseEndpoint (RealEndpoint cfg) of
        None \<Rightarrow> None
      | Some u \<Rightarrow> Some (url_String (u\<lparr>u_Host := outboundHost cfg (u_Host u), u_Path := outboundPath cfg objectKey, u_RawQuery := rawQuery\<rparr>)))"

text \<open>\<^verbatim>\<open>http.NewRequest\<close>: a request to the parsed URL, without headers.\<close>

definition removeEmptyPort :: "string \<Rightarrow> string" where
  "removeEmptyPort host =
     (case cut_last (CHR '':'') host of
        Some (_, post) \<Rightarrow> if CHR '']'' \<in> set post then host else TrimSuffix host '':''
      | None \<Rightarrow> host)"

definition newRequest :: "string \<Rightarrow> string \<Rightarrow> http_request option" where
  "newRequest method rawURL =
     (if \<not> list_all token_byte method then None
      else case url_Parse rawURL of
        None \<Rightarrow> None
      | Some u \<Rightarrow> Some
          \<lparr>r_Method = (if method = [] then ''GET'' else method),
           r_URL = go_url.truncate (u\<lparr>u_Host := removeEmptyPort (u_Host u)\<rparr>), r_Host = removeEmptyPort (u_Host u),
           r_Header = [], r_ContentLength = 0, r_TransferEncoding = [], r_TLS = False, r_Trailer = []\<rparr>)"

section \<open>The outbound request\<close>

definition normalizedPrefix :: "VBucketConfig \<Rightarrow> string" where
  "normalizedPrefix cfg = (if PathPrefix cfg \<noteq> [] then TrimSuffix (PathPrefix cfg) ''/'' @ ''/'' else [])"

text \<open>The copy source for the origin, with the version token of the client decoded.\<close>

definition outboundCopySource :: "VBucketConfig \<Rightarrow> copySource \<Rightarrow> proxy_error + string" where
  "outboundCopySource cfg source =
     bindE (if cs_VersionID source = [] then Inr []
            else case decodeOpaqueToken (Some cfg) ''version'' (cs_VersionID source) of
                   Inl _ \<Rightarrow> Inl (Answer (s3Error 400 ''InvalidArgument'' ''Invalid source version token''))
                 | Inr v \<Rightarrow> Inr v)
       (\<lambda>versionID. Inr (buildCopySource (RealBucket cfg) (normalizedPrefix cfg @ cs_Key source) versionID))"

definition outboundHeaders :: "VBucketConfig \<Rightarrow> S3OperationPlan \<Rightarrow> proxy_error + http_header" where
  "outboundHeaders cfg plan =
     (let h = copyOutboundRequestHeaders (p_forwardHeaders plan) [] (p_kind plan);
          bare = (\<lambda>h. header_Del (header_Del (header_Del h ''Authorization'') ''X-Amz-Date'') ''x-amz-content-sha256'')
      in if p_kind plan = operationCopyObject then
           (case p_copySource plan of
              None \<Rightarrow> Inl NilDereference
            | Some source \<Rightarrow> bindE (outboundCopySource cfg source) (\<lambda>v. Inr (bare (header_Set h copySourceHeader v))))
         else Inr (bare h))"

definition outboundKey :: "VBucketConfig \<Rightarrow> S3OperationPlan \<Rightarrow> string" where
  "outboundKey cfg plan =
     (if normalizedPrefix cfg \<noteq> [] \<and> classifyS3RequestTransform (p_kind plan) = requestTransformObjectPath
      then normalizedPrefix cfg @ p_objectKey plan else p_objectKey plan)"

definition outboundQuery :: "VBucketConfig \<Rightarrow> S3OperationPlan \<Rightarrow> token_error + string" where
  "outboundQuery cfg plan =
     rewriteOutboundQuery (p_kind plan) (p_rawQuery plan) (normalizedPrefix cfg)
       (classifyS3RequestTransform (p_kind plan) = requestTransformListQuery) (Some cfg)"

definition proxyRequest :: "VBucketConfig option \<Rightarrow> S3OperationPlan \<Rightarrow> civil \<Rightarrow> proxy_error + VBucketConfig \<times> http_request" where
  "proxyRequest c plan now =
     (case NormalizeVBucketConfig c of
        Inl _ \<Rightarrow> Inl (Answer (s3Error 502 ''InternalError'' ''Invalid upstream S3 mapping''))
      | Inr cfg \<Rightarrow>
          (case outboundQuery cfg plan of
             Inl _ \<Rightarrow> Inl (Answer (s3Error 400 ''InvalidArgument'' ''Invalid continuation token''))
           | Inr rawQuery \<Rightarrow>
               (case (parseEndpoint (RealEndpoint cfg), buildOutboundURL cfg (outboundKey cfg plan) rawQuery) of
                  (Some endpoint, Some outboundURL) \<Rightarrow>
                    (case newRequest (p_method plan) outboundURL of
                       None \<Rightarrow> Inl (Answer (s3Error 500 ''InternalError'' ''Failed to construct upstream request''))
                     | Some out \<Rightarrow>
                         bindE (outboundHeaders cfg plan) (\<lambda>h.
                           let req = out\<lparr>r_ContentLength := p_contentLength plan, r_Header := h, r_Host := outboundHost cfg (u_Host endpoint)\<rparr>
                           in Inr (cfg, signRequest req (RealAccessKey cfg) (RealSecretKey cfg) (RealRegion cfg) now)))
                | _ \<Rightarrow> Inl NilDereference)))"

definition rewriteCopySource :: "string \<Rightarrow> string \<Rightarrow> VBucketConfig \<Rightarrow> string \<Rightarrow> string option" where
  "rewriteCopySource raw virtualBucket cfg prefix =
     (case parseCopySource raw virtualBucket of
        None \<Rightarrow> None
      | Some source \<Rightarrow> Some (buildCopySource (RealBucket cfg) (prefix @ cs_Key source) (cs_VersionID source)))"

end
