(* ===== verification/S3_IAM.thy ===== *)
theory S3_IAM
  imports S3_Plan
begin

text \<open>
  Authorization of a plan (\<^verbatim>\<open>iam.go\<close>): the condition keys that policies may use and their types,
  the context that a plan gives to its checks, and the decision. Every key of a context is a key that
  policies may use, and a plan is authorized exactly when each of its checks is.
\<close>

section \<open>Condition keys\<close>

definition s3ConditionKeyTypes :: "(string \<times> ConditionValueType) list" where
  "s3ConditionKeyTypes =
     [(''s3:prefix'', ConditionValueString), (''s3:delimiter'', ConditionValueString),
      (''s3:max-keys'', ConditionValueNumeric), (''s3:locationconstraint'', ConditionValueString),
      (''s3:authtype'', ConditionValueString), (''s3:signatureversion'', ConditionValueString),
      (''s3:signatureage'', ConditionValueNumeric), (''s3:x-amz-acl'', ConditionValueString),
      (''s3:x-amz-copy-source'', ConditionValueString), (''s3:x-amz-grant-full-control'', ConditionValueString),
      (''s3:x-amz-grant-read'', ConditionValueString), (''s3:x-amz-grant-read-acp'', ConditionValueString),
      (''s3:x-amz-grant-write'', ConditionValueString), (''s3:x-amz-grant-write-acp'', ConditionValueString),
      (''s3:x-amz-metadata-directive'', ConditionValueString), (''s3:x-amz-server-side-encryption'', ConditionValueString),
      (''s3:x-amz-storage-class'', ConditionValueString), (''s3:x-amz-tagging'', ConditionValueString),
      (''s3:x-amz-tagging-directive'', ConditionValueString), (''aws:currenttime'', ConditionValueDate),
      (''aws:epochtime'', ConditionValueNumeric), (''aws:securetransport'', ConditionValueBool)]"

definition s3AllowedConditionKeys :: "(string \<times> bool) list" where
  "s3AllowedConditionKeys =
     map (\<lambda>k. (k, True))
       [''s3:prefix'', ''s3:delimiter'', ''s3:max-keys'', ''s3:locationconstraint'', ''s3:authtype'', ''s3:signatureversion'',
        ''s3:signatureage'', ''s3:x-amz-acl'', ''s3:x-amz-copy-source'', ''s3:x-amz-grant-full-control'', ''s3:x-amz-grant-read'',
        ''s3:x-amz-grant-read-acp'', ''s3:x-amz-grant-write'', ''s3:x-amz-grant-write-acp'', ''s3:x-amz-metadata-directive'',
        ''s3:x-amz-server-side-encryption'', ''s3:x-amz-storage-class'', ''s3:x-amz-tagging'', ''s3:x-amz-tagging-directive'',
        ''aws:currenttime'', ''aws:epochtime'', ''aws:securetransport'']"

definition ParseS3IAMPolicyJSON :: "string \<Rightarrow> iam_error + Policy" where
  "ParseS3IAMPolicyJSON policyJSON =
     ParsePolicyJSON policyJSON \<lparr>AllowedConditionKeys = s3AllowedConditionKeys, ConditionKeyTypes = s3ConditionKeyTypes\<rparr>"

section \<open>The context of a request\<close>

text \<open>The age of the signature in milliseconds, if the signing time can be read.\<close>

definition signatureAge :: "string \<Rightarrow> civil \<Rightarrow> int option" where
  "signatureAge signedAt now =
     map_option (\<lambda>(t, z). max 0 (Sub now t) div 1000000) (time_Parse layout_amz signedAt)"

definition authorizationContext :: "S3OperationPlan \<Rightarrow> string \<Rightarrow> civil \<Rightarrow> iam_context" where
  "authorizationContext plan locationConstraint now =
     (p_iamContext plan)
       (''aws:currenttime'' \<mapsto> [time_Format layout_rfc3339 now],
        ''aws:epochtime'' \<mapsto> [FormatInt (Unix now)])
     ++ (if locationConstraint \<noteq> [] then [''s3:locationconstraint'' \<mapsto> [locationConstraint]] else Map.empty)
     ++ (case signatureAge (p_signedAt plan) now of
           None \<Rightarrow> Map.empty | Some age \<Rightarrow> [''s3:signatureage'' \<mapsto> [FormatInt age]])"

definition withAuthorizationContext :: "S3OperationPlan \<Rightarrow> string \<Rightarrow> civil \<Rightarrow> S3OperationPlan" where
  "withAuthorizationContext plan locationConstraint now =
     (let ctx = authorizationContext plan locationConstraint now in
      plan\<lparr>p_locationConstraint := locationConstraint, p_iamContext := ctx,
           p_iamChecks := map (\<lambda>c. c\<lparr>Context := ctx\<rparr>) (p_iamChecks plan), p_authorizationReady := True\<rparr>)"

section \<open>The decision\<close>

datatype authorize_error = PlanNotSealed | Denied iam_error

definition buildS3IAMRequestsFromPlan :: "S3OperationPlan \<Rightarrow> iam_request list" where
  "buildS3IAMRequestsFromPlan plan = p_iamChecks plan"

fun authorizeAll :: "Policy option \<Rightarrow> iam_request list \<Rightarrow> authorize_error + unit" where
  "authorizeAll policy [] = Inr ()"
| "authorizeAll policy (c # cs) =
     (case Authorize policy c of Inl e \<Rightarrow> Inl (Denied e) | Inr _ \<Rightarrow> authorizeAll policy cs)"

definition AuthorizeS3Plan :: "Policy option \<Rightarrow> S3OperationPlan option \<Rightarrow> authorize_error + unit" where
  "AuthorizeS3Plan policy plan =
     (case plan of
        None \<Rightarrow> Inl PlanNotSealed
      | Some p \<Rightarrow> if \<not> p_authorizationReady p then Inl PlanNotSealed
                  else authorizeAll policy (buildS3IAMRequestsFromPlan p))"

section \<open>Facts\<close>

lemma authorizeAll_Inr: "authorizeAll policy cs = Inr () \<longleftrightarrow> (\<forall>c \<in> set cs. Authorize policy c = Inr ())"
  by (induction cs) (auto split: sum.splits)

lemma Authorize_allows:
  "Authorize (Some pol) c = Inr () \<longleftrightarrow>
     (\<exists>st \<in> set (statements pol). statement_matches st c \<and> stmt_effect st = effectAllow)
     \<and> (\<forall>st \<in> set (statements pol). statement_matches st c \<longrightarrow> stmt_effect st \<noteq> effectDeny)"
  by (auto simp: Authorize_def authorize_loop_eq) (metis effect.exhaust)+

lemma listContext_keys: "k \<in> set (keys (listContext kind query)) \<Longrightarrow> k \<in> {''s3:prefix'', ''s3:delimiter'', ''s3:max-keys''}"
  by (auto simp: listContext_def split: if_splits option.splits)

lemma headerContext_keys: "k \<in> set (keys (headerContext headers)) \<Longrightarrow> k \<in> snd ` set s3HeaderConditionKeys"
  by (force simp: headerContext_def keys_def)

definition contextKeys :: "string list" where
  "contextKeys =
     [''s3:authtype'', ''s3:signatureversion'', ''aws:securetransport'', ''s3:prefix'', ''s3:delimiter'', ''s3:max-keys'',
      ''aws:currenttime'', ''aws:epochtime'', ''s3:locationconstraint'', ''s3:signatureage''] @ map snd s3HeaderConditionKeys"

lemma wire_context_keys:
  assumes "buildS3IAMWireContext plan k \<noteq> None"
  shows "k \<in> set contextKeys"
proof -
  have "k \<in> set (keys ([(''s3:authtype'', [''REST-HEADER'']), (''s3:signatureversion'', [''AWS4-HMAC-SHA256'']),
              (''aws:securetransport'', [FormatBool (p_secureTransport plan)])]
             @ listContext (p_kind plan) (p_query plan) @ headerContext (p_forwardHeaders plan)))"
    using assms unfolding buildS3IAMWireContext_def map_of_None_keys by blast
  then have "k \<in> {''s3:authtype'', ''s3:signatureversion'', ''aws:securetransport''}
      \<or> k \<in> set (keys (listContext (p_kind plan) (p_query plan))) \<or> k \<in> set (keys (headerContext (p_forwardHeaders plan)))"
    by (simp add: keys_def)
  then show ?thesis
    using listContext_keys [of k] headerContext_keys [of k] unfolding contextKeys_def by force
qed

lemma context_keys_allowed:
  "list_all (\<lambda>k. map_of s3AllowedConditionKeys k = Some True \<and> map_of s3ConditionKeyTypes k \<noteq> None) contextKeys"
  by code_simp

lemma authorization_context_keys:
  "authorizationContext plan loc now k \<noteq> None \<Longrightarrow>
   k \<in> {''aws:currenttime'', ''aws:epochtime'', ''s3:locationconstraint'', ''s3:signatureage''} \<or> p_iamContext plan k \<noteq> None"
  by (auto simp: authorizationContext_def map_add_Some_iff split: if_splits option.splits)

text \<open>A calendar time formatted and read back, for the layout of RFC 3339.\<close>

lemma time_Parse_rfc3339_Format:
  assumes "wf_civil t"
  shows "time_Parse layout_rfc3339 (time_Format layout_rfc3339 t) = Some (t\<lparr>tm_nsec := 0\<rparr>, 0)"
proof -
  have m: "daysIn (tm_month t) (tm_year t) \<le> 31" by (simp add: daysIn_def)
  have "tm_day t < 100" "tm_month t < 100" "tm_hour t < 100" "tm_min t < 100" "tm_sec t < 100"
    using assms m by (auto simp: wf_civil_def valid_day_def)
  then show ?thesis
    using assms
    by (simp add: time_Parse_def time_Format_def layout_rfc3339_def wf_civil_def parse_year_pad
        getnum_pad in_range_def parse_fraction_def Let_def civil_zero_def valid_day_def)
qed

lemma Atoi_chars:
  assumes "Atoi s = Some i" "c \<in> set s"
  shows "is_digit c \<or> c = CHR ''-'' \<or> c = CHR ''+''"
  using assms by (cases s) (auto simp: Atoi_def Let_def list_all_iff split: if_splits)

lemma Atoi_rfc3339: "Atoi (time_Format layout_rfc3339 t) = None"
proof -
  have "CHR ''T'' \<in> set (time_Format layout_rfc3339 t)" by (simp add: time_Format_def layout_rfc3339_def)
  moreover have "\<not> is_digit (CHR ''T'')" by (simp add: is_digit_def byte_def)
  ultimately show ?thesis
    using Atoi_chars [of "time_Format layout_rfc3339 t" _ "CHR ''T''"] by (cases "Atoi (time_Format layout_rfc3339 t)") auto
qed

lemma parseIAMTime_Format:
  "wf_civil t \<Longrightarrow> parseIAMTime (time_Format layout_rfc3339 t) = Some (instant_of (t\<lparr>tm_nsec := 0\<rparr>) 0)"
  by (simp add: parseIAMTime_def Atoi_rfc3339 time_Parse_rfc3339_Format)

section \<open>Properties\<close>

text \<open>
  C10. A plan that is authorized: for each of its checks, in the context of the request, some
  statement of the policy that matches allows and none that matches denies.
\<close>

theorem authorized_plan_is_allowed:
  assumes "planS3Operation r bucket key = Inr plan"
    and "AuthorizeS3Plan (Some pol) (Some (withAuthorizationContext plan loc now)) = Inr ()"
    and "c \<in> set (p_iamChecks plan)" "req = c\<lparr>Context := authorizationContext plan loc now\<rparr>"
  shows "(\<exists>st \<in> set (statements pol). statement_matches st req \<and> stmt_effect st = effectAllow)
    \<and> \<not> (\<exists>st \<in> set (statements pol). statement_matches st req \<and> stmt_effect st = effectDeny)"
proof -
  have "Authorize (Some pol) req = Inr ()"
    using assms(2-4)
    by (simp add: AuthorizeS3Plan_def withAuthorizationContext_def Let_def buildS3IAMRequestsFromPlan_def authorizeAll_Inr)
  then show ?thesis unfolding Authorize_allows by blast
qed


definition demo_now :: civil where
  "demo_now = \<lparr>tm_year = 2024, tm_month = 1, tm_day = 2, tm_hour = 3, tm_min = 4, tm_sec = 9, tm_nsec = 0\<rparr>"

definition demo_policy :: Policy where
  "demo_policy =
     \<lparr>statements = [\<lparr>stmt_sid = [], stmt_effect = effectAllow, stmt_actionMode = matchPositive, stmt_actions = compileWildcards [''*''] True,
       stmt_resourceMode = matchPositive, stmt_resources = compileWildcards [''arn:aws:s3:::media/*''] False, stmt_conditions = []\<rparr>]\<rparr>"

definition demo_get :: http_request where
  "demo_get =
     \<lparr>r_Method = ''GET'',
      r_URL = \<lparr>u_Scheme = [], u_Host = [], u_Path = ''/media/to'', u_RawPath = [], u_RawQuery = []\<rparr>,
      r_Host = ''s3.example.com'', r_Header = [(''X-Amz-Date'', [''20240102T030405Z''])],
      r_ContentLength = 0, r_TransferEncoding = [], r_TLS = True, r_Trailer = []\<rparr>"

lemma demo_get_plan:
  obtains plan c where "planS3Operation demo_get ''media'' ''to'' = Inr plan"
    "AuthorizeS3Plan (Some demo_policy) (Some (withAuthorizationContext plan [] demo_now)) = Inr ()" "c \<in> set (p_iamChecks plan)"
proof -
  have "map_sum id (\<lambda>plan. (AuthorizeS3Plan (Some demo_policy) (Some (withAuthorizationContext plan [] demo_now)), length (p_iamChecks plan)))
      (planS3Operation demo_get ''media'' ''to'') = Inr (Inr (), 1)"
    by code_simp
  then obtain plan where "planS3Operation demo_get ''media'' ''to'' = Inr plan" "length (p_iamChecks plan) = 1"
    "AuthorizeS3Plan (Some demo_policy) (Some (withAuthorizationContext plan [] demo_now)) = Inr ()"
    by (cases "planS3Operation demo_get ''media'' ''to''") auto
  with that [of plan "hd (p_iamChecks plan)"] show thesis by (cases "p_iamChecks plan") auto
qed

theorem authorized_plan_is_allowed_witness:
  "\<exists>plan c. planS3Operation demo_get ''media'' ''to'' = Inr plan \<and> c \<in> set (p_iamChecks plan)
    \<and> (\<exists>st \<in> set (statements demo_policy).
        statement_matches st (c\<lparr>Context := authorizationContext plan [] demo_now\<rparr>) \<and> stmt_effect st = effectAllow)"
proof -
  obtain plan c where p: "planS3Operation demo_get ''media'' ''to'' = Inr plan"
    "AuthorizeS3Plan (Some demo_policy) (Some (withAuthorizationContext plan [] demo_now)) = Inr ()" "c \<in> set (p_iamChecks plan)"
    by (rule demo_get_plan)
  from authorized_plan_is_allowed [OF p refl] p(1,3) show ?thesis by blast
qed


end
