(* ===== verification/S3_Outbound.thy ===== *)
theory S3_Outbound
  imports S3_Proxy S3_IAM
begin

text \<open>
  What the proxy sends. The construction of the outbound request is solved: for a mapping that normalizes
  and a plan that was accepted, the only failures are refusals of tokens, and the request that is built
  names the host, the path, the query, the headers and the signature stated here.
\<close>

section \<open>Hosts and URLs\<close>

lemma set_Join: "set (Join ps sep) \<subseteq> \<Union> (set ` set ps) \<union> set sep"
  by (induction ps sep rule: Join.induct) auto

lemma values_Encode_chars:
  assumes "x \<in> set (values_Encode q)"
  shows "x \<noteq> CHR ''?'' \<and> x \<noteq> CHR ''#'' \<and> \<not> ctl_byte x"
proof -
  have esc: "y \<noteq> CHR ''?'' \<and> y \<noteq> CHR ''#'' \<and> \<not> ctl_byte y" if y: "y \<in> set (QueryEscape s)" for y s
  proof -
    obtain c where "y \<in> set (escape_char encodeQueryComponent c)" using y by (auto simp: escape_def)
    from escape_char_chars [OF this]
    consider "y = CHR ''%'' \<or> y = CHR ''+''" | "ishex y" | "\<not> shouldEscape encodeQueryComponent y" by blast
    then show ?thesis
    proof cases
      case 3
      then have "unreserved y" by (auto simp: shouldEscape_def split: if_splits)
      then show ?thesis by (auto simp: unreserved_def Let_def byte_def ctl_byte_def)
    qed (auto simp: ishex_def Let_def byte_def ctl_byte_def)
  qed
  from assms set_Join obtain k v where "x \<in> set (encode_pair k v) \<or> x = CHR ''&''"
    by (fastforce simp: values_Encode_def)
  then show ?thesis using esc by (auto simp: encode_pair_def ctl_byte_def byte_def)
qed

lemma bucket_chars:
  assumes "isValidBucketName b"
  shows "list_all host_char b" "list_all unreserved b" "b \<noteq> []" "c \<in> set '':[]/?#%'' \<Longrightarrow> c \<notin> set b"
proof -
  have all: "list_all (\<lambda>c. lower_alnum c \<or> c = CHR ''.'' \<or> c = CHR ''-'') b" and ne: "b \<noteq> []"
    using assms by (auto simp: isValidBucketName_def bucketNamePattern_def)
  have u: "unreserved c" if "lower_alnum c \<or> c = CHR ''.'' \<or> c = CHR ''-''" for c
    using that by (auto simp: lower_alnum_def unreserved_def is_digit_def Let_def byte_def)
  then show "list_all unreserved b" using all by (auto simp: list_all_iff)
  moreover have "host_char c" if "unreserved c" for c
    using that by (auto simp: host_char_def hostEscape_def unreserved_def Let_def byte_def)
  ultimately show "list_all host_char b" by (auto simp: list_all_iff)
  show "b \<noteq> []" by (fact ne)
  assume "c \<in> set '':[]/?#%''"
  then have "\<not> unreserved c" by (auto simp: unreserved_def Let_def byte_def)
  then show "c \<notin> set b" using \<open>list_all unreserved b\<close> by (auto simp: list_all_iff)
qed

lemma no_empty_port:
  assumes "endpointPort u = Inr ()"
  shows "\<not> HasSuffix (u_Host u) '':''"
proof
  assume s: "HasSuffix (u_Host u) '':''"
  then obtain t where "u_Host u = t @ '':''" by (auto simp: HasSuffix_iff)
  then have "cut_last (CHR '':'') (u_Host u) = Some (t, [])" by (simp add: cut_last_Some)
  then have "url_Port u = []" by (simp add: url_Port_def splitHostPort_def validOptionalPort_def)
  with assms s show False by (simp add: endpointPort_def res_simps)
qed

lemma removeEmptyPort_plain: "\<not> HasSuffix host '':'' \<Longrightarrow> removeEmptyPort host = host"
  by (simp add: removeEmptyPort_def TrimSuffix_def split: option.splits)

text \<open>A literal in brackets is an IP address, and a mapping in the virtual-hosted style has none.\<close>

lemma vhost_is_name:
  assumes "plain_endpoint False u" "plain_text (u_Host u)" "parseHost (u_Host u) = Some h"
  shows "CHR ''['' \<notin> set (u_Host u)"
proof
  assume b: "CHR ''['' \<in> set (u_Host u)"
  with assms(3) obtain pre port l where cut: "cut_last (CHR '']'') (u_Host u) = Some (pre, port)" and hd: "hd (u_Host u) = CHR ''[''"
    and l: "parse_literal (tl pre) = Some l" and port: "validOptionalPort port"
    by (auto simp: parseHost_def split: if_splits option.splits)
  from cut have s: "u_Host u = pre @ CHR '']'' # port" and np: "CHR '']'' \<notin> set port" by (simp_all add: cut_last_Some)
  with hd obtain q where pre: "pre = CHR ''['' # q" by (cases pre) auto
  have "plain_text q" using assms(2) by (auto simp: s pre)
  then have "ipv6_literal q" "CHR ''%'' \<notin> set q"
    using l parse_literal_plain [of q l] by (auto simp: pre parse_literal_def split: option.splits if_splits)
  then have "ParseIP q"
    unfolding ipv6_literal_def ParseIP_def Cut_char_None [THEN iffD2, OF \<open>CHR ''%'' \<notin> set q\<close>]
    by (cases "dropWhile (\<lambda>c. c \<notin> set [CHR ''.'', CHR '':'', CHR ''%'']) q") (simp_all only: list.case option.case, simp_all)
  moreover have "url_Hostname u = q"
  proof (cases port)
    case Nil
    have "splitHostPort (u_Host u) = (q, [])"
    proof (cases "cut_last (CHR '':'') (u_Host u)")
      case (Some hp)
      then obtain a p where hp: "hp = (a, p)" "u_Host u = a @ CHR '':'' # p" "cut_last (CHR '':'') (u_Host u) = Some (a, p)"
        by (cases hp) (auto simp: cut_last_Some)
      then have "last (CHR '':'' # p) = CHR '']''" using s Nil by (metis last_appendR last_snoc list.discI)
      then have "\<not> validOptionalPort (CHR '':'' # p)"
        by (cases p rule: rev_cases) (auto simp: validOptionalPort_def is_digit_def byte_def)
      then show ?thesis using hp(3) by (simp add: splitHostPort_def s pre Nil HasPrefix_def HasSuffix_iff)
    qed (simp add: splitHostPort_def s pre Nil HasPrefix_def HasSuffix_iff)
    then show ?thesis by (simp add: url_Hostname_def)
  next
    case (Cons c ds)
    then have c: "c = CHR '':''" "list_all is_digit ds" using port by (simp_all add: validOptionalPort_def)
    then have "CHR '':'' \<notin> set ds" by (auto simp: list_all_iff is_digit_def byte_def)
    then have "cut_last (CHR '':'') (u_Host u) = Some (pre @ '']'', ds)" using s Cons c by (simp add: cut_last_Some)
    then show ?thesis
      using c by (simp add: url_Hostname_def splitHostPort_def validOptionalPort_def pre HasPrefix_def HasSuffix_iff)
  qed
  ultimately show False using assms(1) by (simp add: plain_endpoint_def)
qed

lemma parse_outboundHost:
  assumes "plain_endpoint (RealUsePathStyle cfg) u" "list_all host_char (u_Host u)" "parseHost (u_Host u) = Some (u_Host u)"
    and "isValidBucketName (RealBucket cfg)"
  shows "parseHost (outboundHost cfg (u_Host u)) = Some (outboundHost cfg (u_Host u))"
    and "list_all host_char (outboundHost cfg (u_Host u))"
    and "removeEmptyPort (outboundHost cfg (u_Host u)) = outboundHost cfg (u_Host u)"
proof -
  let ?o = "outboundHost cfg (u_Host u)"
  have dot: "host_char (CHR ''.'')" by code_simp
  show chars: "list_all host_char ?o" using assms(2) dot bucket_chars(1) [OF assms(4)] by (simp add: outboundHost_def)
  have plain: "plain_text s" if h: "list_all host_char s" for s
  proof -
    have "\<not> host_char (CHR ''%'')" by code_simp
    with h show ?thesis using host_char_plain by (force simp: is_ascii_def list_all_iff)
  qed
  have "u_Host u \<noteq> []" using assms(1) by (simp add: plain_endpoint_def)
  moreover have "\<not> HasSuffix (u_Host u) '':''" using assms(1) no_empty_port by (simp add: plain_endpoint_def)
  ultimately have "\<not> HasSuffix ?o '':''"
    by (cases "u_Host u" rule: rev_cases) (auto simp: outboundHost_def HasSuffix_iff)
  then show "removeEmptyPort ?o = ?o" by (rule removeEmptyPort_plain)
  show "parseHost ?o = Some ?o"
  proof (cases "RealUsePathStyle cfg")
    case False
    have "CHR ''['' \<notin> set (u_Host u)"
      using vhost_is_name [OF _ plain [OF assms(2)] assms(3)] assms(1) False by simp
    then have no: "CHR ''['' \<notin> set ?o" "CHR ''['' \<notin> set (u_Host u)"
      using bucket_chars(4) [OF assms(4), of "CHR ''[''"] False by (auto simp: outboundHost_def)
    have colon: "CHR '':'' \<notin> set (RealBucket cfg)" using bucket_chars(4) [OF assms(4)] by simp
    then have "dropWhile (\<lambda>c. c \<noteq> CHR '':'') ?o = dropWhile (\<lambda>c. c \<noteq> CHR '':'') (u_Host u)"
      "CHR '':'' \<in> set ?o \<longleftrightarrow> CHR '':'' \<in> set (u_Host u)"
      using False by (auto simp: outboundHost_def dropWhile_append)
    then show ?thesis
      using assms(3) no host_unescape_plain [OF plain [OF chars]] chars by (simp add: parseHost_def split: if_splits)
  qed (use assms(3) in \<open>simp add: outboundHost_def\<close>)
qed

section \<open>The request that is built\<close>

definition unsigned_request :: "string \<Rightarrow> string \<Rightarrow> VBucketConfig \<Rightarrow> S3OperationPlan \<Rightarrow> string \<Rightarrow> http_header \<Rightarrow> http_request" where
  "unsigned_request scheme host cfg plan query headers =
     \<lparr>r_Method = p_method plan,
      r_URL = \<lparr>u_Scheme = scheme, u_Host = outboundHost cfg host, u_Path = outboundPath cfg (outboundKey cfg plan), u_RawPath = [],
               u_RawQuery = query\<rparr>,
      r_Host = outboundHost cfg host, r_Header = headers, r_ContentLength = p_contentLength plan, r_TransferEncoding = [],
      r_TLS = False, r_Trailer = []\<rparr>"

lemma outboundPath_rooted: "\<exists>rest. outboundPath cfg key = CHR ''/'' # rest"
  by (simp add: outboundPath_def)

lemma parseEndpoint_scheme:
  "parseEndpoint (scheme @ ''://'' @ rest) = url_Parse (scheme @ ''://'' @ rest)"
  using Contains_iff by (auto simp: parseEndpoint_def)

lemma newRequest_outbound:
  assumes "scheme = ''http'' \<or> scheme = ''https''" "list_all host_char host" "parseHost host = Some host"
    and "removeEmptyPort host = host" "method \<noteq> []" "list_all token_byte method"
  shows "newRequest method (scheme @ ''://'' @ host @ escape encodePath (CHR ''/'' # rest)
      @ (if values_Encode q \<noteq> [] then ''?'' @ values_Encode q else [])) =
    Some \<lparr>r_Method = method,
          r_URL = \<lparr>u_Scheme = scheme, u_Host = host, u_Path = CHR ''/'' # rest, u_RawPath = [], u_RawQuery = values_Encode q\<rparr>,
          r_Host = host, r_Header = [], r_ContentLength = 0, r_TransferEncoding = [], r_TLS = False, r_Trailer = []\<rparr>"
proof -
  have q: "CHR ''?'' \<notin> set (values_Encode q)" "CHR ''#'' \<notin> set (values_Encode q)" "\<not> list_ex ctl_byte (values_Encode q)"
    using values_Encode_chars by (auto simp: list_ex_iff)
  have "url_Parse (scheme @ ''://'' @ host @ escape encodePath (CHR ''/'' # rest)
      @ (if values_Encode q \<noteq> [] then ''?'' @ values_Encode q else [])) =
    Some (empty_url\<lparr>u_Scheme := scheme, u_Host := host, u_Path := CHR ''/'' # rest, u_RawQuery := values_Encode q\<rparr>)"
    by (subst url_Parse_printed [OF assms(1,2) _ q]) (simp_all add: assms(3))
  then show ?thesis
    unfolding newRequest_def option.case using assms(4-6) by (simp add: empty_url_def go_url.truncate_def)
qed

lemma buildOutboundURL_plain:
  assumes "scheme = ''http'' \<or> scheme = ''https''" "RealEndpoint cfg = scheme @ ''://'' @ host"
    and "url_Parse (RealEndpoint cfg) = Some (empty_url\<lparr>u_Scheme := scheme, u_Host := host\<rparr>)" "list_all host_char (outboundHost cfg host)"
  shows "buildOutboundURL cfg key rawQuery = Some (scheme @ ''://'' @ outboundHost cfg host
      @ escape encodePath (outboundPath cfg key) @ (if rawQuery \<noteq> [] then ''?'' @ rawQuery else []))"
proof -
  have "parseEndpoint (RealEndpoint cfg) = Some (empty_url\<lparr>u_Scheme := scheme, u_Host := host\<rparr>)"
    using assms(2,3) parseEndpoint_scheme by simp
  moreover obtain rest where p: "outboundPath cfg key = CHR ''/'' # rest" using outboundPath_rooted by blast
  ultimately show ?thesis
    unfolding buildOutboundURL_def
    by (simp add: p url_String_def empty_url_def EscapedPath_def go_url.truncate_def host_escape_plain [OF assms(4)] escape_slash)
qed

text \<open>The construction, with the failures that remain.\<close>

lemma proxyRequest_eq:
  assumes "plain_text (RealEndpoint c)" "NormalizeVBucketConfig (Some c) = Inr cfg"
    and "p_method plan \<noteq> []" "list_all token_byte (p_method plan)"
  obtains scheme host where "scheme = ''http'' \<or> scheme = ''https''" "RealEndpoint cfg = scheme @ ''://'' @ host" "host \<noteq> []"
    "list_all host_char (outboundHost cfg host)"
    "proxyRequest (Some c) plan now =
       (case rewriteValues (p_kind plan) (URL_Query (p_rawQuery plan)) (normalizedPrefix cfg)
            (classifyS3RequestTransform (p_kind plan) = requestTransformListQuery) (Some cfg) of
          Inl _ \<Rightarrow> Inl (Answer (s3Error 400 ''InvalidArgument'' ''Invalid continuation token''))
        | Inr q \<Rightarrow> bindE (outboundHeaders cfg plan) (\<lambda>h. Inr (cfg,
            signRequest (unsigned_request scheme host cfg plan (values_Encode q) h) (RealAccessKey cfg) (RealSecretKey cfg) (RealRegion cfg) now)))"
proof -
  obtain endpoint prefix d where n: "normalizeEndpoint (RealUsePathStyle c) (RealEndpoint c) = Inr endpoint"
    "cfg = c\<lparr>RealEndpoint := endpoint, RealBucket := TrimSpace (RealBucket c), RealRegion := TrimSpace (RealRegion c),
       PathPrefix := prefix, routingTokenCodec := Some d\<rparr>" and b: "isValidBucketName (RealBucket cfg)"
    using assms(2) by (rule NormalizeVBucketConfig_Inr)
  have e: "normalizeEndpoint (RealUsePathStyle c) (RealEndpoint c) = Inr endpoint" "RealEndpoint cfg = endpoint"
    and style: "RealUsePathStyle cfg = RealUsePathStyle c"
    using n(1) by (simp_all add: n(2))
  obtain scheme host where h: "scheme = ''http'' \<or> scheme = ''https''" "list_all host_char host" "endpoint = scheme @ ''://'' @ host"
    "url_Parse endpoint = Some (empty_url\<lparr>u_Scheme := scheme, u_Host := host\<rparr>)"
    "plain_endpoint (RealUsePathStyle c) (empty_url\<lparr>u_Scheme := scheme, u_Host := host\<rparr>)"
    using normalizeEndpoint_plain [OF assms(1) e(1)] by blast
  let ?u = "empty_url\<lparr>u_Scheme := scheme, u_Host := host\<rparr>"
  have "parseHost host = Some host"
    using url_Parse_printed [OF h(1,2), of "[]" "[]"] h(3,4) by (auto simp: escape_def empty_url_def)
  then have o: "parseHost (outboundHost cfg host) = Some (outboundHost cfg host)" "list_all host_char (outboundHost cfg host)"
    "removeEmptyPort (outboundHost cfg host) = outboundHost cfg host"
    using parse_outboundHost [of cfg ?u] h(2,5) style b by simp_all
  have ep: "parseEndpoint (RealEndpoint cfg) = Some ?u" using e(2) h(3,4) parseEndpoint_scheme by simp
  have url: "buildOutboundURL cfg key raw = Some (scheme @ ''://'' @ outboundHost cfg host
      @ escape encodePath (outboundPath cfg key) @ (if raw \<noteq> [] then ''?'' @ raw else []))" for key raw
    using buildOutboundURL_plain [OF h(1) _ _ o(2)] e(2) h(3,4) by blast
  obtain rest where path: "outboundPath cfg (outboundKey cfg plan) = CHR ''/'' # rest" using outboundPath_rooted by blast
  have eq: "proxyRequest (Some c) plan now =
       (case rewriteValues (p_kind plan) (URL_Query (p_rawQuery plan)) (normalizedPrefix cfg)
            (classifyS3RequestTransform (p_kind plan) = requestTransformListQuery) (Some cfg) of
          Inl _ \<Rightarrow> Inl (Answer (s3Error 400 ''InvalidArgument'' ''Invalid continuation token''))
        | Inr q \<Rightarrow> bindE (outboundHeaders cfg plan) (\<lambda>h. Inr (cfg,
            signRequest (unsigned_request scheme host cfg plan (values_Encode q) h) (RealAccessKey cfg) (RealSecretKey cfg) (RealRegion cfg) now)))"
  proof (cases "rewriteValues (p_kind plan) (URL_Query (p_rawQuery plan)) (normalizedPrefix cfg)
            (classifyS3RequestTransform (p_kind plan) = requestTransformListQuery) (Some cfg)")
    case (Inl e)
    then show ?thesis unfolding proxyRequest_def assms(2) outboundQuery_def rewriteOutboundQuery_def by simp
  next
    case (Inr q)
    then have oq: "outboundQuery cfg plan = Inr (values_Encode q)" by (simp add: outboundQuery_def rewriteOutboundQuery_def)
    show ?thesis
      unfolding proxyRequest_def assms(2) oq ep url path sum.case option.case prod.case Inr
        newRequest_outbound [OF h(1) o(2,1,3) assms(3,4)] unsigned_request_def
      by (simp add: Let_def path)
  qed
  have "host \<noteq> []" using h(5) by (simp add: plain_endpoint_def)
  then show thesis using that h(1) e(2) h(3) o(2) eq by blast
qed

section \<open>Headers\<close>

lemma signable_filter: "signable_header h \<Longrightarrow> signable_header (filter P h)"
  by (auto simp: signable_header_def keys_def list_all_iff distinct_map inj_on_filter_key_eq intro: inj_on_subset)

lemma header_Del_filter: "header_Del h name = filter (\<lambda>(k, vs). k \<noteq> CanonicalHeaderKey name) h"
  by (induction h) (auto simp: header_Del_def)

lemma signable_header_Set:
  "signable_header h \<Longrightarrow> name \<noteq> [] \<Longrightarrow> list_all token_byte name \<Longrightarrow> signable_header (header_Set h name v)"
  using canonical_token [of name] by (auto simp: signable_header_def set_keys_Set distinct_keys_Set list_all_iff)

lemma header_Add_values: "header_Add h name v = values_Add h (CanonicalHeaderKey name) v"
  by (simp add: header_Add_def values_Add_def Let_def)

lemma header_Adds:
  assumes "CanonicalHeaderKey k = k" "k \<notin> set (keys d)"
  shows "foldl (\<lambda>d v. header_Add d k v) d vs = (if vs = [] then d else d @ [(k, vs)])"
proof -
  have "foldl (\<lambda>d v. header_Add d k v) d vs = foldl (\<lambda>q (k, v). values_Add q k v) d (map (Pair k) vs)"
    by (induction vs arbitrary: d) (simp_all add: header_Add_values assms(1))
  then show ?thesis using add_pairs_same [OF assms(2), of vs] by simp
qed

text \<open>Of headers with canonical names, the safe ones are copied as they are.\<close>

definition forwarded :: "http_header \<Rightarrow> S3OperationKind \<Rightarrow> string \<Rightarrow> bool" where
  "forwarded src kind name = (\<not> hopByHopHeaderSet src name \<and> safeOutboundRequestHeader name kind)"

lemma copyOutboundRequestHeaders_eq:
  assumes "signable_header src"
  shows "copyOutboundRequestHeaders src [] kind = filter (\<lambda>(name, vs). forwarded src kind name \<and> vs \<noteq> []) src"
proof -
  let ?step = "\<lambda>d (name, vs). let canonical = CanonicalHeaderKey name in
         if hopByHopHeaderSet src canonical \<or> \<not> safeOutboundRequestHeader canonical kind then d
         else foldl (\<lambda>d v. header_Add d canonical v) d vs"
  have "foldl ?step d rest = d @ filter (\<lambda>(name, vs). forwarded src kind name \<and> vs \<noteq> []) rest"
    if "distinct (keys rest)" "list_all (\<lambda>k. CanonicalHeaderKey k = k) (keys rest)" "set (keys d) \<inter> set (keys rest) = {}" for d rest
    using that
  proof (induction rest arbitrary: d)
    case (Cons e rest)
    obtain n vs where e: "e = (n, vs)" by (cases e)
    then have n: "CanonicalHeaderKey n = n" "n \<notin> set (keys d)" using Cons.prems by auto
    let ?d = "?step d e"
    have d: "?d = (if forwarded src kind n \<and> vs \<noteq> [] then d @ [(n, vs)] else d)"
      using header_Adds [OF n, of vs] by (simp add: e n Let_def forwarded_def)
    have "set (keys ?d) \<subseteq> insert n (set (keys d))" unfolding d by (auto simp: keys_def)
    then have "set (keys ?d) \<inter> set (keys rest) = {}" using Cons.prems(1,3) e by auto
    then have "foldl ?step ?d rest = ?d @ filter (\<lambda>(name, vs). forwarded src kind name \<and> vs \<noteq> []) rest"
      using Cons.prems(1,2) e by (intro Cons.IH) simp_all
    then show ?case unfolding foldl_Cons d by (simp add: e)
  qed simp
  from this [of src "[]"] assms show ?thesis
    by (simp add: copyOutboundRequestHeaders_def signable_header_def list_all_iff)
qed

lemma canonicalHeaderClone_eq:
  assumes "signable_header h"
  shows "canonicalHeaderClone h = h"
proof -
  let ?step = "\<lambda>clone (name, vs). let k = CanonicalHeaderKey name
       in AList.update k (case map_of clone k of None \<Rightarrow> vs | Some old \<Rightarrow> old @ vs) clone"
  have fresh: "AList.update k v d = d @ [(k, v)]" if "k \<notin> set (keys d)" for k :: string and v and d :: "(string \<times> string list) list"
    using that by (induction d) auto
  have "foldl ?step d rest = d @ rest"
    if "distinct (keys rest)" "list_all (\<lambda>k. CanonicalHeaderKey k = k) (keys rest)" "set (keys d) \<inter> set (keys rest) = {}" for d rest :: "(string \<times> string list) list"
    using that
  proof (induction rest arbitrary: d)
    case (Cons e rest)
    obtain n vs where e: "e = (n, vs)" by (cases e)
    then have n: "CanonicalHeaderKey n = n" "n \<notin> set (keys d)" using Cons.prems by auto
    then have "?step d e = d @ [(n, vs)]" using map_of_None_keys [of d n] by (simp add: e Let_def fresh)
    moreover have "foldl ?step (d @ [(n, vs)]) rest = (d @ [(n, vs)]) @ rest"
      using Cons.prems e by (intro Cons.IH) (auto simp: keys_def)
    ultimately show ?case unfolding foldl_Cons by (simp add: e)
  qed simp
  from this [of h "[]"] assms show ?thesis by (simp add: canonicalHeaderClone_def signable_header_def list_all_iff)
qed

section \<open>Accepted plans\<close>

lemma parse_segment_distinct: "distinct (keys (fst st)) \<Longrightarrow> distinct (keys (fst (parse_segment seg st)))"
  by (auto simp: parse_segment_def values_Add_def keys_def Let_def distinct_update split: option.splits)

lemma ParseQuery_distinct: "ParseQuery raw = Some q \<Longrightarrow> distinct (keys q)"
proof -
  have "distinct (keys (fst (foldl (\<lambda>st seg. parse_segment seg st) st segs)))" if "distinct (keys (fst st))" for st segs
    using that by (induction segs arbitrary: st) (simp_all add: parse_segment_distinct)
  from this [of "([], False)"] show "ParseQuery raw = Some q \<Longrightarrow> distinct (keys q)"
    by (auto simp: ParseQuery_def parseQuery_def split: if_splits prod.splits) (metis fst_conv keys_simps(1) distinct.simps(1))
qed

lemma query_bound:
  assumes "queryMatchesWithValue query xID required optional" "distinct (keys query)"
  shows "length query \<le> length required + length optional + 1"
proof -
  have "set (keys query) \<subseteq> set (keys required @ optional @ [''x-id''])"
    using assms(1) by (auto simp: queryMatchesWithValue_def list_all_iff keys_def)
  then have "card (set (keys query)) \<le> card (set (keys required @ optional @ [''x-id'']))"
    by (intro card_mono) simp_all
  also have "\<dots> \<le> length (keys required @ optional @ [''x-id''])" by (rule card_length)
  finally show ?thesis using distinct_card [OF assms(2)] by (simp add: keys_def)
qed

definition accepted_plan :: "S3OperationPlan \<Rightarrow> bool" where
  "accepted_plan plan =
     (p_method plan \<noteq> [] \<and> list_all token_byte (p_method plan)
      \<and> (classifyS3RequestTransform (p_kind plan) = requestTransformObjectPath \<longleftrightarrow> p_objectKey plan \<noteq> [])
      \<and> (p_objectKey plan \<noteq> [] \<longrightarrow> validateVirtualObjectKey (p_objectKey plan))
      \<and> (p_kind plan = operationCopyObject \<longrightarrow> (\<exists>src. p_copySource plan = Some src \<and> validateVirtualObjectKey (cs_Key src)))
      \<and> signable_header (p_forwardHeaders plan) \<and> validateHeadersForOperation (p_forwardHeaders plan) (p_kind plan)
      \<and> ParseQuery (p_rawQuery plan) = Some (p_query plan) \<and> distinct (keys (p_query plan))
      \<and> list_all (\<lambda>(k, vs). length vs = 1) (p_query plan) \<and> length (p_query plan) \<le> 20)"

lemma planned_is_accepted:
  assumes "planS3Operation r bucket key = Inr plan" "signable_header (r_Header r)"
  shows "accepted_plan plan"
  using assms(1)
proof (rule planS3Operation_Inr)
  fix query sh
  assume q: "ParseQuery (u_RawQuery (r_URL r)) = Some query" "list_all (\<lambda>(k, vs). length vs = 1) query"
    and sh: "planShape r bucket key query = Inr sh" and h: "validateHeadersForOperation (r_Header r) (sh_kind sh)"
    and key: "key \<noteq> [] \<longrightarrow> validateVirtualObjectKey key" and plan: "plan = plan_of r bucket key query sh"
  have op: "is_operation r bucket key query (sh_kind sh)" using planShape_ok [OF sh] by (simp add: shape_ok_def)
  then have m: "r_Method r = os_method (operation_table (sh_kind sh))"
    and qm: "queryMatchesWithValue query (os_id (operation_table (sh_kind sh))) (os_required (operation_table (sh_kind sh)))
      (os_optional (operation_table (sh_kind sh)))"
    and t: "target_of bucket key = os_target (operation_table (sh_kind sh))"
    by (simp_all add: is_operation_def Let_def)
  have "list_all token_byte ''GET''" "list_all token_byte ''PUT''" "list_all token_byte ''HEAD''" "list_all token_byte ''DELETE''"
    "list_all token_byte ''POST''" by code_simp+
  then have "r_Method r \<noteq> []" "list_all token_byte (r_Method r)"
    unfolding m by (cases "sh_kind sh"; simp add: spec_def)+
  moreover have "classifyS3RequestTransform (sh_kind sh) = requestTransformObjectPath \<longleftrightarrow> key \<noteq> []"
    using t by (cases "sh_kind sh") (auto simp: classifyS3RequestTransform_def target_of_def spec_def split: if_splits)
  moreover have "distinct (keys query)" using ParseQuery_distinct [OF q(1)] .
  moreover from query_bound [OF qm this] have "length query \<le> 20"
    by (cases "sh_kind sh") (simp_all add: spec_def getObjectParameters_def)
  ultimately show ?thesis
    using q h key planShape_facts(2) [OF sh] assms(2)
    unfolding accepted_plan_def plan by (auto simp: plan_of_simps canonicalHeaderClone_eq)
qed

lemma accepted_withAuthorizationContext: "accepted_plan (withAuthorizationContext plan loc t) = accepted_plan plan"
  by (simp add: accepted_plan_def withAuthorizationContext_def Let_def)

section \<open>The headers of the outbound request\<close>

lemma map_of_filter_key: "map_of (filter (\<lambda>(k, v). P k) m) k = (if P k then map_of m k else None)"
  by (induction m) auto

lemma header_Values_Del:
  "header_Values (header_Del h del) name = (if CanonicalHeaderKey name = CanonicalHeaderKey del then [] else header_Values h name)"
  by (simp add: header_Values_def header_Del_filter map_of_filter_key)

lemma header_Values_filter:
  assumes "distinct (keys h)"
  shows "header_Values (filter (\<lambda>(k, vs). P k \<and> vs \<noteq> []) h) name = (if P (CanonicalHeaderKey name) then header_Values h name else [])"
  using assms
proof (induction h)
  case (Cons e h)
  obtain k vs where e: "e = (k, vs)" by (cases e)
  show ?case
  proof (cases "k = CanonicalHeaderKey name")
    case True
    then have "map_of h (CanonicalHeaderKey name) = None" using Cons.prems by (simp add: e map_of_None_keys)
    then show ?thesis using Cons by (auto simp: header_Values_def e True)
  qed (use Cons in \<open>auto simp: header_Values_def e\<close>)
qed (simp add: header_Values_def)

lemma hop_not_safe: "n \<in> set hopByHopNames \<Longrightarrow> \<not> safeOutboundRequestHeader n kind"
proof -
  assume n: "n \<in> set hopByHopNames"
  let ?reads = "[''Range'', ''If-Match'', ''If-Modified-Since'', ''If-None-Match'', ''If-Unmodified-Since'', ''If-Range'']"
  let ?bodies = "[''Cache-Control'', ''Content-Disposition'', ''Content-Encoding'', ''Content-Language'', ''Content-Md5'', ''Content-Type'',
    ''Expect'', ''Expires'']"
  have "list_all (\<lambda>n. \<not> HasPrefix (ToLower n) ''x-amz-'' \<and> n \<noteq> ''Accept'' \<and> n \<noteq> ''User-Agent'' \<and> n \<noteq> ''Accept-Encoding''
    \<and> n \<notin> set ?reads \<and> n \<notin> set ?bodies) hopByHopNames" by code_simp
  with n have "\<not> HasPrefix (ToLower n) ''x-amz-'' \<and> n \<noteq> ''Accept'' \<and> n \<noteq> ''User-Agent'' \<and> n \<noteq> ''Accept-Encoding''
    \<and> n \<notin> set ?reads \<and> n \<notin> set ?bodies" unfolding list_all_iff by blast
  then show ?thesis
    unfolding safeOutboundRequestHeader_def objectReadHeaderAllowed_def objectBodyHeaderAllowed_def by (elim conjE) (simp only: if_False simp_thms)
qed

text \<open>The planner refuses a request whose connection names a header that would be forwarded.\<close>

lemma forwarded_is_safe:
  assumes "validateHeadersForOperation src kind"
  shows "forwarded src kind name = safeOutboundRequestHeader name kind"
proof -
  have "\<not> hopByHopHeaderSet src name" if safe: "safeOutboundRequestHeader name kind"
  proof
    assume "hopByHopHeaderSet src name"
    then consider "name \<in> set hopByHopNames" | "name \<in> set (connectionTokens src)"
      by (auto simp: hopByHopHeaderSet_def connectionTokens_def list_ex_iff)
    then show False
    proof cases
      case 2
      with safe assms show False by (auto simp: validateHeadersForOperation_def list_ex_iff)
    qed (use safe hop_not_safe in blast)
  qed
  then show ?thesis by (auto simp: forwarded_def)
qed

definition bare :: "http_header \<Rightarrow> http_header" where
  "bare h = header_Del (header_Del (header_Del h ''Authorization'') ''X-Amz-Date'') ''x-amz-content-sha256''"

definition copied :: "S3OperationPlan \<Rightarrow> http_header" where
  "copied plan = filter (\<lambda>(name, vs). safeOutboundRequestHeader name (p_kind plan) \<and> vs \<noteq> []) (p_forwardHeaders plan)"

lemma outboundHeaders_eq:
  assumes "accepted_plan plan"
  shows "p_kind plan \<noteq> operationCopyObject \<Longrightarrow> outboundHeaders cfg plan = Inr (bare (copied plan))"
    and "p_kind plan = operationCopyObject \<Longrightarrow> p_copySource plan = Some src \<Longrightarrow>
      outboundHeaders cfg plan = bindE (outboundCopySource cfg src) (\<lambda>v. Inr (bare (header_Set (copied plan) copySourceHeader v)))"
proof -
  have a: "signable_header (p_forwardHeaders plan)" "validateHeadersForOperation (p_forwardHeaders plan) (p_kind plan)"
    using assms by (simp_all add: accepted_plan_def)
  have "copyOutboundRequestHeaders (p_forwardHeaders plan) [] (p_kind plan) = copied plan"
    by (simp add: copyOutboundRequestHeaders_eq [OF a(1)] forwarded_is_safe [OF a(2)] copied_def)
  then show "p_kind plan \<noteq> operationCopyObject \<Longrightarrow> outboundHeaders cfg plan = Inr (bare (copied plan))"
    "p_kind plan = operationCopyObject \<Longrightarrow> p_copySource plan = Some src \<Longrightarrow>
      outboundHeaders cfg plan = bindE (outboundCopySource cfg src) (\<lambda>v. Inr (bare (header_Set (copied plan) copySourceHeader v)))"
    unfolding outboundHeaders_def Let_def bare_def by simp_all
qed

lemma outbound_names:
  "CanonicalHeaderKey ''Authorization'' = ''Authorization''" "CanonicalHeaderKey ''X-Amz-Date'' = ''X-Amz-Date''"
  "CanonicalHeaderKey ''x-amz-content-sha256'' = ''X-Amz-Content-Sha256''" "CanonicalHeaderKey copySourceHeader = ''X-Amz-Copy-Source''"
  "list_all token_byte copySourceHeader" "copySourceHeader \<noteq> []"
  by code_simp+

lemma bare_values:
  "header_Values (bare h) name =
     (if CanonicalHeaderKey name \<in> {''Authorization'', ''X-Amz-Date'', ''X-Amz-Content-Sha256''} then [] else header_Values h name)"
  by (simp add: bare_def header_Values_Del outbound_names)

lemma copied_values:
  "accepted_plan plan \<Longrightarrow> header_Values (copied plan) name =
     (if safeOutboundRequestHeader (CanonicalHeaderKey name) (p_kind plan) then header_Values (p_forwardHeaders plan) name else [])"
  unfolding copied_def by (rule header_Values_filter) (simp add: accepted_plan_def signable_header_def)

lemma refused_amz:
  assumes "accepted_plan plan" "name = ''X-Amz-Security-Token'' \<or> name = ''X-Amz-Trailer''"
  shows "name \<notin> set (keys (p_forwardHeaders plan))"
proof
  assume "name \<in> set (keys (p_forwardHeaders plan))"
  moreover have l: "HasPrefix (ToLower name) ''x-amz-''" "ToLower name = ''x-amz-security-token'' \<or> ToLower name = ''x-amz-trailer''"
    using assms(2) by (elim disjE; simp only: ; code_simp)+
  ultimately have "amzHeaderAllowed (p_kind plan) (ToLower name)"
    using amz_header_allowed assms(1) by (auto simp: accepted_plan_def)
  with l(2) show False
    by (auto simp: amzHeaderAllowed_def knownGrantHeader_def copySourceHeader_def HasPrefix_def knownSSEHeader_def sseCustomerHeaders_def
      knownChecksumHeader_def knownChecksumValueHeader_def checksumValueAlgorithms_def)
qed

end
