(* ===== verification/S3_Isolation.thy ===== *)
theory S3_Isolation
  imports S3_Outbound
begin

text \<open>
  The isolation of virtual buckets at the origin: where an authorized request may go, and that it goes
  there with the credentials of its mapping. The theorems follow a request from the planner
  (\<^verbatim>\<open>planS3Operation\<close>) to the signed outbound request of \<^verbatim>\<open>proxyS3Request\<close>.
\<close>

section \<open>From plan to request\<close>

lemma proxyRequest_Inr:
  assumes "plain_text (RealEndpoint c)" "accepted_plan plan" "proxyRequest (Some c) plan now = Inr (cfg, req)"
  obtains scheme host q h where "NormalizeVBucketConfig (Some c) = Inr cfg" "RealEndpoint cfg = scheme @ ''://'' @ host"
    "rewriteValues (p_kind plan) (URL_Query (p_rawQuery plan)) (normalizedPrefix cfg)
       (classifyS3RequestTransform (p_kind plan) = requestTransformListQuery) (Some cfg) = Inr q"
    "outboundHeaders cfg plan = Inr h"
    "req = signRequest (unsigned_request scheme host cfg plan (values_Encode q) h) (RealAccessKey cfg) (RealSecretKey cfg) (RealRegion cfg) now"
proof -
  obtain n where n: "NormalizeVBucketConfig (Some c) = Inr n"
    using assms(3) by (auto simp: proxyRequest_def split: sum.splits)
  have m: "p_method plan \<noteq> []" "list_all token_byte (p_method plan)" using assms(2) by (simp_all add: accepted_plan_def)
  show thesis
    using assms(1) n m
  proof (rule proxyRequest_eq [where now = now])
    fix scheme host
    assume e: "RealEndpoint n = scheme @ ''://'' @ host" and eq: "proxyRequest (Some c) plan now =
       (case rewriteValues (p_kind plan) (URL_Query (p_rawQuery plan)) (normalizedPrefix n)
            (classifyS3RequestTransform (p_kind plan) = requestTransformListQuery) (Some n) of
          Inl _ \<Rightarrow> Inl (Answer (s3Error 400 ''InvalidArgument'' ''Invalid continuation token''))
        | Inr q \<Rightarrow> bindE (outboundHeaders n plan) (\<lambda>h. Inr (n,
            signRequest (unsigned_request scheme host n plan (values_Encode q) h) (RealAccessKey n) (RealSecretKey n) (RealRegion n) now)))"
    from assms(3) obtain q h where "rewriteValues (p_kind plan) (URL_Query (p_rawQuery plan)) (normalizedPrefix n)
            (classifyS3RequestTransform (p_kind plan) = requestTransformListQuery) (Some n) = Inr q"
      "outboundHeaders n plan = Inr h" "n = cfg"
      "signRequest (unsigned_request scheme host n plan (values_Encode q) h) (RealAccessKey n) (RealSecretKey n) (RealRegion n) now = req"
      unfolding eq by (auto simp: res_simps split: sum.splits)
    then show thesis using that n e by blast
  qed
qed

lemma signRequest_keeps [simp]:
  "r_Method (signRequest r a s reg now) = r_Method r" "r_URL (signRequest r a s reg now) = r_URL r"
  "r_Host (signRequest r a s reg now) = r_Host r"
  by (simp_all add: signRequest_def Let_def)

lemma withAuthorizationContext_keeps [simp]:
  "p_kind (withAuthorizationContext plan loc t) = p_kind plan" "p_objectKey (withAuthorizationContext plan loc t) = p_objectKey plan"
  "p_method (withAuthorizationContext plan loc t) = p_method plan" "p_rawQuery (withAuthorizationContext plan loc t) = p_rawQuery plan"
  "p_query (withAuthorizationContext plan loc t) = p_query plan" "p_copySource (withAuthorizationContext plan loc t) = p_copySource plan"
  "p_forwardHeaders (withAuthorizationContext plan loc t) = p_forwardHeaders plan"
  by (simp_all add: withAuthorizationContext_def Let_def)

section \<open>Paths\<close>

lemma split_from_append_char: "split_from [c] acc (a @ c # b) = split_from [c] acc a @ Split b [c]"
proof (induction a arbitrary: acc)
  case Nil
  then show ?case by (simp add: Split_def HasPrefix_def)
next
  case (Cons x a)
  then show ?case by (auto simp: HasPrefix_def Split_def)
qed

lemma Split_append: "Split (a @ c # b) [c] = Split a [c] @ Split b [c]"
  by (simp add: Split_def [of "a @ c # b"] Split_def [of a] split_from_append_char)

lemma normalizedPrefix_eq:
  assumes "safe_prefix (PathPrefix cfg)"
  shows "normalizedPrefix cfg = (if PathPrefix cfg = [] then [] else PathPrefix cfg @ ''/'')"
proof -
  have "\<not> HasSuffix (PathPrefix cfg) ''/''" if ne: "PathPrefix cfg \<noteq> []"
  proof
    assume "HasSuffix (PathPrefix cfg) ''/''"
    then obtain t where "PathPrefix cfg = t @ CHR ''/'' # []" by (auto simp: HasSuffix_iff)
    then have "[] \<in> set (Split (PathPrefix cfg) ''/'')" by (simp add: Split_append Split_char_plain)
    with ne assms show False by (auto simp: safe_prefix_def list_all_iff safe_segment_def)
  qed
  then show ?thesis by (simp add: normalizedPrefix_def TrimSuffix_def)
qed

text \<open>No segment of a prefixed key is a dot segment.\<close>

definition dot_free :: "string \<Rightarrow> bool" where
  "dot_free path = (\<not> list_ex dot_segment (Split path ''/''))"

lemma dot_free_append: "dot_free (a @ ''/'' @ b) \<longleftrightarrow> dot_free a \<and> dot_free b"
  by (simp add: dot_free_def Split_append)

lemma dot_free_empty: "dot_free []"
  by code_simp

lemma prefixed_dot_free:
  assumes "safe_prefix (PathPrefix cfg)" "dot_free key"
  shows "dot_free (normalizedPrefix cfg @ key)"
proof -
  have seg: "\<not> (safe_segment x \<and> dot_segment x)" for x by (auto simp only: safe_segment_def dot_segment_def)
  have "dot_free (PathPrefix cfg)"
  proof (cases "PathPrefix cfg = []")
    case False
    with assms(1) have "list_all safe_segment (Split (PathPrefix cfg) ''/'')" by (simp only: safe_prefix_def) blast
    then show ?thesis using seg unfolding dot_free_def list_all_iff list_ex_iff by blast
  qed (simp only: dot_free_empty)
  then show ?thesis
    using assms(2) dot_free_append [of "PathPrefix cfg" key] by (simp add: normalizedPrefix_eq [OF assms(1)])
qed

lemma bucket_dot_free:
  assumes "isValidBucketName b"
  shows "dot_free b"
proof -
  have "lower_alnum (hd b)" using assms by (simp add: isValidBucketName_def bucketNamePattern_def)
  then have "b \<noteq> ''.''" "b \<noteq> ''..''" by (auto simp: lower_alnum_def is_digit_def byte_def)
  moreover have "CHR ''/'' \<notin> set b" using bucket_chars(4) [OF assms] by simp
  ultimately show ?thesis by (simp add: dot_free_def Split_char_plain dot_segment_def)
qed

lemma outboundPath_dot_free:
  assumes "isValidBucketName (RealBucket cfg)" "dot_free key"
  shows "dot_free (outboundPath cfg key)"
proof -
  have root: "dot_free (''/'' @ s) \<longleftrightarrow> dot_free s" for s
    using dot_free_append [of "[]" s] dot_free_empty by simp
  have "dot_free (RealBucket cfg @ ''/'' @ key)" using bucket_dot_free [OF assms(1)] assms(2) unfolding dot_free_append ..
  then show ?thesis using bucket_dot_free [OF assms(1)] assms(2) unfolding outboundPath_def by (auto simp only: root append_Nil2 split: if_splits)
qed

lemma mapping_fields:
  assumes "NormalizeVBucketConfig (Some c) = Inr cfg"
  shows "isValidBucketName (RealBucket cfg)" "safe_prefix (PathPrefix cfg)" "accessKeyIDPattern (RealAccessKey cfg)"
    "list_all access_char (RealRegion cfg)" "RealRegion cfg \<noteq> []"
proof -
  obtain endpoint prefix d where n: "normalizePrefix (PathPrefix c) = Inr prefix"
    "cfg = c\<lparr>RealEndpoint := endpoint, RealBucket := TrimSpace (RealBucket c), RealRegion := TrimSpace (RealRegion c),
       PathPrefix := prefix, routingTokenCodec := Some d\<rparr>" and b: "isValidBucketName (RealBucket cfg)" "accessKeyIDPattern (RealAccessKey cfg)"
    and reg: "backendRegionPattern (RealRegion cfg)"
    using assms by (rule NormalizeVBucketConfig_Inr)
  show "isValidBucketName (RealBucket cfg)" "accessKeyIDPattern (RealAccessKey cfg)" by (fact b)+
  show "safe_prefix (PathPrefix cfg)" using n(1) [unfolded normalizePrefix_Inr, THEN conjunct2] by (simp add: n(2))
  have chars: "region_char x \<longrightarrow> access_char x" for x
    unfolding region_char_def access_char_def lower_alnum_def is_digit_def Let_def by auto
  have "list_all region_char (RealRegion cfg)" "1 \<le> length (RealRegion cfg)" using reg by (simp_all add: backendRegionPattern_def)
  then show "list_all access_char (RealRegion cfg)" "RealRegion cfg \<noteq> []"
    using chars unfolding list_all_iff by blast (use \<open>1 \<le> length (RealRegion cfg)\<close> in force)
qed

lemma outboundKey_accepted:
  "accepted_plan plan \<Longrightarrow> outboundKey cfg plan = (if p_objectKey plan = [] then [] else normalizedPrefix cfg @ p_objectKey plan)"
  by (auto simp: outboundKey_def accepted_plan_def)

lemma planned_plan:
  assumes "planS3Operation r bucket key = Inr plan"
  shows "p_objectKey plan = key" "p_method plan = r_Method r"
  using assms by (rule planS3Operation_Inr, simp)+

section \<open>Queries\<close>

lemma values_Set_laws:
  "map_of (values_Set q k v) n = (if n = k then Some [v] else map_of q n)"
  "values_Get (values_Set q k v) n = (if n = k then v else values_Get q n)"
  "set (keys (values_Set q k v)) = insert k (set (keys q))"
  "distinct (keys q) \<Longrightarrow> distinct (keys (values_Set q k v))"
  by (simp_all add: values_Set_def values_Get_def update_conv' set_keys dom_update keys_def distinct_update)

text \<open>Values of which every key has one, as the planner demands of a query.\<close>

definition single :: "url_values \<Rightarrow> bool" where
  "single q = (distinct (keys q) \<and> (\<forall>k vs. map_of q k = Some vs \<longrightarrow> length vs = 1))"

lemma single_Set: "single q \<Longrightarrow> single (values_Set q k v)"
  by (auto simp: single_def values_Set_laws)

lemma single_listed: "distinct (keys q) \<Longrightarrow> single q \<longleftrightarrow> list_all (\<lambda>(k, vs). length vs = 1) q"
  by (auto simp: single_def list_all_iff keys_def dest: map_of_SomeD)

lemma parse_single:
  assumes "single q" "length q \<le> maxQueryParams"
  shows "\<exists>q'. ParseQuery (values_Encode q) = Some q' \<and> map_of q' = map_of q"
proof -
  have d: "distinct (keys q)" using assms(1) by (simp add: single_def)
  then have all: "list_all (\<lambda>(k, vs). length vs = 1) q" using assms(1) single_listed by blast
  then have "wf_values q" using d by (auto simp: wf_values_def list_all_iff)
  moreover have "length (values_pairs q) = length q"
  proof -
    have one: "length (the (map_of q k)) = 1" if "k \<in> set (keys q)" for k
      using assms(1) that map_of_None_keys [of q k] by (auto simp: single_def)
    have "length (values_pairs q) = sum_list (map (\<lambda>k. length (the (map_of q k))) (sort (keys q)))"
      by (simp add: values_pairs_def length_concat comp_def)
    also have "\<dots> = sum_list (map (\<lambda>k. 1) (sort (keys q)))"
      by (rule arg_cong [of _ _ sum_list], rule map_cong) (simp_all add: one)
    also have "\<dots> = length q" by (simp add: sum_list_triv keys_def)
    finally show ?thesis .
  qed
  ultimately have "parseQuery (values_Encode q) = (sort_values q, False)" using assms(2) parseQuery_Encode by simp
  then show ?thesis using map_of_sort_values [OF d] by (simp add: ParseQuery_def)
qed

lemma decodeFields_Cons:
  "decodeFields c ((m, kind) # fs) q = Inr q' \<longleftrightarrow>
     (if values_Get q m = [] then decodeFields c fs q = Inr q'
      else \<exists>v. decodeOpaqueToken c kind (values_Get q m) = Inr v \<and> decodeFields c fs (values_Set q m v) = Inr q')"
  by (simp add: res_simps)

lemma decodeFields_single: "decodeFields c fs q = Inr q' \<Longrightarrow> single q \<Longrightarrow> single q'"
  by (induction c fs q rule: decodeFields.induct) (auto simp: res_simps single_Set split: if_splits)

lemma decodeFields_keys: "decodeFields c fs q = Inr q' \<Longrightarrow> set (keys q') \<subseteq> set (keys q) \<union> set (map fst fs)"
proof (induction c fs q rule: decodeFields.induct)
  case (2 c m kind fs q)
  show ?case
  proof (cases "values_Get q m = []")
    case True
    then show ?thesis using 2 by auto
  next
    case False
    then obtain v where "decodeOpaqueToken c kind (values_Get q m) = Inr v" "decodeFields c fs (values_Set q m v) = Inr q'"
      using "2.prems" unfolding decodeFields_Cons by auto
    with "2.IH"(1) [OF False this] show ?thesis by (auto simp: values_Set_laws)
  qed
qed simp

lemma decodeFields_other: "decodeFields c fs q = Inr q' \<Longrightarrow> n \<notin> set (map fst fs) \<Longrightarrow> map_of q' n = map_of q n"
proof (induction c fs q rule: decodeFields.induct)
  case (2 c m kind fs q)
  then show ?case unfolding decodeFields_Cons by (auto simp: values_Set_laws split: if_splits)
qed simp

lemma decodeFields_field:
  assumes "decodeFields c fs q = Inr q'" "distinct (map fst fs)" "(n, kind) \<in> set fs"
  shows "if values_Get q n = [] then map_of q' n = map_of q n
    else \<exists>v. decodeOpaqueToken c kind (values_Get q n) = Inr v \<and> map_of q' n = Some [v]"
  using assms
proof (induction fs arbitrary: q)
  case (Cons f fs)
  obtain m k where f: "f = (m, k)" by (cases f)
  have rest: "if values_Get r n = [] then map_of q' n = map_of r n
    else \<exists>v. decodeOpaqueToken c kind (values_Get r n) = Inr v \<and> map_of q' n = Some [v]"
    if "decodeFields c fs r = Inr q'" "n \<noteq> m" for r
    using that Cons.IH Cons.prems(2,3) f by simp
  have here: "k = kind \<and> map_of q' m = map_of r m" if "decodeFields c fs r = Inr q'" "n = m" for r
  proof -
    have "m \<notin> set (map fst fs)" using Cons.prems(2) f by simp
    moreover from this have "k = kind" using Cons.prems(3) f \<open>n = m\<close> by force
    ultimately show ?thesis using decodeFields_other that(1) by metis
  qed
  show ?case
  proof (cases "values_Get q m = []")
    case True
    then have "decodeFields c fs q = Inr q'" using Cons.prems(1) unfolding f decodeFields_Cons by simp
    then show ?thesis using rest here True by (cases "n = m") simp_all
  next
    case False
    then obtain v where v: "decodeOpaqueToken c k (values_Get q m) = Inr v" "decodeFields c fs (values_Set q m v) = Inr q'"
      using Cons.prems(1) unfolding f decodeFields_Cons by auto
    show ?thesis
    proof (cases "n = m")
      case True
      then show ?thesis using False v(1) here [OF v(2)] by (simp add: values_Set_laws)
    next
      case other: False
      then show ?thesis using rest [OF v(2) other] by (simp only: values_Set_laws if_False)
    qed
  qed
qed simp

lemma decodeFields_ok:
  assumes "\<forall>(n, kind) \<in> set fs. values_Get q n \<noteq> [] \<longrightarrow> (\<exists>v. decodeOpaqueToken c kind (values_Get q n) = Inr v)" "distinct (map fst fs)"
  shows "\<exists>q'. decodeFields c fs q = Inr q'"
  using assms
proof (induction fs arbitrary: q)
  case (Cons f fs)
  obtain m k where f: "f = (m, k)" by (cases f)
  show ?case
  proof (cases "values_Get q m = []")
    case True
    then show ?thesis using Cons unfolding f by simp
  next
    case False
    then obtain v where v: "decodeOpaqueToken c k (values_Get q m) = Inr v" using Cons.prems(1) f by auto
    have "\<forall>(n, kind) \<in> set fs. values_Get (values_Set q m v) n \<noteq> [] \<longrightarrow> (\<exists>w. decodeOpaqueToken c kind (values_Get (values_Set q m v) n) = Inr w)"
      using Cons.prems f by (force simp: values_Set_laws)
    then obtain q' where "decodeFields c fs (values_Set q m v) = Inr q'" using Cons.IH Cons.prems(2) f by force
    then show ?thesis using False v unfolding f decodeFields_Cons by auto
  qed
qed simp

text \<open>The fields of a query that get the prefix of the mapping.\<close>

definition confined_field :: "S3OperationKind \<Rightarrow> url_values \<Rightarrow> string \<Rightarrow> bool" where
  "confined_field kind q name =
     (name = ''prefix'' \<and> classifyS3RequestTransform kind = requestTransformListQuery
      \<or> name \<in> set (keyFields kind) \<and> values_Get q name \<noteq> [])"

definition prefixed :: "S3OperationKind \<Rightarrow> url_values \<Rightarrow> string \<Rightarrow> url_values" where
  "prefixed kind q pre =
     foldl (prefixField pre)
       (if classifyS3RequestTransform kind = requestTransformListQuery \<and> pre \<noteq> [] then values_Set q ''prefix'' (pre @ values_Get q ''prefix'') else q)
       (keyFields kind)"

lemma rewriteValues_eq:
  "rewriteValues kind q pre (classifyS3RequestTransform kind = requestTransformListQuery) (Some cfg) =
     decodeFields (Some cfg) tokenFields (prefixed kind q pre)"
  by (simp add: rewriteValues_def prefixed_def Let_def)

lemma field_names:
  "\<exists>f. keyFields kind = [] \<or> keyFields kind = [f] \<and> f \<noteq> ''prefix'' \<and> f \<notin> set (map fst tokenFields)"
  "''prefix'' \<notin> set (map fst tokenFields)" "distinct (map fst tokenFields)" "length tokenFields = 4"
  by (cases "kind = operationListObjects \<or> kind = operationListObjectsV2 \<or> kind = operationListMultipartUploads";
      auto simp: keyFields_def tokenFields_def) code_simp+

lemma map_of_prefixed:
  "map_of (prefixed kind q pre) n = (if pre \<noteq> [] \<and> confined_field kind q n then Some [pre @ values_Get q n] else map_of q n)"
proof -
  obtain f where "keyFields kind = [] \<or> keyFields kind = [f] \<and> f \<noteq> ''prefix''" using field_names(1) [of kind] by blast
  then show ?thesis
    unfolding prefixed_def confined_field_def
    by (elim disjE conjE; cases "n = f"; simp add: prefixField_def values_Set_laws)
qed

lemma prefixed_single: "single q \<Longrightarrow> single (prefixed kind q pre)"
proof -
  assume q: "single q"
  have step: "single r \<Longrightarrow> single (prefixField pre r f)" for r f by (simp add: prefixField_def single_Set)
  have "single r \<Longrightarrow> single (foldl (prefixField pre) r fs)" for r fs
    by (induction fs arbitrary: r) (simp_all add: step)
  then show ?thesis using q by (simp add: prefixed_def single_Set)
qed

lemma prefixed_keys: "set (keys (prefixed kind q pre)) \<subseteq> insert ''prefix'' (set (keyFields kind) \<union> set (keys q))"
proof
  fix n assume "n \<in> set (keys (prefixed kind q pre))"
  then have "map_of (prefixed kind q pre) n \<noteq> None" using map_of_None_keys [of "prefixed kind q pre" n] by blast
  then show "n \<in> insert ''prefix'' (set (keyFields kind) \<union> set (keys q))"
    using map_of_None_keys [of q n] unfolding map_of_prefixed confined_field_def by (auto split: if_splits)
qed

lemma prefixed_token_Get: "n \<in> set (map fst tokenFields) \<Longrightarrow> values_Get (prefixed kind q pre) n = values_Get q n"
proof -
  assume n: "n \<in> set (map fst tokenFields)"
  obtain f where "keyFields kind = [] \<or> keyFields kind = [f] \<and> f \<notin> set (map fst tokenFields)" using field_names(1) [of kind] by blast
  with n field_names(2) have "\<not> confined_field kind q n" unfolding confined_field_def by (metis empty_iff empty_set set_ConsD)
  then show ?thesis by (simp add: values_Get_def map_of_prefixed)
qed

lemma rewritten_length:
  assumes "decodeFields (Some cfg) tokenFields (prefixed kind q pre) = Inr q'" "single q" "length q \<le> 20"
  shows "length q' \<le> maxQueryParams" "single q'"
proof -
  have "set (keys q') \<subseteq> set (''prefix'' # keyFields kind @ keys q @ map fst tokenFields)"
    using decodeFields_keys [OF assms(1)] prefixed_keys [of kind q pre] by auto
  then have "card (set (keys q')) \<le> card (set (''prefix'' # keyFields kind @ keys q @ map fst tokenFields))" by (intro card_mono) auto
  also have "\<dots> \<le> length (''prefix'' # keyFields kind @ keys q @ map fst tokenFields)" by (rule card_length)
  also have "\<dots> \<le> 30" using assms(3) field_names(1) [of kind] field_names(4) by (auto simp: keys_def)
  finally have "card (set (keys q')) \<le> 30" .
  moreover show "single q'" using decodeFields_single [OF assms(1) prefixed_single [OF assms(2)]] .
  ultimately show "length q' \<le> maxQueryParams"
    using distinct_card [of "keys q'"] by (simp add: single_def keys_def maxQueryParams_def)
qed

section \<open>Confinement\<close>

lemma planned_request_Inr:
  assumes "plain_text (RealEndpoint c)" "planS3Operation r bucket key = Inr plan" "signable_header (r_Header r)"
    and "proxyRequest (Some c) (withAuthorizationContext plan loc t) now = Inr (cfg, req)"
  obtains scheme host q h where "NormalizeVBucketConfig (Some c) = Inr cfg" "RealEndpoint cfg = scheme @ ''://'' @ host"
    "decodeFields (Some cfg) tokenFields (prefixed (p_kind plan) (p_query plan) (normalizedPrefix cfg)) = Inr q"
    "outboundHeaders cfg plan = Inr h" "accepted_plan plan"
    "r_URL req = \<lparr>u_Scheme = scheme, u_Host = outboundHost cfg host,
       u_Path = outboundPath cfg (if key = [] then [] else normalizedPrefix cfg @ key), u_RawPath = [], u_RawQuery = values_Encode q\<rparr>"
    "req = signRequest (unsigned_request scheme host cfg (withAuthorizationContext plan loc t) (values_Encode q) h)
       (RealAccessKey cfg) (RealSecretKey cfg) (RealRegion cfg) now"
proof -
  have p: "accepted_plan plan" by (rule planned_is_accepted [OF assms(2,3)])
  then have a: "accepted_plan (withAuthorizationContext plan loc t)" by (simp add: accepted_withAuthorizationContext)
  have query: "URL_Query (p_rawQuery plan) = p_query plan"
    using p by (auto simp: accepted_plan_def ParseQuery_def URL_Query_def split: if_splits prod.splits)
  show thesis
    using assms(1) a assms(4)
  proof (rule proxyRequest_Inr)
    fix scheme host q h
    assume n: "NormalizeVBucketConfig (Some c) = Inr cfg" "RealEndpoint cfg = scheme @ ''://'' @ host"
      and "rewriteValues (p_kind (withAuthorizationContext plan loc t)) (URL_Query (p_rawQuery (withAuthorizationContext plan loc t)))
        (normalizedPrefix cfg) (classifyS3RequestTransform (p_kind (withAuthorizationContext plan loc t)) = requestTransformListQuery)
        (Some cfg) = Inr q"
      and h: "outboundHeaders cfg (withAuthorizationContext plan loc t) = Inr h"
      and req: "req = signRequest (unsigned_request scheme host cfg (withAuthorizationContext plan loc t) (values_Encode q) h)
        (RealAccessKey cfg) (RealSecretKey cfg) (RealRegion cfg) now"
    then have d: "decodeFields (Some cfg) tokenFields (prefixed (p_kind plan) (p_query plan) (normalizedPrefix cfg)) = Inr q"
      by (simp add: query rewriteValues_eq)
    moreover have "outboundHeaders cfg plan = Inr h" using h unfolding outboundHeaders_def withAuthorizationContext_keeps .
    moreover have "r_URL req = \<lparr>u_Scheme = scheme, u_Host = outboundHost cfg host,
       u_Path = outboundPath cfg (if key = [] then [] else normalizedPrefix cfg @ key), u_RawPath = [], u_RawQuery = values_Encode q\<rparr>"
      using outboundKey_accepted [OF a, of cfg] by (simp add: req unsigned_request_def planned_plan [OF assms(2)])
    ultimately show thesis using that n req p by blast
  qed
qed

text \<open>
  C12. Where an authorized request goes. The outbound request of a planned operation goes to the endpoint
  and the bucket of its mapping. An operation on a bucket stays at the root of the bucket, an operation on an
  object names the prefix of the mapping followed by the key of the client, and no segment of the path is a
  dot segment, so that the origin cannot resolve the path to one outside the prefix.
\<close>

theorem outbound_request_is_confined:
  assumes "plain_text (RealEndpoint c)" "planS3Operation r bucket key = Inr plan" "signable_header (r_Header r)"
    and "proxyRequest (Some c) (withAuthorizationContext plan loc t) now = Inr (cfg, req)"
  shows "NormalizeVBucketConfig (Some c) = Inr cfg \<and> r_Method req = r_Method r
    \<and> (\<exists>scheme host. RealEndpoint cfg = scheme @ ''://'' @ host \<and> u_Scheme (r_URL req) = scheme \<and> r_Host req = u_Host (r_URL req)
         \<and> u_Host (r_URL req) = (if RealUsePathStyle cfg then host else RealBucket cfg @ ''.'' @ host))
    \<and> unescape encodePath (EscapedPath (r_URL req)) =
        Some ((if RealUsePathStyle cfg then ''/'' @ RealBucket cfg @ (if key = [] then [] else ''/'') else ''/'')
              @ (if key = [] then [] else normalizedPrefix cfg @ key))
    \<and> \<not> list_ex dot_segment (Split (u_Path (r_URL req)) ''/'')"
proof -
  obtain scheme host q h where n: "NormalizeVBucketConfig (Some c) = Inr cfg" and e: "RealEndpoint cfg = scheme @ ''://'' @ host"
    and a: "accepted_plan plan" and url: "r_URL req = \<lparr>u_Scheme = scheme, u_Host = outboundHost cfg host,
       u_Path = outboundPath cfg (if key = [] then [] else normalizedPrefix cfg @ key), u_RawPath = [], u_RawQuery = values_Encode q\<rparr>"
    and req: "req = signRequest (unsigned_request scheme host cfg (withAuthorizationContext plan loc t) (values_Encode q) h)
       (RealAccessKey cfg) (RealSecretKey cfg) (RealRegion cfg) now"
    using planned_request_Inr [OF assms] by metis
  let ?k = "if key = [] then [] else normalizedPrefix cfg @ key"
  have "dot_free ?k"
    using a prefixed_dot_free [OF mapping_fields(2) [OF n], of key] dot_free_empty
    by (auto simp: accepted_plan_def planned_plan [OF assms(2)] dot_free_def validateVirtualObjectKey_def)
  then have "\<not> list_ex dot_segment (Split (u_Path (r_URL req)) ''/'')"
    using outboundPath_dot_free [OF mapping_fields(1) [OF n], of ?k] by (simp add: url dot_free_def)
  moreover have "r_Method req = r_Method r" "u_Scheme (r_URL req) = scheme" "r_Host req = u_Host (r_URL req)"
    "u_Host (r_URL req) = (if RealUsePathStyle cfg then host else RealBucket cfg @ ''.'' @ host)"
    by (simp_all add: req unsigned_request_def planned_plan [OF assms(2)] outboundHost_def)
  moreover have "unescape encodePath (EscapedPath (r_URL req)) =
      Some ((if RealUsePathStyle cfg then ''/'' @ RealBucket cfg @ (if key = [] then [] else ''/'') else ''/'')
            @ (if key = [] then [] else normalizedPrefix cfg @ key))"
    unfolding unescape_EscapedPath url by (simp add: outboundPath_def)
  ultimately show ?thesis using n e by blast
qed

text \<open>
  C14. What an authorized request asks. The query of the outbound request is read by the origin as the
  query of the client, except that the prefix of a listing and its starting key get the prefix of the mapping
  in front, also where the client gave no prefix, and that tokens are replaced by the values of the origin
  they stand for.
\<close>

theorem outbound_query_is_confined:
  assumes "plain_text (RealEndpoint c)" "planS3Operation r bucket key = Inr plan" "signable_header (r_Header r)"
    and "proxyRequest (Some c) (withAuthorizationContext plan loc t) now = Inr (cfg, req)"
  shows "\<exists>q. ParseQuery (u_RawQuery (r_URL req)) = Some q
    \<and> (\<forall>name. if normalizedPrefix cfg \<noteq> [] \<and> confined_field (p_kind plan) (p_query plan) name
              then map_of q name = Some [normalizedPrefix cfg @ values_Get (p_query plan) name]
              else if name \<in> set (map fst tokenFields) \<and> values_Get (p_query plan) name \<noteq> []
              then \<exists>v. decodeOpaqueToken (Some cfg) (the (map_of tokenFields name)) (values_Get (p_query plan) name) = Inr v
                \<and> map_of q name = Some [v]
              else map_of q name = map_of (p_query plan) name)"
proof -
  obtain scheme host q h where d: "decodeFields (Some cfg) tokenFields (prefixed (p_kind plan) (p_query plan) (normalizedPrefix cfg)) = Inr q"
    and p: "accepted_plan plan" and url: "u_RawQuery (r_URL req) = values_Encode q"
    using planned_request_Inr [OF assms] by (metis go_url.select_convs(5))
  have query: "single (p_query plan)" "length (p_query plan) \<le> 20"
    using p single_listed [of "p_query plan"] by (simp_all add: accepted_plan_def)
  obtain q' where q': "ParseQuery (u_RawQuery (r_URL req)) = Some q'" "map_of q' = map_of q"
    using parse_single rewritten_length [OF d query] by (auto simp: url)
  have "if normalizedPrefix cfg \<noteq> [] \<and> confined_field (p_kind plan) (p_query plan) name
            then map_of q name = Some [normalizedPrefix cfg @ values_Get (p_query plan) name]
            else if name \<in> set (map fst tokenFields) \<and> values_Get (p_query plan) name \<noteq> []
            then \<exists>v. decodeOpaqueToken (Some cfg) (the (map_of tokenFields name)) (values_Get (p_query plan) name) = Inr v
              \<and> map_of q name = Some [v]
            else map_of q name = map_of (p_query plan) name" for name
  proof (cases "name \<in> set (map fst tokenFields)")
    case True
    then obtain kind where k: "(name, kind) \<in> set tokenFields" "map_of tokenFields name = Some kind"
      by (metis (no_types) map_of_eq_None_iff map_of_SomeD not_None_eq set_map)
    have "\<not> confined_field (p_kind plan) (p_query plan) name"
      using True field_names(1) [of "p_kind plan"] field_names(2) unfolding confined_field_def by (metis empty_iff empty_set set_ConsD)
    then show ?thesis
      using decodeFields_field [OF d field_names(3) k(1)] True k(2) prefixed_token_Get [OF True]
      by (simp add: map_of_prefixed split: if_splits)
  next
    case False
    from decodeFields_other [OF d this] show ?thesis unfolding map_of_prefixed using False by simp
  qed
  then show ?thesis using q' by auto
qed

lemma append_prefix: "p @ k = q @ l \<Longrightarrow> HasPrefix p q \<or> HasPrefix q p" for p q :: string
  by (metis append_eq_append_conv2 HasPrefix_iff)

lemma segment_inject: "CHR ''/'' \<notin> set a \<Longrightarrow> CHR ''/'' \<notin> set b \<Longrightarrow> a @ CHR ''/'' # x = b @ CHR ''/'' # y \<Longrightarrow> a = b \<and> x = y"
  by (metis Cut_char option.inject prod.inject)

text \<open>
  C13. Two tenants. Requests for objects through two mappings with the same addressing style, of which
  neither prefix is a directory above the other or the same, never address the same object of the origin,
  whatever keys the clients choose and even where the mappings share endpoint and bucket.
\<close>

theorem disjoint_prefixes_never_meet:
  assumes "plain_text (RealEndpoint c)" "planS3Operation r bucket key = Inr plan" "signable_header (r_Header r)"
    and "proxyRequest (Some c) (withAuthorizationContext plan loc t) now = Inr (cfg, req)"
    and "plain_text (RealEndpoint c')" "planS3Operation r' bucket' key' = Inr plan'" "signable_header (r_Header r')"
    and "proxyRequest (Some c') (withAuthorizationContext plan' loc' t') now' = Inr (cfg', req')"
    and "key \<noteq> []" "key' \<noteq> []" "RealUsePathStyle cfg = RealUsePathStyle cfg'"
    and "\<not> HasPrefix (normalizedPrefix cfg) (normalizedPrefix cfg')" "\<not> HasPrefix (normalizedPrefix cfg') (normalizedPrefix cfg)"
  shows "EscapedPath (r_URL req) \<noteq> EscapedPath (r_URL req')"
proof
  assume eq: "EscapedPath (r_URL req) = EscapedPath (r_URL req')"
  have one: "u_Path (r_URL req) = outboundPath cfg (normalizedPrefix cfg @ key)" "isValidBucketName (RealBucket cfg)"
    using planned_request_Inr [OF assms(1-4)] mapping_fields(1) assms(9) by (metis go_url.select_convs(3))+
  have two: "u_Path (r_URL req') = outboundPath cfg' (normalizedPrefix cfg' @ key')" "isValidBucketName (RealBucket cfg')"
    using planned_request_Inr [OF assms(5-8)] mapping_fields(1) assms(10) by (metis go_url.select_convs(3))+
  from eq have "u_Path (r_URL req) = u_Path (r_URL req')" by (metis option.inject unescape_EscapedPath)
  then have paths: "outboundPath cfg (normalizedPrefix cfg @ key) = outboundPath cfg' (normalizedPrefix cfg' @ key')"
    using one(1) two(1) by simp
  have "normalizedPrefix cfg @ key = normalizedPrefix cfg' @ key'"
  proof (cases "RealUsePathStyle cfg")
    case True
    then have "RealBucket cfg @ CHR ''/'' # (normalizedPrefix cfg @ key) = RealBucket cfg' @ CHR ''/'' # (normalizedPrefix cfg' @ key')"
      using paths assms(9-11) by (simp add: outboundPath_def)
    moreover have "CHR ''/'' \<notin> set (RealBucket cfg)" "CHR ''/'' \<notin> set (RealBucket cfg')"
      using bucket_chars(4) one(2) two(2) by simp_all
    ultimately show ?thesis using segment_inject by blast
  qed (use paths assms(11) in \<open>simp add: outboundPath_def\<close>)
  then show False using append_prefix assms(12,13) by blast
qed

section \<open>Headers and signature\<close>

lemma signable_bare: "signable_header h \<Longrightarrow> signable_header (bare h)"
  by (simp add: bare_def header_Del_filter signable_filter)

lemma bare_keys: "set (keys (bare h)) = set (keys h) - {''Authorization'', ''X-Amz-Date'', ''X-Amz-Content-Sha256''}"
  by (auto simp: bare_def header_Del_filter outbound_names keys_def)

lemma outboundHeaders_signable:
  assumes "accepted_plan plan" "outboundHeaders cfg plan = Inr h"
  shows "signable_header h" "\<forall>k \<in> {''Authorization'', ''X-Amz-Security-Token'', ''X-Amz-Trailer''}. k \<notin> set (keys h)"
proof -
  have src: "signable_header (p_forwardHeaders plan)" using assms(1) by (simp add: accepted_plan_def)
  then have c: "signable_header (copied plan)" by (simp add: copied_def signable_filter)
  have ck: "set (keys (copied plan)) \<subseteq> set (keys (p_forwardHeaders plan))" by (auto simp: copied_def keys_def)
  have "\<exists>b. h = bare b \<and> signable_header b \<and> set (keys b) \<subseteq> insert ''X-Amz-Copy-Source'' (set (keys (copied plan)))"
  proof (cases "p_kind plan = operationCopyObject")
    case True
    then obtain src where "p_copySource plan = Some src" using assms(1) by (auto simp: accepted_plan_def)
    with outboundHeaders_eq(2) [OF assms(1) True] assms(2) obtain v where "h = bare (header_Set (copied plan) copySourceHeader v)"
      by (auto simp: res_simps)
    moreover have "signable_header (header_Set (copied plan) copySourceHeader v)"
      using signable_header_Set [OF c outbound_names(6,5)] .
    moreover have "set (keys (header_Set (copied plan) copySourceHeader v)) = insert ''X-Amz-Copy-Source'' (set (keys (copied plan)))"
      by (simp only: set_keys_Set outbound_names)
    ultimately show ?thesis by blast
  next
    case False
    then show ?thesis using outboundHeaders_eq(1) [OF assms(1) False] assms(2) c by auto
  qed
  then obtain b where b: "h = bare b" "signable_header b" "set (keys b) \<subseteq> insert ''X-Amz-Copy-Source'' (set (keys (copied plan)))"
    by blast
  show "signable_header h" using b(1,2) signable_bare by simp
  have "''X-Amz-Security-Token'' \<notin> set (keys b)" "''X-Amz-Trailer'' \<notin> set (keys b)"
    using b(3) ck refused_amz [OF assms(1)] by auto
  then show "\<forall>k \<in> {''Authorization'', ''X-Amz-Security-Token'', ''X-Amz-Trailer''}. k \<notin> set (keys h)"
    unfolding b(1) bare_keys by simp
qed

lemma outbound_signable:
  assumes "accepted_plan plan" "outboundHeaders cfg plan = Inr h"
  shows "signable (unsigned_request scheme host cfg p query h)"
  using outboundHeaders_signable [OF assms] by (simp add: signable_def unsigned_request_def)

text \<open>
  C16. The credentials. The outbound request verifies, by the same rules that the proxy itself applies to its
  clients, under the access key and the secret of the mapping: the headers that were forwarded do not
  disturb the signature, and the signature of the client is gone.
\<close>

theorem outbound_request_verifies:
  assumes "plain_text (RealEndpoint c)" "planS3Operation r bucket key = Inr plan" "signable_header (r_Header r)"
    and "proxyRequest (Some c) (withAuthorizationContext plan loc t) now = Inr (cfg, req)"
    and "wf_civil now" "\<not> too_skewed clock (now\<lparr>tm_nsec := 0\<rparr>) maxSkew"
  shows "\<exists>v ai. header_Values (r_Header req) ''Authorization'' = [v] \<and> parseAuthorizationHeader v = Some ai
    \<and> ai_AccessKeyID ai = RealAccessKey c \<and> ai_Region ai = RealRegion cfg
    \<and> verifySignatureAtTime req (Some ai) (RealSecretKey c) clock maxSkew = Inr ()"
  using assms(1-4)
proof (rule planned_request_Inr)
  fix scheme host q h
  assume n: "NormalizeVBucketConfig (Some c) = Inr cfg" and h: "outboundHeaders cfg plan = Inr h" and p: "accepted_plan plan"
    and req: "req = signRequest (unsigned_request scheme host cfg (withAuthorizationContext plan loc t) (values_Encode q) h)
       (RealAccessKey cfg) (RealSecretKey cfg) (RealRegion cfg) now"
  let ?u = "unsigned_request scheme host cfg (withAuthorizationContext plan loc t) (values_Encode q) h"
  let ?ai = "signing_info ?u (RealAccessKey cfg) (RealSecretKey cfg) (RealRegion cfg) now"
  have s: "signable ?u" using outbound_signable [OF p h] .
  have keep: "RealAccessKey cfg = RealAccessKey c" "RealSecretKey cfg = RealSecretKey c"
    using n by (rule NormalizeVBucketConfig_Inr, simp)+
  have "header_Values (r_Header req) ''Authorization'' = [authorization_value ?ai]" using signed_header_values(6) [OF s] by (simp add: req)
  moreover have "parseAuthorizationHeader (authorization_value ?ai) = Some ?ai"
    using parse_authorization [OF assms(5) mapping_fields(3-5) [OF n] s] .
  moreover have "verifySignatureAtTime req (Some ?ai) (RealSecretKey cfg) clock maxSkew = Inr ()"
    using verify_signed [OF assms(5) s] assms(6) by (simp add: req)
  moreover have "ai_AccessKeyID ?ai = RealAccessKey cfg" "ai_Region ?ai = RealRegion cfg" by (simp_all add: signing_info_def Let_def)
  ultimately show ?thesis by (metis keep)
qed

lemma signed_values_other:
  assumes "CanonicalHeaderKey name \<notin> {''Authorization'', ''X-Amz-Date'', ''X-Amz-Content-Sha256''}"
  shows "header_Values (r_Header (signRequest r a s reg now)) name = header_Values (r_Header r) name"
proof -
  have "CanonicalHeaderKey name \<noteq> CanonicalHeaderKey ''Authorization''" "CanonicalHeaderKey name \<noteq> CanonicalHeaderKey ''X-Amz-Date''"
    "CanonicalHeaderKey name \<noteq> CanonicalHeaderKey ''x-amz-content-sha256''"
    using assms unfolding outbound_names by blast+
  then show ?thesis by (simp add: signRequest_eq signed_at_def header_Values_Set_other)
qed

lemma outboundHeaders_values:
  assumes "accepted_plan plan" "outboundHeaders cfg plan = Inr h"
    and "CanonicalHeaderKey name \<notin> {''Authorization'', ''X-Amz-Date'', ''X-Amz-Content-Sha256''}"
  shows "CanonicalHeaderKey name \<noteq> ''X-Amz-Copy-Source'' \<or> p_kind plan \<noteq> operationCopyObject \<Longrightarrow>
      header_Values h name = (if safeOutboundRequestHeader (CanonicalHeaderKey name) (p_kind plan) then header_Values (p_forwardHeaders plan) name else [])"
    and "CanonicalHeaderKey name = ''X-Amz-Copy-Source'' \<Longrightarrow> p_kind plan = operationCopyObject \<Longrightarrow> p_copySource plan = Some src \<Longrightarrow>
      \<exists>v. outboundCopySource cfg src = Inr v \<and> header_Values h name = [v]"
proof -
  have copy: "\<exists>v. outboundCopySource cfg src = Inr v \<and> h = bare (header_Set (copied plan) copySourceHeader v)"
    if "p_kind plan = operationCopyObject" "p_copySource plan = Some src" for src
    using outboundHeaders_eq(2) [OF assms(1) that] assms(2) by (auto simp: res_simps)
  have bare: "header_Values (bare b) name = header_Values b name" for b unfolding bare_values using assms(3) by (simp only: if_False)
  show "header_Values h name = (if safeOutboundRequestHeader (CanonicalHeaderKey name) (p_kind plan) then header_Values (p_forwardHeaders plan) name else [])"
    if o: "CanonicalHeaderKey name \<noteq> ''X-Amz-Copy-Source'' \<or> p_kind plan \<noteq> operationCopyObject"
  proof (cases "p_kind plan = operationCopyObject")
    case True
    then obtain src where "p_copySource plan = Some src" using assms(1) by (auto simp: accepted_plan_def)
    then obtain v where "h = bare (header_Set (copied plan) copySourceHeader v)" using copy [OF True] by blast
    moreover have "CanonicalHeaderKey name \<noteq> CanonicalHeaderKey copySourceHeader" using o True unfolding outbound_names by blast
    ultimately show ?thesis by (simp only: bare header_Values_Set_other copied_values [OF assms(1)] not_False_eq_True)
  next
    case False
    then have "h = bare (copied plan)" using outboundHeaders_eq(1) [OF assms(1)] assms(2) by auto
    then show ?thesis by (simp only: bare copied_values [OF assms(1)])
  qed
  assume "CanonicalHeaderKey name = ''X-Amz-Copy-Source''" "p_kind plan = operationCopyObject" "p_copySource plan = Some src"
  then show "\<exists>v. outboundCopySource cfg src = Inr v \<and> header_Values h name = [v]"
    using copy [of src] bare header_Values_Set [of name copySourceHeader] unfolding outbound_names by metis
qed

text \<open>
  C17. The headers. Apart from the date, the payload hash, the authorization and the copy source, which the proxy
  writes itself, the outbound request has exactly the headers of the client that are safe for its operation,
  with their values in order; no header of the connection reaches the origin.
\<close>

theorem outbound_headers_are_safe:
  assumes "plain_text (RealEndpoint c)" "planS3Operation r bucket key = Inr plan" "signable_header (r_Header r)"
    and "proxyRequest (Some c) (withAuthorizationContext plan loc t) now = Inr (cfg, req)"
    and "CanonicalHeaderKey name \<notin> {''Authorization'', ''X-Amz-Date'', ''X-Amz-Content-Sha256'', ''X-Amz-Copy-Source''}"
  shows "header_Values (r_Header req) name =
      (if safeOutboundRequestHeader (CanonicalHeaderKey name) (p_kind plan) then header_Values (r_Header r) name else [])
    \<and> (hopByHopHeaderSet (r_Header r) (CanonicalHeaderKey name) \<longrightarrow> header_Values (r_Header req) name = [])"
  using assms(1-4)
proof (rule planned_request_Inr)
  fix scheme host q h
  assume h: "outboundHeaders cfg plan = Inr h" and p: "accepted_plan plan"
    and req: "req = signRequest (unsigned_request scheme host cfg (withAuthorizationContext plan loc t) (values_Encode q) h)
       (RealAccessKey cfg) (RealSecretKey cfg) (RealRegion cfg) now"
  have n: "CanonicalHeaderKey name \<notin> {''Authorization'', ''X-Amz-Date'', ''X-Amz-Content-Sha256''}"
    "CanonicalHeaderKey name \<noteq> ''X-Amz-Copy-Source''" using assms(5) by blast+
  have src: "p_forwardHeaders plan = r_Header r"
    using assms(2) by (rule planS3Operation_Inr) (simp add: canonicalHeaderClone_eq [OF assms(3)])
  have "header_Values (r_Header req) name = header_Values h name"
    unfolding req signed_values_other [OF n(1)] by (simp add: unsigned_request_def)
  then have v: "header_Values (r_Header req) name =
      (if safeOutboundRequestHeader (CanonicalHeaderKey name) (p_kind plan) then header_Values (r_Header r) name else [])"
    using outboundHeaders_values(1) [OF p h n(1)] n(2) src by metis
  have "forwarded (r_Header r) (p_kind plan) (CanonicalHeaderKey name) = safeOutboundRequestHeader (CanonicalHeaderKey name) (p_kind plan)"
    using p forwarded_is_safe by (simp add: accepted_plan_def src)
  then show ?thesis using v by (metis forwarded_def)
qed

lemma version_query: "values_Encode (values_Set [] ''versionId'' v) = ''versionId='' @ QueryEscape v"
proof -
  have "QueryEscape ''versionId'' = ''versionId''" by code_simp
  then show ?thesis by (simp add: values_Encode_def values_pairs_def values_Set_def encode_pair_def)
qed

lemma buildCopySource_parts:
  assumes "list_all unreserved bucket"
  shows "buildCopySource bucket key v =
    bucket @ ''/'' @ escape encodePath key @ (if v = [] then [] else ''?versionId='' @ QueryEscape v)"
proof -
  have "buildCopySource bucket key v = buildCopySource bucket key [] @ (if v = [] then [] else ''?'' @ values_Encode (values_Set [] ''versionId'' v))"
    by (simp add: buildCopySource_def Let_def)
  then show ?thesis by (simp add: buildCopySource_path [OF assms] version_query)
qed

text \<open>
  C15. The source of a copy. The copy source that the origin is sent lies in the bucket of the mapping, its path
  decodes to the prefix of the mapping followed by the key that was authorized, without dot segments, and its
  version is the one that the token of the client stands for.
\<close>

theorem outbound_copy_source_is_confined:
  assumes "plain_text (RealEndpoint c)" "planS3Operation r bucket key = Inr plan" "signable_header (r_Header r)"
    and "proxyRequest (Some c) (withAuthorizationContext plan loc t) now = Inr (cfg, req)" "p_kind plan = operationCopyObject"
  shows "\<exists>src path version. p_copySource plan = Some src
    \<and> header_Values (r_Header req) copySourceHeader =
        [RealBucket cfg @ ''/'' @ path @ (if version = [] then [] else ''?versionId='' @ QueryEscape version)]
    \<and> CHR ''?'' \<notin> set path \<and> unescape encodePath path = Some (normalizedPrefix cfg @ cs_Key src)
    \<and> \<not> list_ex dot_segment (Split (normalizedPrefix cfg @ cs_Key src) ''/'')
    \<and> (if cs_VersionID src = [] then version = [] else decodeOpaqueToken (Some cfg) ''version'' (cs_VersionID src) = Inr version)"
  using assms(1-4)
proof (rule planned_request_Inr)
  fix scheme host q h
  assume m: "NormalizeVBucketConfig (Some c) = Inr cfg" and h: "outboundHeaders cfg plan = Inr h" and p: "accepted_plan plan"
    and req: "req = signRequest (unsigned_request scheme host cfg (withAuthorizationContext plan loc t) (values_Encode q) h)
       (RealAccessKey cfg) (RealSecretKey cfg) (RealRegion cfg) now"
  obtain src where src: "p_copySource plan = Some src" "validateVirtualObjectKey (cs_Key src)"
    using p assms(5) by (auto simp: accepted_plan_def)
  have n: "CanonicalHeaderKey copySourceHeader \<notin> {''Authorization'', ''X-Amz-Date'', ''X-Amz-Content-Sha256''}"
    unfolding outbound_names by code_simp
  obtain v where v: "outboundCopySource cfg src = Inr v" "header_Values h copySourceHeader = [v]"
    using outboundHeaders_values(2) [OF p h n outbound_names(4) assms(5) src(1)] by blast
  from v(1) obtain version where version:
    "if cs_VersionID src = [] then version = [] else decodeOpaqueToken (Some cfg) ''version'' (cs_VersionID src) = Inr version"
    "v = buildCopySource (RealBucket cfg) (normalizedPrefix cfg @ cs_Key src) version"
    by (auto simp: outboundCopySource_def res_simps split: if_splits sum.splits)
  let ?path = "escape encodePath (normalizedPrefix cfg @ cs_Key src)"
  have "header_Values (r_Header req) copySourceHeader = [v]"
    unfolding req signed_values_other [OF n] by (simp add: unsigned_request_def v(2))
  moreover have "v = RealBucket cfg @ ''/'' @ ?path @ (if version = [] then [] else ''?versionId='' @ QueryEscape version)"
    unfolding version(2) by (rule buildCopySource_parts [OF bucket_chars(2) [OF mapping_fields(1) [OF m]]])
  moreover have "CHR ''?'' \<notin> set ?path" using escape_path_chars by blast
  moreover have "unescape encodePath ?path = Some (normalizedPrefix cfg @ cs_Key src)" by (rule unescape_escape)
  moreover have "dot_free (normalizedPrefix cfg @ cs_Key src)"
    using prefixed_dot_free [OF mapping_fields(2) [OF m]] src(2) by (simp add: dot_free_def validateVirtualObjectKey_def)
  ultimately show ?thesis using src(1) version(1) unfolding dot_free_def by blast
qed

section \<open>Failures\<close>

definition bad_token :: "VBucketConfig \<Rightarrow> string \<Rightarrow> string \<Rightarrow> bool" where
  "bad_token cfg kind value = (value \<noteq> [] \<and> isl (decodeOpaqueToken (Some cfg) kind value))"

lemma isl_iff: "isl x \<longleftrightarrow> (\<exists>e. x = Inl e)" "\<not> isl x \<longleftrightarrow> (\<exists>v. x = Inr v)"
  by (cases x; simp)+

lemma proxyRequest_failures:
  assumes "plain_text (RealEndpoint c)" "accepted_plan plan" "NormalizeVBucketConfig (Some c) = Inr cfg"
  shows "if \<exists>(name, kind) \<in> set tokenFields. bad_token cfg kind (values_Get (p_query plan) name)
    then proxyRequest (Some c) plan now = Inl (Answer (s3Error 400 ''InvalidArgument'' ''Invalid continuation token''))
    else if p_kind plan = operationCopyObject \<and> bad_token cfg ''version'' (cs_VersionID (the (p_copySource plan)))
    then proxyRequest (Some c) plan now = Inl (Answer (s3Error 400 ''InvalidArgument'' ''Invalid source version token''))
    else \<exists>req. proxyRequest (Some c) plan now = Inr (cfg, req)"
proof -
  let ?q = "prefixed (p_kind plan) (p_query plan) (normalizedPrefix cfg)"
  have m: "p_method plan \<noteq> []" "list_all token_byte (p_method plan)" using assms(2) by (simp_all add: accepted_plan_def)
  have query: "URL_Query (p_rawQuery plan) = p_query plan"
    using assms(2) by (auto simp: accepted_plan_def ParseQuery_def URL_Query_def split: if_splits prod.splits)
  obtain scheme host where "proxyRequest (Some c) plan now =
       (case rewriteValues (p_kind plan) (URL_Query (p_rawQuery plan)) (normalizedPrefix cfg)
            (classifyS3RequestTransform (p_kind plan) = requestTransformListQuery) (Some cfg) of
          Inl _ \<Rightarrow> Inl (Answer (s3Error 400 ''InvalidArgument'' ''Invalid continuation token''))
        | Inr q \<Rightarrow> bindE (outboundHeaders cfg plan) (\<lambda>h. Inr (cfg,
            signRequest (unsigned_request scheme host cfg plan (values_Encode q) h) (RealAccessKey cfg) (RealSecretKey cfg) (RealRegion cfg) now)))"
    using assms(1,3) m by (rule proxyRequest_eq [where now = now])
  note eq = this [unfolded query rewriteValues_eq]
  have get: "values_Get ?q name = values_Get (p_query plan) name" if "(name, kind) \<in> set tokenFields" for name kind
    using that prefixed_token_Get by force
  show ?thesis
  proof (cases "\<exists>(name, kind) \<in> set tokenFields. bad_token cfg kind (values_Get (p_query plan) name)")
    case True
    then obtain name kind e where f: "(name, kind) \<in> set tokenFields" "values_Get ?q name \<noteq> []"
      "decodeOpaqueToken (Some cfg) kind (values_Get ?q name) = Inl e"
      using get by (auto simp: bad_token_def isl_iff)
    have "\<exists>e. decodeFields (Some cfg) tokenFields ?q = Inl e"
    proof (cases "decodeFields (Some cfg) tokenFields ?q")
      case (Inr q)
      from decodeFields_field [OF this field_names(3) f(1)] f(2,3) show ?thesis by simp
    qed simp
    then show ?thesis using True eq by auto
  next
    case False
    then have "\<forall>(name, kind) \<in> set tokenFields. values_Get ?q name \<noteq> [] \<longrightarrow> (\<exists>v. decodeOpaqueToken (Some cfg) kind (values_Get ?q name) = Inr v)"
      using get by (fastforce simp: bad_token_def isl_iff(2) [symmetric])
    from decodeFields_ok [OF this field_names(3)] obtain q where q: "decodeFields (Some cfg) tokenFields ?q = Inr q" by blast
    show ?thesis
    proof (cases "p_kind plan = operationCopyObject")
      case True
      then obtain src where src: "p_copySource plan = Some src" using assms(2) by (auto simp: accepted_plan_def)
      show ?thesis
        unfolding eq q outboundHeaders_eq(2) [OF assms(2) True src] using False True src
        by (cases "decodeOpaqueToken (Some cfg) ''version'' (cs_VersionID src)") (auto simp: bad_token_def outboundCopySource_def)
    next
      case other: False
      then show ?thesis unfolding eq q outboundHeaders_eq(1) [OF assms(2) other] using False by simp
    qed
  qed
qed

text \<open>
  C18. The failures. The construction of an outbound request is total: for a planned operation and a mapping that
  normalizes, it fails only where the client sent a token that the mapping did not issue, and then with
  the answer of status 400 for the query or for the copy source. No nil pointer is dereferenced and no request
  fails to be built.
\<close>

theorem proxy_refuses_only_tokens:
  assumes "plain_text (RealEndpoint c)" "planS3Operation r bucket key = Inr plan" "signable_header (r_Header r)"
    and "NormalizeVBucketConfig (Some c) = Inr cfg"
  shows "if \<exists>(name, kind) \<in> set tokenFields. bad_token cfg kind (values_Get (p_query plan) name)
    then proxyRequest (Some c) (withAuthorizationContext plan loc t) now =
      Inl (Answer (s3Error 400 ''InvalidArgument'' ''Invalid continuation token''))
    else if p_kind plan = operationCopyObject \<and> bad_token cfg ''version'' (cs_VersionID (the (p_copySource plan)))
    then proxyRequest (Some c) (withAuthorizationContext plan loc t) now =
      Inl (Answer (s3Error 400 ''InvalidArgument'' ''Invalid source version token''))
    else \<exists>req. proxyRequest (Some c) (withAuthorizationContext plan loc t) now = Inr (cfg, req)"
  using proxyRequest_failures [OF assms(1) _ assms(4), of "withAuthorizationContext plan loc t" now] planned_is_accepted [OF assms(2,3)]
  unfolding accepted_withAuthorizationContext withAuthorizationContext_keeps by blast

section \<open>Two tenants of one bucket\<close>

definition tenant :: "string \<Rightarrow> VBucketConfig" where
  "tenant prefix = demo_cfg\<lparr>PathPrefix := prefix\<rparr>"

definition tenant_mapping :: "string \<Rightarrow> VBucketConfig" where
  "tenant_mapping prefix = (tenant prefix)\<lparr>routingTokenCodec := Some (codec_of (tenant prefix))\<rparr>"

lemma tenant_normalizes:
  assumes "normalizePrefix prefix = Inr prefix"
  shows "NormalizeVBucketConfig (Some (tenant prefix)) = Inr (tenant_mapping prefix)"
proof -
  have "normalizeEndpoint (RealUsePathStyle demo_cfg) (RealEndpoint demo_cfg) = Inr (RealEndpoint demo_cfg)" by code_simp
  moreover have "TrimSpace (RealBucket demo_cfg) = RealBucket demo_cfg" "TrimSpace (RealRegion demo_cfg) = RealRegion demo_cfg"
    "isValidBucketName (RealBucket demo_cfg)" "accessKeyIDPattern (RealAccessKey demo_cfg)" "printableASCII (RealSecretKey demo_cfg)"
    "backendRegionPattern (RealRegion demo_cfg)" "length (RoutingTokenKey demo_cfg) = 32"
    by code_simp+
  moreover have "routingTokenCodec demo_cfg = None" by (simp add: demo_cfg_def)
  ultimately show ?thesis
    using assms unfolding NormalizeVBucketConfig_def tenant_mapping_def tenant_def by (simp add: ensureCodec_def newOpaqueTokenCipher_def)
qed

definition demo_plan :: S3OperationPlan where
  "demo_plan = projr (planS3Operation demo_copy ''media'' ''to'')"

lemma demo_plan_value:
  "case planS3Operation demo_copy ''media'' ''to'' of Inl _ \<Rightarrow> False
   | Inr p \<Rightarrow> p_kind p = operationCopyObject \<and> p_query p = [(''x-id'', [''CopyObject''])]
       \<and> p_copySource p = Some \<lparr>cs_Bucket = ''media'', cs_Key = ''a b'', cs_VersionID = []\<rparr>"
  by code_simp

lemma demo_planned: "planS3Operation demo_copy ''media'' ''to'' = Inr demo_plan"
  using demo_plan_value by (simp add: demo_plan_def split: sum.splits)

lemma demo_plan_fields: "p_kind demo_plan = operationCopyObject" "p_query demo_plan = [(''x-id'', [''CopyObject''])]"
  "p_copySource demo_plan = Some \<lparr>cs_Bucket = ''media'', cs_Key = ''a b'', cs_VersionID = []\<rparr>"
  using demo_plan_value by (simp_all add: demo_planned)

lemma demo_copy_facts: "signable_header (r_Header demo_copy)"
  "list_all (\<lambda>(name, kind). values_Get [(''x-id'', [''CopyObject''])] name = []) tokenFields"
  "\<not> confined_field operationCopyObject [(''x-id'', [''CopyObject''])] ''x-id''" "''x-id'' \<notin> set (map fst tokenFields)"
  by code_simp+

definition demo_sent :: "string \<Rightarrow> http_request" where
  "demo_sent prefix = snd (projr (proxyRequest (Some (tenant prefix)) (withAuthorizationContext demo_plan [] demo_clock) demo_clock))"

lemma tenant_plain: "plain_text (RealEndpoint (tenant prefix))"
  unfolding tenant_def by (simp add: demo_cfg_def byte_def)

lemma demo_proxied:
  assumes "normalizePrefix prefix = Inr prefix"
  shows "proxyRequest (Some (tenant prefix)) (withAuthorizationContext demo_plan [] demo_clock) demo_clock = Inr (tenant_mapping prefix, demo_sent prefix)"
proof -
  have "accepted_plan (withAuthorizationContext demo_plan [] demo_clock)"
    using planned_is_accepted [OF demo_planned demo_copy_facts(1)] by (simp only: accepted_withAuthorizationContext)
  note f = proxyRequest_failures [OF tenant_plain this tenant_normalizes [OF assms], of demo_clock, unfolded withAuthorizationContext_keeps]
  have "\<not> (\<exists>(name, kind) \<in> set tokenFields. bad_token (tenant_mapping prefix) kind (values_Get (p_query demo_plan) name))"
    using demo_copy_facts(2) unfolding demo_plan_fields by (auto simp: bad_token_def list_all_iff)
  moreover have "\<not> bad_token (tenant_mapping prefix) ''version'' (cs_VersionID (the (p_copySource demo_plan)))"
    by (simp add: bad_token_def demo_plan_fields)
  ultimately obtain req where
    "proxyRequest (Some (tenant prefix)) (withAuthorizationContext demo_plan [] demo_clock) demo_clock = Inr (tenant_mapping prefix, req)"
    using f by auto
  then show ?thesis by (simp add: demo_sent_def)
qed

lemma demo_prefixes: "normalizePrefix ''tenant-a'' = Inr ''tenant-a''" "normalizePrefix ''tenant-ab'' = Inr ''tenant-ab''"
  "normalizedPrefix (tenant_mapping ''tenant-a'') = ''tenant-a/''" "normalizedPrefix (tenant_mapping ''tenant-ab'') = ''tenant-ab/''"
proof -
  show "normalizePrefix ''tenant-a'' = Inr ''tenant-a''" "normalizePrefix ''tenant-ab'' = Inr ''tenant-ab''" by code_simp+
  have "TrimSuffix ''tenant-a'' ''/'' = ''tenant-a''" "TrimSuffix ''tenant-ab'' ''/'' = ''tenant-ab''" by code_simp+
  moreover have "PathPrefix (tenant_mapping p) = p" for p by (simp add: tenant_mapping_def tenant_def)
  ultimately show "normalizedPrefix (tenant_mapping ''tenant-a'') = ''tenant-a/''" "normalizedPrefix (tenant_mapping ''tenant-ab'') = ''tenant-ab/''"
    by (simp_all add: normalizedPrefix_def)
qed

lemmas demo_a = tenant_plain demo_planned demo_copy_facts(1) demo_proxied [OF demo_prefixes(1)]
lemmas demo_ab = tenant_plain demo_planned demo_copy_facts(1) demo_proxied [OF demo_prefixes(2)]

lemma tenant_fields: "RealBucket (tenant_mapping p) = ''origin''" "RealUsePathStyle (tenant_mapping p)" "RealAccessKey (tenant p) = ''AK''"
  "RealSecretKey (tenant p) = ''SK''"
  by (simp_all add: tenant_mapping_def tenant_def demo_cfg_def)

theorem outbound_request_is_confined_witness:
  "r_Method (demo_sent ''tenant-a'') = ''PUT''
   \<and> unescape encodePath (EscapedPath (r_URL (demo_sent ''tenant-a''))) = Some ''/origin/tenant-a/to''"
  using outbound_request_is_confined [OF demo_a] demo_prefixes(3) by (simp add: tenant_fields demo_copy_def)

theorem outbound_query_is_confined_witness:
  "\<exists>q. ParseQuery (u_RawQuery (r_URL (demo_sent ''tenant-a''))) = Some q \<and> map_of q ''x-id'' = Some [''CopyObject'']"
proof -
  obtain q where q: "ParseQuery (u_RawQuery (r_URL (demo_sent ''tenant-a''))) = Some q"
    "if normalizedPrefix (tenant_mapping ''tenant-a'') \<noteq> [] \<and> confined_field (p_kind demo_plan) (p_query demo_plan) ''x-id''
     then map_of q ''x-id'' = Some [normalizedPrefix (tenant_mapping ''tenant-a'') @ values_Get (p_query demo_plan) ''x-id'']
     else if ''x-id'' \<in> set (map fst tokenFields) \<and> values_Get (p_query demo_plan) ''x-id'' \<noteq> []
     then \<exists>v. decodeOpaqueToken (Some (tenant_mapping ''tenant-a'')) (the (map_of tokenFields ''x-id'')) (values_Get (p_query demo_plan) ''x-id'') = Inr v
       \<and> map_of q ''x-id'' = Some [v]
     else map_of q ''x-id'' = map_of (p_query demo_plan) ''x-id''"
    using outbound_query_is_confined [OF demo_a] by blast
  then show ?thesis using demo_copy_facts(3,4) unfolding demo_plan_fields by (simp only: if_False simp_thms) simp
qed

theorem disjoint_prefixes_never_meet_witness:
  "EscapedPath (r_URL (demo_sent ''tenant-a'')) \<noteq> EscapedPath (r_URL (demo_sent ''tenant-ab''))"
proof (rule disjoint_prefixes_never_meet [OF demo_a demo_ab])
  show "\<not> HasPrefix (normalizedPrefix (tenant_mapping ''tenant-a'')) (normalizedPrefix (tenant_mapping ''tenant-ab''))"
    "\<not> HasPrefix (normalizedPrefix (tenant_mapping ''tenant-ab'')) (normalizedPrefix (tenant_mapping ''tenant-a''))"
    unfolding demo_prefixes by code_simp+
qed (simp_all add: tenant_fields)

theorem outbound_request_verifies_witness:
  "\<exists>v ai. header_Values (r_Header (demo_sent ''tenant-a'')) ''Authorization'' = [v] \<and> parseAuthorizationHeader v = Some ai
    \<and> ai_AccessKeyID ai = ''AK'' \<and> verifySignatureAtTime (demo_sent ''tenant-a'') (Some ai) ''SK'' demo_clock 900000000000 = Inr ()"
  using outbound_request_verifies [OF demo_a demo_signable(3) demo_skew(1)] unfolding tenant_fields by blast

theorem outbound_headers_are_safe_witness:
  "header_Values (r_Header (demo_sent ''tenant-a'')) ''x-amz-acl'' = [''private'']"
proof -
  have "CanonicalHeaderKey ''x-amz-acl'' \<notin> {''Authorization'', ''X-Amz-Date'', ''X-Amz-Content-Sha256'', ''X-Amz-Copy-Source''}"
    "safeOutboundRequestHeader (CanonicalHeaderKey ''x-amz-acl'') operationCopyObject"
    "header_Values (r_Header demo_copy) ''x-amz-acl'' = [''private'']" by code_simp+
  then show ?thesis using outbound_headers_are_safe [OF demo_a, of "''x-amz-acl''"] by (simp add: demo_plan_fields)
qed

theorem outbound_copy_source_is_confined_witness:
  "\<exists>path. header_Values (r_Header (demo_sent ''tenant-a'')) copySourceHeader = [''origin/'' @ path]
    \<and> unescape encodePath path = Some ''tenant-a/a b''"
  using outbound_copy_source_is_confined [OF demo_a demo_plan_fields(1)] unfolding demo_plan_fields(3) demo_prefixes(3) tenant_fields
  by auto

theorem proxy_refuses_only_tokens_witness:
  "\<exists>req. proxyRequest (Some (tenant ''tenant-a'')) (withAuthorizationContext demo_plan [] demo_clock) demo_clock = Inr (tenant_mapping ''tenant-a'', req)"
  using proxy_refuses_only_tokens [OF demo_a(1-3) tenant_normalizes [OF demo_prefixes(1)], of "[]" demo_clock demo_clock] demo_copy_facts(2)
  unfolding demo_plan_fields by (auto simp: bad_token_def list_all_iff split: if_splits)

end
