(* ===== verification/Go_XML.thy ===== *)
theory Go_XML
  imports Go_Strings
begin

text \<open>
  The use of \<^verbatim>\<open>encoding/xml\<close>. A decoder is what it still delivers: the tokens, in the order in which
  \<^verbatim>\<open>Token\<close> returns them, and whether it then ends with \<^verbatim>\<open>io.EOF\<close> or with an error. How bytes become
  tokens is an argument of the program's model: a function from a reader to a decoder. \<^verbatim>\<open>Skip\<close>, \<^verbatim>\<open>Unmarshal\<close> into a structure with at most one field of text, and the
  encoder are functions on tokens.
\<close>

text \<open>
  A reader delivers its bytes and then ends or fails. \<^verbatim>\<open>io.ReadAll\<close> behind a limit of one byte more than allowed
  does not see a failure that comes after the limit, and then the text is too large.
\<close>

record io_reader =
  b_data :: string
  b_fails :: bool

definition bytes_reader :: "string \<Rightarrow> io_reader" where
  "bytes_reader data = \<lparr>b_data = data, b_fails = False\<rparr>"

definition LimitReader :: "nat \<Rightarrow> io_reader \<Rightarrow> io_reader" where
  "LimitReader n r = \<lparr>b_data = take n (b_data r), b_fails = (b_fails r \<and> length (b_data r) < n)\<rparr>"

definition ReadAll :: "io_reader \<Rightarrow> string option" where
  "ReadAll r = (if b_fails r then None else Some (b_data r))"

definition readBounded :: "nat \<Rightarrow> io_reader \<Rightarrow> string option" where
  "readBounded limit r =
     (case ReadAll (LimitReader (limit + 1) r) of
        None \<Rightarrow> None
      | Some data \<Rightarrow> if limit < length data then None else Some data)"

lemma readBounded_eq: "readBounded limit r = (if limit < length (b_data r) \<or> b_fails r then None else Some (b_data r))"
  by (auto simp: readBounded_def ReadAll_def LimitReader_def min_def)

section \<open>Tokens\<close>

record xml_name =
  n_Space :: string
  n_Local :: string

record xml_attr =
  a_Name :: xml_name
  a_Value :: string

datatype xml_token =
    StartElement xml_name "xml_attr list"
  | EndElement xml_name
  | CharData string
  | Comment string
  | Directive string
  | ProcInst string string

record xml_decoder =
  d_tokens :: "xml_token list"
  d_eof :: bool

section \<open>Reading\<close>

text \<open>\<^verbatim>\<open>Skip\<close>: the tokens after the end of the element that is open; none if the tokens end before.\<close>

fun Skip :: "nat \<Rightarrow> xml_token list \<Rightarrow> xml_token list option" where
  "Skip depth [] = None"
| "Skip depth (StartElement _ _ # ts) = Skip (Suc depth) ts"
| "Skip depth (EndElement _ # ts) = (if depth = 0 then Some ts else Skip (depth - 1) ts)"
| "Skip depth (_ # ts) = Skip depth ts"

lemma Skip_length: "Skip depth ts = Some rest \<Longrightarrow> length rest < length ts"
  by (induction depth ts rule: Skip.induct) (auto split: if_splits)

text \<open>The text of the element that is open: its own character data, without that of its children.\<close>

fun element_text :: "nat \<Rightarrow> string \<Rightarrow> xml_token list \<Rightarrow> (string \<times> xml_token list) option" where
  "element_text depth acc [] = None"
| "element_text depth acc (StartElement _ _ # ts) = element_text (Suc depth) acc ts"
| "element_text depth acc (EndElement _ # ts) = (if depth = 0 then Some (acc, ts) else element_text (depth - 1) acc ts)"
| "element_text depth acc (CharData s # ts) = element_text depth (if depth = 0 then acc @ s else acc) ts"
| "element_text depth acc (_ # ts) = element_text depth acc ts"

lemma element_text_length: "element_text depth acc ts = Some (s, rest) \<Longrightarrow> length rest < length ts"
  by (induction depth acc ts rule: element_text.induct) (auto split: if_splits)

text \<open>The fields of the element that is open: the last child with the name of the field gives its text, other children are skipped.\<close>

function unmarshal_field :: "string option \<Rightarrow> string \<Rightarrow> xml_token list \<Rightarrow> string option" where
  "unmarshal_field field value [] = None"
| "unmarshal_field field value (StartElement n _ # ts) =
     (if field = Some (n_Local n)
      then (case element_text 0 [] ts of None \<Rightarrow> None | Some (acc, rest) \<Rightarrow> unmarshal_field field acc rest)
      else (case Skip 0 ts of None \<Rightarrow> None | Some rest \<Rightarrow> unmarshal_field field value rest))"
| "unmarshal_field field value (EndElement _ # ts) = Some value"
| "unmarshal_field field value (CharData _ # ts) = unmarshal_field field value ts"
| "unmarshal_field field value (Comment _ # ts) = unmarshal_field field value ts"
| "unmarshal_field field value (Directive _ # ts) = unmarshal_field field value ts"
| "unmarshal_field field value (ProcInst _ _ # ts) = unmarshal_field field value ts"
  by pat_completeness auto

termination
  by (relation "measure (\<lambda>(_, _, ts). length ts)") (auto dest: Skip_length element_text_length)

text \<open>
  \<^verbatim>\<open>Unmarshal\<close>: the first element is the root. Its name must be the one the structure demands, if it demands one. What
  follows the root is not read.
\<close>

fun Unmarshal :: "string option \<Rightarrow> string option \<Rightarrow> xml_token list \<Rightarrow> (xml_name \<times> string) option" where
  "Unmarshal root field [] = None"
| "Unmarshal root field (StartElement n _ # ts) =
     (case root of
        Some r \<Rightarrow> if n_Local n = r then map_option (Pair n) (unmarshal_field field [] ts) else None
      | None \<Rightarrow> map_option (Pair n) (unmarshal_field field [] ts))"
| "Unmarshal root field (EndElement _ # ts) = Unmarshal root field ts"
| "Unmarshal root field (CharData _ # ts) = Unmarshal root field ts"
| "Unmarshal root field (Comment _ # ts) = Unmarshal root field ts"
| "Unmarshal root field (Directive _ # ts) = Unmarshal root field ts"
| "Unmarshal root field (ProcInst _ _ # ts) = Unmarshal root field ts"

section \<open>Writing\<close>

text \<open>
  The encoder: the tokens written, last first, and the names of the open elements. It refuses an element without a name
  and an end that does not match the element that is open. Comments, directives and instructions, which the program never writes, are written without the checks of their text.
\<close>

record xml_encoder =
  w_out :: "xml_token list"
  w_tags :: "xml_name list"

definition NewEncoder :: xml_encoder where
  "NewEncoder = \<lparr>w_out = [], w_tags = []\<rparr>"

fun EncodeToken :: "xml_token \<Rightarrow> xml_encoder \<Rightarrow> xml_encoder option" where
  "EncodeToken (StartElement n as) e =
     (if n_Local n = [] then None else Some \<lparr>w_out = StartElement n as # w_out e, w_tags = n # w_tags e\<rparr>)"
| "EncodeToken (EndElement n) e =
     (if n_Local n = [] then None
      else case w_tags e of
        [] \<Rightarrow> None
      | innermost # tags \<Rightarrow> if innermost = n then Some \<lparr>w_out = EndElement n # w_out e, w_tags = tags\<rparr> else None)"
| "EncodeToken (CharData s) e = Some (e\<lparr>w_out := CharData s # w_out e\<rparr>)"
| "EncodeToken t e = Some (e\<lparr>w_out := t # w_out e\<rparr>)"

text \<open>
  The attributes that the encoder writes without a prefix into a start tag: one for the name space of the element, if it has one, and
  those of the token that have a name and no name space of their own.
\<close>

definition written_attributes :: "xml_name \<Rightarrow> xml_attr list \<Rightarrow> (string \<times> string) list" where
  "written_attributes n as =
     (if n_Space n = [] then [] else [(''xmlns'', n_Space n)])
     @ map (\<lambda>a. (n_Local (a_Name a), a_Value a)) (filter (\<lambda>a. n_Local (a_Name a) \<noteq> [] \<and> n_Space (a_Name a) = []) as)"

section \<open>Positions\<close>

text \<open>The path of names at which a token stands, and the path after some tokens.\<close>

fun place :: "string list \<Rightarrow> xml_token list \<Rightarrow> string list" where
  "place st [] = st"
| "place st (StartElement n _ # ts) = place (st @ [n_Local n]) ts"
| "place st (EndElement _ # ts) = place (butlast st) ts"
| "place st (CharData _ # ts) = place st ts"
| "place st (Comment _ # ts) = place st ts"
| "place st (Directive _ # ts) = place st ts"
| "place st (ProcInst _ _ # ts) = place st ts"

definition own_place :: "string list \<Rightarrow> xml_token \<Rightarrow> string list" where
  "own_place st t = (case t of StartElement n _ \<Rightarrow> st @ [n_Local n] | _ \<Rightarrow> st)"

fun located :: "string list \<Rightarrow> xml_token list \<Rightarrow> (string list \<times> xml_token) list" where
  "located st [] = []"
| "located st (t # ts) = (own_place st t, t) # located (place st [t]) ts"

lemma place_Cons: "place st (t # ts) = place (place st [t]) ts"
  by (cases t) simp_all

lemma place_append: "place st (xs @ ys) = place (place st xs) ys"
  by (induction xs arbitrary: st) (simp, metis append_Cons place_Cons)

lemma located_append: "located st (xs @ ys) = located st xs @ located (place st xs) ys"
  by (induction xs arbitrary: st) (simp, metis append_Cons located.simps(2) place_Cons)

end
