(* ===== verification/Cache.thy ===== *)
theory Cache
  imports Go_Float "HOL-Library.AList"
begin

text \<open>
  \<^verbatim>\<open>controlplane/cache.go\<close>: the bounded cache with expiry and least-recently-used
  eviction, and the admission control of cache misses.
  The Go map of a cache is an association list with distinct keys and its
  \<^verbatim>\<open>container/list\<close> is the list of its keys, the most recently used one first. A time and a
  duration are numbers of nanoseconds; the clock \<^verbatim>\<open>now\<close> is an argument. The
  callback \<^verbatim>\<open>onEvict\<close> counts evictions.
\<close>

section \<open>The cache\<close>

type_synonym time = int
type_synonym duration = int

record 'v timedEntry =
  te_value :: 'v
  te_expiresAt :: time

record ('k, 'v) localCache =
  lc_entries :: "('k \<times> 'v timedEntry) list"
  lc_order :: "'k list"
  lc_maximum :: int
  lc_evictions :: nat

definition newLocalCache :: "int \<Rightarrow> ('k, 'v) localCache" where
  "newLocalCache mx =
     \<lparr>lc_entries = [], lc_order = [], lc_maximum = (if mx < 1 then 1 else mx), lc_evictions = 0\<rparr>"

definition list_Remove :: "'k \<Rightarrow> 'k list \<Rightarrow> 'k list" where
  "list_Remove k xs = remove1 k xs"

definition list_MoveToFront :: "'k \<Rightarrow> 'k list \<Rightarrow> 'k list" where
  "list_MoveToFront k xs = k # remove1 k xs"

definition GetIfPresent :: "time \<Rightarrow> ('k, 'v) localCache \<Rightarrow> 'k \<Rightarrow> 'v option \<times> ('k, 'v) localCache" where
  "GetIfPresent now c key =
     (case map_of (lc_entries c) key of
        None \<Rightarrow> (None, c)
      | Some e \<Rightarrow>
          if \<not> te_expiresAt e > now
          then (None, c\<lparr>lc_order := list_Remove key (lc_order c), lc_entries := AList.delete key (lc_entries c)\<rparr>)
          else (Some (te_value e), c\<lparr>lc_order := list_MoveToFront key (lc_order c)\<rparr>))"

definition cache_Set :: "time \<Rightarrow> ('k, 'v) localCache \<Rightarrow> 'k \<Rightarrow> 'v \<Rightarrow> duration \<Rightarrow> ('k, 'v) localCache" where
  "cache_Set now c key v ttl =
     (if ttl \<le> 0 then c
      else case map_of (lc_entries c) key of
        Some e \<Rightarrow>
          c\<lparr>lc_order := list_MoveToFront key (lc_order c),
            lc_entries := AList.update key (e\<lparr>te_value := v, te_expiresAt := now + ttl\<rparr>) (lc_entries c)\<rparr>
      | None \<Rightarrow>
          (let order = key # lc_order c;
               entries = AList.update key \<lparr>te_value = v, te_expiresAt = now + ttl\<rparr> (lc_entries c)
           in if int (length entries) \<le> lc_maximum c then c\<lparr>lc_order := order, lc_entries := entries\<rparr>
              else (let oldest = last order
                    in c\<lparr>lc_order := butlast order, lc_entries := AList.delete oldest entries,
                         lc_evictions := lc_evictions c + 1\<rparr>)))"

definition Invalidate :: "('k, 'v) localCache \<Rightarrow> 'k \<Rightarrow> ('k, 'v) localCache" where
  "Invalidate c key =
     (let order = (case map_of (lc_entries c) key of
                     None \<Rightarrow> lc_order c | Some e \<Rightarrow> list_Remove key (lc_order c))
      in c\<lparr>lc_order := order, lc_entries := AList.delete key (lc_entries c)\<rparr>)"

definition InvalidateAll :: "('k, 'v) localCache \<Rightarrow> ('k, 'v) localCache" where
  "InvalidateAll c = c\<lparr>lc_entries := [], lc_order := []\<rparr>"

definition cache_Len :: "('k, 'v) localCache \<Rightarrow> nat" where
  "cache_Len c = length (lc_entries c)"

definition vbucketCacheKey :: "string \<Rightarrow> string \<Rightarrow> string" where
  "vbucketCacheKey accessKeyID bucketName = accessKeyID @ ''/'' @ bucketName"

section \<open>Admission of cache misses\<close>

text \<open>
  A token bucket with a bound on the loads in flight. The tokens are float64 numbers: every
  operation rounds its exact result. A sum beyond the largest float64, where Go has an
  infinity, stands as a number above all of them; the minimum with the burst removes it.
\<close>

definition fl :: "rat \<Rightarrow> rat" where
  "fl q =
     (let r = (case round_float64 \<bar>q\<bar> of None \<Rightarrow> pow2 1024 | Some x \<Rightarrow> x)
      in if q < 0 then - r else r)"

definition Seconds :: "duration \<Rightarrow> rat" where
  "Seconds d =
     (let sec = (if 0 \<le> d then d div 1000000000 else - (- d div 1000000000));
          nsec = d - sec * 1000000000
      in fl (fl (of_int sec) + fl (of_int nsec / 1000000000)))"

record missAdmission =
  ma_rate :: rat
  ma_burst :: rat
  ma_tokens :: rat
  ma_last :: time
  ma_inflight :: nat
  ma_capacity :: nat

definition newMissAdmission :: "rat \<Rightarrow> int \<Rightarrow> nat \<Rightarrow> time \<Rightarrow> missAdmission" where
  "newMissAdmission rate burst inflight now =
     \<lparr>ma_rate = rate, ma_burst = fl (of_int burst), ma_tokens = fl (of_int burst), ma_last = now,
      ma_inflight = 0, ma_capacity = inflight\<rparr>"

text \<open>A token is spent even when the bound on the loads in flight then refuses the load.\<close>

definition acquire :: "missAdmission \<Rightarrow> time \<Rightarrow> bool \<times> missAdmission" where
  "acquire a now =
     (let elapsed = Seconds (now - ma_last a);
          tokens = min (ma_burst a) (fl (ma_tokens a + fl (elapsed * ma_rate a)));
          a1 = a\<lparr>ma_last := now, ma_tokens := tokens\<rparr>
      in if tokens < 1 then (False, a1)
         else (let a2 = a1\<lparr>ma_tokens := fl (tokens - 1)\<rparr>
               in if ma_inflight a2 < ma_capacity a2
                  then (True, a2\<lparr>ma_inflight := ma_inflight a2 + 1\<rparr>)
                  else (False, a2)))"

definition release :: "missAdmission \<Rightarrow> missAdmission" where
  "release a = a\<lparr>ma_inflight := ma_inflight a - 1\<rparr>"

section \<open>The interface of a cache\<close>

text \<open>
  What a user of a cache may rely on. \<open>live c now k\<close> is the value that a lookup of
  \<open>k\<close> at \<open>now\<close> finds. A lookup changes nothing that a later lookup can see; a stored
  value is found until it expires; storing and invalidating a key never makes up values for
  other keys, though storing may lose some of them; the number of entries stays within the bound.
\<close>

locale lossy_cache =
  fixes valid :: "'c \<Rightarrow> bool"
    and live :: "'c \<Rightarrow> time \<Rightarrow> 'k \<Rightarrow> 'v option"
    and get :: "time \<Rightarrow> 'c \<Rightarrow> 'k \<Rightarrow> 'v option \<times> 'c"
    and put :: "time \<Rightarrow> 'c \<Rightarrow> 'k \<Rightarrow> 'v \<Rightarrow> duration \<Rightarrow> 'c"
    and drop_key :: "'c \<Rightarrow> 'k \<Rightarrow> 'c"
    and drop_all :: "'c \<Rightarrow> 'c"
    and count :: "'c \<Rightarrow> nat"
    and bound :: "'c \<Rightarrow> nat"
  assumes valid_get: "valid c \<Longrightarrow> valid (snd (get now c k))"
    and valid_put: "valid c \<Longrightarrow> valid (put now c k v ttl)"
    and valid_drop_key: "valid c \<Longrightarrow> valid (drop_key c k)"
    and valid_drop_all: "valid c \<Longrightarrow> valid (drop_all c)"
    and get_result: "fst (get now c k) = live c now k"
    and live_get: "valid c \<Longrightarrow> now \<le> t \<Longrightarrow> live (snd (get now c k)) t k' = live c t k'"
    and get_miss: "valid c \<Longrightarrow> fst (get now c k) = None \<Longrightarrow> live (snd (get now c k)) t k = None"
    and live_get_sub: "valid c \<Longrightarrow> live (snd (get now c k)) t k' = Some v \<Longrightarrow> live c t k' = Some v"
    and live_put_same: "valid c \<Longrightarrow> 0 < ttl \<Longrightarrow> live (put now c k v ttl) t k = (if t < now + ttl then Some v else None)"
    and live_put_other: "valid c \<Longrightarrow> k' \<noteq> k \<Longrightarrow> live (put now c k v ttl) t k' = Some v' \<Longrightarrow> live c t k' = Some v'"
    and put_nothing: "ttl \<le> 0 \<Longrightarrow> put now c k v ttl = c"
    and live_drop_key: "valid c \<Longrightarrow> live (drop_key c k) t k' = (if k' = k then None else live c t k')"
    and live_drop_all: "live (drop_all c) t k' = None"
    and live_mono: "live c t k = Some v \<Longrightarrow> t' \<le> t \<Longrightarrow> live c t' k = Some v"
    and count_bound: "valid c \<Longrightarrow> count c \<le> bound c"
    and bound_get: "bound (snd (get now c k)) = bound c"
    and bound_put: "bound (put now c k v ttl) = bound c"
begin

text \<open>
  A cache is coherent with a predicate on keys and values when every value that some lookup
  can find satisfies it. Every operation keeps coherence, a store if the stored value is right.
\<close>

definition coherent :: "('k \<Rightarrow> 'v \<Rightarrow> bool) \<Rightarrow> 'c \<Rightarrow> bool" where
  "coherent P c = (valid c \<and> (\<forall>t k v. live c t k = Some v \<longrightarrow> P k v))"

lemma coherentD: "coherent P c \<Longrightarrow> live c t k = Some v \<Longrightarrow> P k v"
  by (simp add: coherent_def)

lemma coherent_get_result: "coherent P c \<Longrightarrow> fst (get now c k) = Some v \<Longrightarrow> P k v"
  by (auto simp: get_result dest: coherentD)

lemma coherent_get: "coherent P c \<Longrightarrow> coherent P (snd (get now c k))"
  by (auto simp: coherent_def valid_get dest: live_get_sub)

lemma coherent_put: "coherent P c \<Longrightarrow> P k v \<Longrightarrow> coherent P (put now c k v ttl)"
proof (cases "0 < ttl")
  case True
  assume c: "coherent P c" and v: "P k v"
  have "P k' v'" if "live (put now c k v ttl) t k' = Some v'" for t k' v'
  proof (cases "k' = k")
    case True
    with that c v \<open>0 < ttl\<close> show ?thesis
      by (auto simp: live_put_same coherent_def split: if_splits)
  next
    case False
    with that c have "live c t k' = Some v'"
      by (auto simp: coherent_def dest: live_put_other)
    with c show ?thesis by (rule coherentD)
  qed
  with c show ?thesis by (auto simp: coherent_def valid_put)
next
  case False
  then have "put now c k v ttl = c" by (simp add: put_nothing)
  then show "coherent P c \<Longrightarrow> coherent P (put now c k v ttl)" by simp
qed

lemma coherent_drop_all: "valid c \<Longrightarrow> coherent P (drop_all c)"
  by (simp add: coherent_def live_drop_all valid_drop_all)

text \<open>Once the values of a key are dropped, the predicate may change for that key.\<close>

lemma coherent_drop_key:
  assumes "coherent P c" and "\<And>k' v. k' \<noteq> k \<Longrightarrow> P k' v \<Longrightarrow> Q k' v"
  shows "coherent Q (drop_key c k)"
  using assms by (auto simp: coherent_def live_drop_key valid_drop_key)

lemma coherent_change:
  assumes "coherent P c" and "\<And>k' v. k' \<noteq> k \<Longrightarrow> P k' v \<Longrightarrow> Q k' v"
    and "\<And>t. live c t k = None"
  shows "coherent Q c"
proof -
  have "Q k' v" if "live c t k' = Some v" for t k' v
    using that assms by (cases "k' = k") (auto dest: coherentD)
  with assms(1) show ?thesis by (auto simp: coherent_def)
qed

lemma coherent_replace:
  assumes "coherent P c" and "\<And>k' v. k' \<noteq> k \<Longrightarrow> P k' v \<Longrightarrow> Q k' v" and "Q k v" and "0 < ttl"
  shows "coherent Q (put now c k v ttl)"
proof -
  have "Q k' v'" if "live (put now c k v ttl) t k' = Some v'" for t k' v'
  proof (cases "k' = k")
    case True
    with that assms show ?thesis by (auto simp: live_put_same coherent_def split: if_splits)
  next
    case False
    with that assms(1) have "live c t k' = Some v'"
      by (auto simp: coherent_def dest: live_put_other)
    with False assms(1,2) show ?thesis by (auto dest: coherentD)
  qed
  with assms(1) show ?thesis by (auto simp: coherent_def valid_put)
qed

end

section \<open>The cache of the program implements the interface\<close>

text \<open>
  The invariant: the map and the list hold the same keys, each once, and no more of them
  than the bound.
\<close>

definition wf_cache :: "('k, 'v) localCache \<Rightarrow> bool" where
  "wf_cache c =
     (distinct (lc_order c) \<and> distinct (keys (lc_entries c))
      \<and> set (lc_order c) = set (keys (lc_entries c))
      \<and> 1 \<le> lc_maximum c \<and> int (length (lc_entries c)) \<le> lc_maximum c)"

definition entry_live :: "('k, 'v) localCache \<Rightarrow> time \<Rightarrow> 'k \<Rightarrow> 'v option" where
  "entry_live c t k =
     (case map_of (lc_entries c) k of
        None \<Rightarrow> None | Some e \<Rightarrow> if t < te_expiresAt e then Some (te_value e) else None)"

lemma distinct_keys_update: "distinct (keys m) \<Longrightarrow> distinct (keys (AList.update k v m))"
  by (simp add: keys_def distinct_update)

lemma distinct_keys_delete: "distinct (keys m) \<Longrightarrow> distinct (keys (AList.delete k m))"
  by (simp add: keys_def distinct_delete)

lemma set_keys_update: "set (keys (AList.update k v m)) = insert k (set (keys m))"
  by (simp add: keys_def dom_update)

lemma set_keys_delete: "set (keys (AList.delete k m)) = set (keys m) - {k}"
  by (auto simp: keys_def delete_keys)

lemma length_update_old: "map_of m k = Some e \<Longrightarrow> length (AList.update k v m) = length m"
  by (induction m) (auto split: if_splits)

lemma length_update_new: "map_of m k = None \<Longrightarrow> length (AList.update k v m) = Suc (length m)"
  by (induction m) (auto split: if_splits)

lemma length_delete_le: "length (AList.delete k m) \<le> length m"
  by (simp add: AList.delete_eq)

lemma length_delete_present:
  "distinct (keys m) \<Longrightarrow> k \<in> set (keys m) \<Longrightarrow> Suc (length (AList.delete k m)) = length m"
proof (induction m)
  case (Cons kv m)
  show ?case
  proof (cases "fst kv = k")
    case True
    with Cons.prems have "k \<notin> set (keys m)" by (cases kv) simp
    then have "AList.delete k m = m"
      by (force simp: AList.delete_eq keys_def filter_id_conv)
    with True show ?thesis by (cases kv) simp
  next
    case False
    with Cons show ?thesis by (cases kv) simp
  qed
qed simp

lemmas alist_facts =
  distinct_keys_update distinct_keys_delete set_keys_update set_keys_delete
  length_update_old length_update_new

lemma in_keys_of_map: "map_of m k = Some e \<Longrightarrow> k \<in> set (keys m)"
  by (rule map_of_in_keys)

lemma wf_new: "wf_cache (newLocalCache mx)"
  by (simp add: wf_cache_def newLocalCache_def)

lemma wf_GetIfPresent:
  assumes "wf_cache c" shows "wf_cache (snd (GetIfPresent now c k))"
proof (cases "map_of (lc_entries c) k")
  case (Some e)
  have "k \<in> set (keys (lc_entries c))" using Some by (rule map_of_in_keys)
  with assms Some length_delete_le [of k "lc_entries c"] show ?thesis
    by (auto simp: wf_cache_def GetIfPresent_def list_Remove_def list_MoveToFront_def
        distinct_keys_delete set_keys_delete)
qed (use assms in \<open>simp add: GetIfPresent_def\<close>)

lemma wf_Invalidate:
  assumes "wf_cache c" shows "wf_cache (Invalidate c k)"
proof (cases "map_of (lc_entries c) k")
  case None
  then have "k \<notin> set (keys (lc_entries c))" by (simp add: map_of_None_keys)
  with assms None length_delete_le [of k "lc_entries c"] show ?thesis
    by (auto simp: wf_cache_def Invalidate_def distinct_keys_delete set_keys_delete)
next
  case (Some e)
  with assms length_delete_le [of k "lc_entries c"] show ?thesis
    by (auto simp: wf_cache_def Invalidate_def list_Remove_def distinct_keys_delete set_keys_delete)
qed

lemma wf_InvalidateAll: "wf_cache c \<Longrightarrow> wf_cache (InvalidateAll c)"
  by (simp add: wf_cache_def InvalidateAll_def)

lemma distinct_butlast_set: "distinct xs \<Longrightarrow> xs \<noteq> [] \<Longrightarrow> set (butlast xs) = set xs - {last xs}"
  by (induction xs rule: rev_induct) auto

text \<open>The two shapes of a store of a new key: there is room, or the oldest key goes.\<close>

lemma cache_Set_room:
  assumes "0 < ttl" "map_of (lc_entries c) k = None" "int (length (lc_entries c)) < lc_maximum c"
  shows "cache_Set now c k v ttl =
    c\<lparr>lc_order := k # lc_order c,
      lc_entries := AList.update k \<lparr>te_value = v, te_expiresAt = now + ttl\<rparr> (lc_entries c)\<rparr>"
  using assms by (simp add: cache_Set_def Let_def length_update_new)

lemma cache_Set_full:
  assumes "0 < ttl" "map_of (lc_entries c) k = None" "lc_maximum c \<le> int (length (lc_entries c))"
  shows "cache_Set now c k v ttl =
    c\<lparr>lc_order := butlast (k # lc_order c),
      lc_entries := AList.delete (last (k # lc_order c))
        (AList.update k \<lparr>te_value = v, te_expiresAt = now + ttl\<rparr> (lc_entries c)),
      lc_evictions := lc_evictions c + 1\<rparr>"
  using assms by (simp add: cache_Set_def Let_def length_update_new)

lemma cache_Set_old:
  assumes "0 < ttl" "map_of (lc_entries c) k = Some e"
  shows "cache_Set now c k v ttl =
    c\<lparr>lc_order := list_MoveToFront k (lc_order c),
      lc_entries := AList.update k (e\<lparr>te_value := v, te_expiresAt := now + ttl\<rparr>) (lc_entries c)\<rparr>"
  using assms by (simp add: cache_Set_def)

lemma cache_Set_cases [case_names nothing old room full]:
  fixes ttl :: duration
  assumes "ttl \<le> 0 \<Longrightarrow> P"
    and "\<And>e. 0 < ttl \<Longrightarrow> map_of (lc_entries c) k = Some e \<Longrightarrow> P"
    and "0 < ttl \<Longrightarrow> map_of (lc_entries c) k = None \<Longrightarrow> int (length (lc_entries c)) < lc_maximum c \<Longrightarrow> P"
    and "0 < ttl \<Longrightarrow> map_of (lc_entries c) k = None \<Longrightarrow> lc_maximum c \<le> int (length (lc_entries c)) \<Longrightarrow> P"
  shows P
proof (cases "map_of (lc_entries c) k")
  case None
  with assms(1,3,4) show P
    by (cases "ttl \<le> 0"; cases "lc_maximum c \<le> int (length (lc_entries c))") auto
next
  case (Some e)
  with assms(1,2) show P by (meson linorder_not_le)
qed

text \<open>A full cache has a key to evict other than the one being stored.\<close>

lemma full_order:
  assumes "wf_cache c" "lc_maximum c \<le> int (length (lc_entries c))"
  shows "lc_order c \<noteq> []"
proof -
  have "lc_entries c \<noteq> []" using assms by (auto simp: wf_cache_def)
  then have "set (keys (lc_entries c)) \<noteq> {}" by (simp add: keys_def)
  with assms(1) show ?thesis by (auto simp: wf_cache_def)
qed

lemma wf_Set:
  assumes "wf_cache c" shows "wf_cache (cache_Set now c k v ttl)"
proof (cases rule: cache_Set_cases [where c = c and k = k and ttl = ttl])
  case nothing
  with assms show ?thesis by (simp add: cache_Set_def)
next
  case (old e)
  have "k \<in> set (keys (lc_entries c))" using old(2) by (rule map_of_in_keys)
  with assms old show ?thesis
    by (auto simp: wf_cache_def cache_Set_old list_MoveToFront_def alist_facts)
next
  case room
  then have "k \<notin> set (keys (lc_entries c))" by (simp add: map_of_None_keys)
  with assms room show ?thesis
    by (auto simp: wf_cache_def cache_Set_room alist_facts)
next
  case full
  then have new: "k \<notin> set (keys (lc_entries c))" by (simp add: map_of_None_keys)
  let ?m = "AList.update k \<lparr>te_value = v, te_expiresAt = now + ttl\<rparr> (lc_entries c)"
  have ne: "lc_order c \<noteq> []" using assms full(3) by (rule full_order)
  have "distinct (keys ?m)" using assms by (simp add: wf_cache_def distinct_keys_update)
  moreover have "last (k # lc_order c) \<in> set (keys ?m)"
    using assms ne last_in_set [OF ne] by (simp add: wf_cache_def set_keys_update)
  ultimately have "Suc (length (AList.delete (last (k # lc_order c)) ?m)) = Suc (length (lc_entries c))"
    using full by (simp only: length_delete_present length_update_new)
  moreover have "distinct (k # lc_order c)" using assms new by (simp add: wf_cache_def)
  ultimately show ?thesis
    using assms full ne distinct_butlast_set [of "k # lc_order c"]
    by (auto simp: wf_cache_def cache_Set_full alist_facts distinct_butlast dest: in_set_butlastD)
qed

lemma entry_live_Set_same:
  assumes "wf_cache c" "0 < ttl"
  shows "entry_live (cache_Set now c k v ttl) t k = (if t < now + ttl then Some v else None)"
proof (cases rule: cache_Set_cases [where c = c and k = k and ttl = ttl])
  case full
  then have "k \<notin> set (lc_order c)" using assms by (simp add: wf_cache_def map_of_None_keys)
  moreover have "lc_order c \<noteq> []" using assms(1) full(3) by (rule full_order)
  ultimately have "last (lc_order c) \<noteq> k" by (metis last_in_set)
  with full \<open>lc_order c \<noteq> []\<close> show ?thesis
    by (simp add: entry_live_def cache_Set_full delete_conv' update_conv')
qed (use assms in \<open>auto simp: entry_live_def cache_Set_old cache_Set_room update_conv'\<close>)

lemma entry_live_Set_other:
  assumes "k' \<noteq> k" "entry_live (cache_Set now c k v ttl) t k' = Some v'"
  shows "entry_live c t k' = Some v'"
proof (cases rule: cache_Set_cases [where c = c and k = k and ttl = ttl])
  case nothing
  with assms show ?thesis by (simp add: cache_Set_def)
next
  case full
  with assms show ?thesis
    by (auto simp: entry_live_def cache_Set_full delete_conv' update_conv' split: if_splits option.splits)
qed (use assms in \<open>auto simp: entry_live_def cache_Set_old cache_Set_room update_conv'\<close>)

lemma cache_Set_maximum: "lc_maximum (cache_Set now c k v ttl) = lc_maximum c"
  by (simp add: cache_Set_def Let_def split: option.split)

interpretation local_cache: lossy_cache wf_cache entry_live GetIfPresent cache_Set Invalidate
  InvalidateAll cache_Len "\<lambda>c. nat (lc_maximum c)"
proof (unfold_locales, goal_cases)
  case 1 then show ?case by (rule wf_GetIfPresent)
next
  case 2 then show ?case by (rule wf_Set)
next
  case 3 then show ?case by (rule wf_Invalidate)
next
  case 4 then show ?case by (rule wf_InvalidateAll)
next
  case 5 then show ?case by (simp add: GetIfPresent_def entry_live_def split: option.split)
next
  case 6 then show ?case
    by (auto simp: GetIfPresent_def entry_live_def delete_conv' split: option.split)
next
  case 7 then show ?case
    by (auto simp: GetIfPresent_def entry_live_def delete_conv' split: option.splits if_splits)
next
  case 8 then show ?case
    by (auto simp: GetIfPresent_def entry_live_def delete_conv' split: option.splits if_splits)
next
  case 9 then show ?case by (simp add: entry_live_Set_same)
next
  case 10 then show ?case by (blast dest: entry_live_Set_other)
next
  case 11 then show ?case by (simp add: cache_Set_def)
next
  case 12 then show ?case
    by (simp add: Invalidate_def entry_live_def Let_def delete_conv')
next
  case 13 then show ?case by (simp add: InvalidateAll_def entry_live_def)
next
  case 14 then show ?case by (auto simp: entry_live_def split: option.splits if_splits)
next
  case 15 then show ?case by (auto simp: cache_Len_def wf_cache_def)
next
  case 16 then show ?case by (simp add: GetIfPresent_def split: option.split)
next
  case 17 then show ?case by (simp add: cache_Set_maximum)
qed

section \<open>Histories of a cache\<close>

datatype ('k, 'v) cache_op = OpGet time 'k | OpSet time 'k 'v duration | OpInvalidate 'k | OpInvalidateAll

fun run_op :: "('k, 'v) cache_op \<Rightarrow> ('k, 'v) localCache \<Rightarrow> ('k, 'v) localCache" where
  "run_op (OpGet now k) c = snd (GetIfPresent now c k)"
| "run_op (OpSet now k v ttl) c = cache_Set now c k v ttl"
| "run_op (OpInvalidate k) c = Invalidate c k"
| "run_op OpInvalidateAll c = InvalidateAll c"

text \<open>The key that an operation uses: a lookup that finds its key, or a store.\<close>

fun op_uses :: "('k, 'v) cache_op \<Rightarrow> ('k, 'v) localCache \<Rightarrow> 'k list" where
  "op_uses (OpGet now k) c = (if fst (GetIfPresent now c k) = None then [] else [k])"
| "op_uses (OpSet now k v ttl) c = (if 0 < ttl then [k] else [])"
| "op_uses _ c = []"

text \<open>A cache after a history, with the keys used in it, the most recent use first.\<close>

fun run_ops :: "('k, 'v) cache_op list \<Rightarrow> ('k, 'v) localCache \<times> 'k list \<Rightarrow> ('k, 'v) localCache \<times> 'k list" where
  "run_ops [] s = s"
| "run_ops (x # xs) (c, us) = run_ops xs (run_op x c, op_uses x c @ us)"

text \<open>The keys of a list of uses by their most recent use.\<close>

fun by_recency :: "'k list \<Rightarrow> 'k list" where
  "by_recency [] = []"
| "by_recency (u # us) = u # removeAll u (by_recency us)"

definition in_cache :: "('k, 'v) localCache \<Rightarrow> 'k \<Rightarrow> bool" where
  "in_cache c k = (k \<in> set (keys (lc_entries c)))"

definition ordered_by_use :: "('k, 'v) localCache \<Rightarrow> 'k list \<Rightarrow> bool" where
  "ordered_by_use c us = (lc_order c = filter (in_cache c) (by_recency us))"

lemma set_by_recency [simp]: "set (by_recency us) = set us"
  by (induction us) auto

lemma distinct_by_recency [simp]: "distinct (by_recency us)"
  by (induction us) (auto simp: distinct_removeAll)

lemma filter_removeAll: "filter P (removeAll k xs) = removeAll k (filter P xs)"
  by (induction xs) auto

lemma filter_without: "filter (\<lambda>x. P x \<and> x \<noteq> k) xs = removeAll k (filter P xs)"
  by (induction xs) auto

lemma wf_run_op: "wf_cache c \<Longrightarrow> wf_cache (run_op x c)"
  by (cases x) (simp_all add: wf_GetIfPresent wf_Set wf_Invalidate wf_InvalidateAll)

lemma in_cache_order: "wf_cache c \<Longrightarrow> in_cache c k \<longleftrightarrow> k \<in> set (lc_order c)"
  by (simp add: in_cache_def wf_cache_def)

lemma in_cache_Some: "map_of (lc_entries c) k = Some e \<Longrightarrow> in_cache c k"
  by (simp add: in_cache_def map_of_in_keys)

lemma not_in_order:
  "wf_cache c \<Longrightarrow> map_of (lc_entries c) k = None \<Longrightarrow> k \<notin> set (lc_order c)"
  by (simp add: wf_cache_def map_of_None_keys)

lemma wf_cache_distinct: "wf_cache c \<Longrightarrow> distinct (lc_order c)"
  by (simp add: wf_cache_def)

text \<open>The effect of the operations on the keys and on their order.\<close>

lemma in_cache_drop: "in_cache (c\<lparr>lc_entries := AList.delete k (lc_entries c)\<rparr>) = (\<lambda>k'. in_cache c k' \<and> k' \<noteq> k)"
  by (auto simp: in_cache_def set_keys_delete)

lemma in_cache_fields [simp]:
  "in_cache (c\<lparr>lc_order := xs\<rparr>) = in_cache c"
  "in_cache (c\<lparr>lc_evictions := n\<rparr>) = in_cache c"
  by (auto simp: in_cache_def)

lemma ordered_use:
  assumes "ordered_by_use c us" "in_cache c k"
  shows "k # removeAll k (lc_order c) = filter (in_cache c) (by_recency (k # us))"
  using assms by (simp add: ordered_by_use_def filter_removeAll)

lemma ordered_get:
  assumes "wf_cache c" "ordered_by_use c us"
  shows "ordered_by_use (run_op (OpGet now k) c) (op_uses (OpGet now k) c @ us)"
proof (cases "map_of (lc_entries c) k")
  case None
  with assms show ?thesis by (simp add: GetIfPresent_def)
next
  case (Some e)
  show ?thesis
  proof (cases "te_expiresAt e > now")
    case True
    with assms Some ordered_use [OF assms(2) in_cache_Some [OF Some]] show ?thesis
      by (simp add: GetIfPresent_def ordered_by_use_def list_MoveToFront_def
          distinct_remove1_removeAll wf_cache_distinct)
  next
    case False
    have "in_cache (c\<lparr>lc_order := xs, lc_entries := AList.delete k (lc_entries c)\<rparr>) = (\<lambda>k'. in_cache c k' \<and> k' \<noteq> k)" for xs
      by (auto simp: in_cache_def set_keys_delete)
    with assms Some False show ?thesis
      by (simp add: GetIfPresent_def ordered_by_use_def list_Remove_def filter_without
          distinct_remove1_removeAll wf_cache_distinct)
  qed
qed

lemma ordered_Invalidate:
  assumes "wf_cache c" "ordered_by_use c us"
  shows "ordered_by_use (Invalidate c k) us"
proof -
  have "lc_order (Invalidate c k) = removeAll k (lc_order c)"
    using assms(1) not_in_order [OF assms(1), of k]
    by (simp add: Invalidate_def Let_def list_Remove_def distinct_remove1_removeAll
        wf_cache_distinct split: option.split)
  moreover have "in_cache (Invalidate c k) = (\<lambda>k'. in_cache c k' \<and> k' \<noteq> k)"
    by (auto simp: Invalidate_def Let_def in_cache_def set_keys_delete)
  ultimately show ?thesis
    using assms(2) by (simp add: ordered_by_use_def filter_without)
qed

lemma ordered_Set:
  assumes "wf_cache c" "ordered_by_use c us"
  shows "ordered_by_use (run_op (OpSet now k v ttl) c) (op_uses (OpSet now k v ttl) c @ us)"
proof (cases rule: cache_Set_cases [where c = c and k = k and ttl = ttl])
  case nothing
  with assms show ?thesis by (simp add: cache_Set_def)
next
  case (old e)
  have "in_cache (cache_Set now c k v ttl) = in_cache c"
    using old in_cache_Some [OF old(2)] by (auto simp: cache_Set_old in_cache_def set_keys_update)
  with assms old ordered_use [OF assms(2) in_cache_Some [OF old(2)]] show ?thesis
    by (simp add: cache_Set_old ordered_by_use_def list_MoveToFront_def
        distinct_remove1_removeAll wf_cache_distinct)
next
  case room
  have new: "k \<notin> set (lc_order c)" using assms(1) room(2) by (rule not_in_order)
  have "in_cache (cache_Set now c k v ttl) = (\<lambda>k'. k' = k \<or> in_cache c k')"
    using room by (auto simp: cache_Set_room in_cache_def set_keys_update)
  moreover have "filter (\<lambda>k'. k' = k \<or> in_cache c k') (removeAll k xs) = removeAll k (filter (in_cache c) xs)" for xs
    by (induction xs) auto
  ultimately show ?thesis
    using assms room new by (simp add: cache_Set_room ordered_by_use_def)
next
  case full
  have new: "k \<notin> set (lc_order c)" using assms(1) full(2) by (rule not_in_order)
  have ne: "lc_order c \<noteq> []" using assms(1) full(3) by (rule full_order)
  then have lk: "last (lc_order c) \<noteq> k" using new last_in_set by metis
  have "in_cache (cache_Set now c k v ttl) = (\<lambda>k'. (k' = k \<or> in_cache c k') \<and> k' \<noteq> last (lc_order c))"
    using full ne by (auto simp: cache_Set_full in_cache_def set_keys_update set_keys_delete)
  moreover have "filter (\<lambda>k'. (k' = k \<or> in_cache c k') \<and> k' \<noteq> l) (removeAll k xs) =
      removeAll l (removeAll k (filter (in_cache c) xs))" for xs l
    by (induction xs) auto
  moreover have "butlast xs = removeAll (last xs) xs" if "distinct xs" "xs \<noteq> []" for xs :: "'a list"
    using that by (induction xs rule: rev_induct) auto
  ultimately show ?thesis
    using assms full new ne lk by (simp add: cache_Set_full ordered_by_use_def wf_cache_distinct)
qed

lemma ordered_run_op:
  "wf_cache c \<Longrightarrow> ordered_by_use c us \<Longrightarrow> ordered_by_use (run_op x c) (op_uses x c @ us)"
proof (cases x)
  case OpInvalidateAll
  then show "ordered_by_use (run_op x c) (op_uses x c @ us)"
    by (simp add: ordered_by_use_def InvalidateAll_def in_cache_def)
qed (simp_all only: ordered_get ordered_Set, simp add: ordered_Invalidate)

lemma run_ops_invariant:
  "wf_cache (fst s) \<Longrightarrow> ordered_by_use (fst s) (snd s) \<Longrightarrow>
   wf_cache (fst (run_ops xs s)) \<and> ordered_by_use (fst (run_ops xs s)) (snd (run_ops xs s))
   \<and> lc_maximum (fst (run_ops xs s)) = lc_maximum (fst s)"
proof (induction xs s rule: run_ops.induct)
  case (2 x xs c us)
  have "lc_maximum (run_op x c) = lc_maximum c"
    by (cases x) (simp_all add: GetIfPresent_def cache_Set_maximum Invalidate_def InvalidateAll_def Let_def
        split: option.split)
  with 2 show ?case by (simp add: wf_run_op ordered_run_op)
qed simp

lemma new_cache_history:
  fixes c :: "('k, 'v) localCache"
  assumes "run_ops xs (newLocalCache mx, []) = (c, us)"
  shows "wf_cache c" "ordered_by_use c us" "lc_maximum c = max 1 mx"
proof -
  have "ordered_by_use (newLocalCache mx :: ('k, 'v) localCache) []"
    "lc_maximum (newLocalCache mx :: ('k, 'v) localCache) = max 1 mx"
    by (simp_all add: ordered_by_use_def newLocalCache_def)
  with run_ops_invariant [of "(newLocalCache mx, [])" xs] assms
  show "wf_cache c" "ordered_by_use c us" "lc_maximum c = max 1 mx" by (simp_all add: wf_new)
qed

lemma acquire_inflight:
  assumes "ma_inflight a \<le> ma_capacity a"
  shows "ma_inflight (snd (acquire a now)) = (if fst (acquire a now) then Suc (ma_inflight a) else ma_inflight a)"
    and "ma_inflight (snd (acquire a now)) \<le> ma_capacity a"
    and "ma_capacity (snd (acquire a now)) = ma_capacity a"
  using assms by (simp_all add: acquire_def Let_def)

text \<open>
  A history of an admission control: attempts at given times, and ends of admitted loads
  (\<open>None\<close>), which wait while no load is in flight. The counters are the loads admitted and ended.
\<close>

fun run_admission :: "time option list \<Rightarrow> missAdmission \<times> nat \<times> nat \<Rightarrow> missAdmission \<times> nat \<times> nat" where
  "run_admission [] s = s"
| "run_admission (Some now # xs) (a, adm, fin) =
     run_admission xs (snd (acquire a now), if fst (acquire a now) then Suc adm else adm, fin)"
| "run_admission (None # xs) (a, adm, fin) =
     run_admission xs (if ma_inflight a = 0 then (a, adm, fin) else (release a, adm, Suc fin))"

lemma run_admission_invariant:
  "run_admission xs (a, adm, fin) = (a', adm', fin') \<Longrightarrow> ma_inflight a \<le> ma_capacity a \<Longrightarrow>
   adm = fin + ma_inflight a \<Longrightarrow>
   adm' = fin' + ma_inflight a' \<and> ma_inflight a' \<le> ma_capacity a \<and> ma_capacity a' = ma_capacity a"
proof (induction xs arbitrary: a adm fin)
  case (Cons x xs)
  show ?case
  proof (cases x)
    case None
    show ?thesis
    proof (cases "ma_inflight a = 0")
      case True
      with None Cons.prems show ?thesis by (intro Cons.IH) simp_all
    next
      case False
      have "adm' = fin' + ma_inflight a' \<and> ma_inflight a' \<le> ma_capacity (release a) \<and> ma_capacity a' = ma_capacity (release a)"
        using None False Cons.prems by (intro Cons.IH [of "release a" adm "Suc fin"]) (simp_all add: release_def)
      then show ?thesis by (simp add: release_def)
    qed
  next
    case (Some now)
    have "adm' = fin' + ma_inflight a' \<and> ma_inflight a' \<le> ma_capacity (snd (acquire a now))
        \<and> ma_capacity a' = ma_capacity (snd (acquire a now))"
      using Some Cons.prems acquire_inflight [OF Cons.prems(2), of now]
      by (intro Cons.IH [of _ "if fst (acquire a now) then Suc adm else adm" fin])
        (simp_all split: if_splits)
    with acquire_inflight [OF Cons.prems(2), of now] show ?thesis by simp
  qed
qed simp

section \<open>Properties\<close>

text \<open>
  C36. After every history of lookups, stores and invalidations of a new cache its map and
  its list hold the same keys, the number of entries is within the configured bound (at
  least one), and the list is the cached keys by their most recent use.
\<close>

theorem cache_bounded_and_ordered:
  "case run_ops xs (newLocalCache mx, []) of
     (c, us) \<Rightarrow> wf_cache c \<and> int (cache_Len c) \<le> max 1 mx
                \<and> lc_order c = filter (in_cache c) (by_recency us)"
  using new_cache_history [of xs mx]
  by (auto simp: wf_cache_def ordered_by_use_def cache_Len_def split: prod.split)

text \<open>
  A store of a new key into a full cache removes exactly one key, the cached key whose
  most recent use is the oldest, and leaves every other entry as it was.
\<close>

theorem cache_evicts_least_recent:
  assumes "run_ops xs (newLocalCache mx, []) = (c, us)"
    and "\<not> in_cache c k" and "0 < ttl" and "int (cache_Len c) = max 1 mx"
  shows "\<exists>newer victim.
           filter (in_cache c) (by_recency us) = newer @ [victim]
           \<and> in_cache (cache_Set now c k v ttl) = (\<lambda>k'. k' = k \<or> in_cache c k' \<and> k' \<noteq> victim)
           \<and> (\<forall>k'. k' \<noteq> k \<and> k' \<noteq> victim \<longrightarrow>
                map_of (lc_entries (cache_Set now c k v ttl)) k' = map_of (lc_entries c) k')"
proof -
  have inv: "wf_cache c" "ordered_by_use c us" "lc_maximum c = max 1 mx"
    using new_cache_history [OF assms(1)] by simp_all
  have full: "map_of (lc_entries c) k = None" "lc_maximum c \<le> int (length (lc_entries c))"
    using assms(2,4) inv(3) by (simp_all add: in_cache_def map_of_None_keys cache_Len_def)
  have ne: "lc_order c \<noteq> []" using inv(1) full(2) by (rule full_order)
  have "last (lc_order c) \<noteq> k" using not_in_order [OF inv(1) full(1)] ne last_in_set by metis
  then have "in_cache (cache_Set now c k v ttl) = (\<lambda>k'. k' = k \<or> in_cache c k' \<and> k' \<noteq> last (lc_order c))"
    using full ne assms(3) by (auto simp: cache_Set_full in_cache_def set_keys_update set_keys_delete)
  moreover have "map_of (lc_entries (cache_Set now c k v ttl)) k' = map_of (lc_entries c) k'"
    if "k' \<noteq> k \<and> k' \<noteq> last (lc_order c)" for k'
    using that full ne assms(3) by (simp add: cache_Set_full delete_conv' update_conv')
  moreover have "filter (in_cache c) (by_recency us) = butlast (lc_order c) @ [last (lc_order c)]"
    using inv(2) ne by (simp add: ordered_by_use_def)
  ultimately show ?thesis by blast
qed

text \<open>
  C37. A stored value is found by every lookup before it expires and by none after; a lookup of
  another key finds what it would have found without the store, or nothing.
\<close>

theorem cache_lookup_after_store:
  assumes "wf_cache c" and "0 < ttl"
  shows "fst (GetIfPresent t (cache_Set now c k v ttl) k') =
           (if k' = k then (if t < now + ttl then Some v else None)
            else if in_cache (cache_Set now c k v ttl) k' then fst (GetIfPresent t c k')
            else None)"
proof (cases "k' = k")
  case True
  with assms show ?thesis by (simp add: local_cache.get_result local_cache.live_put_same)
next
  case False
  have "map_of (lc_entries (cache_Set now c k v ttl)) k' =
      (if in_cache (cache_Set now c k v ttl) k' then map_of (lc_entries c) k' else None)"
  proof (cases "map_of (lc_entries (cache_Set now c k v ttl)) k'")
    case None
    then show ?thesis by (simp add: in_cache_def map_of_None_keys)
  next
    case (Some e)
    have "map_of (lc_entries c) k' = Some e"
      using Some False
      by (auto simp: cache_Set_def Let_def update_conv' delete_conv' split: option.splits if_splits)
    with Some in_cache_Some [OF Some] show ?thesis by simp
  qed
  with False show ?thesis
    by (simp add: local_cache.get_result entry_live_def)
qed

text \<open>
  C38. The cache key of a mapping determines the access key and the bucket, since a bucket name
  has no slash: mappings of different access keys never share an entry.
\<close>

theorem vbucketCacheKey_inject:
  assumes "CHR ''/'' \<notin> set b" and "CHR ''/'' \<notin> set b'"
  shows "vbucketCacheKey a b = vbucketCacheKey a' b' \<longleftrightarrow> a = a' \<and> b = b'"
proof -
  have "takeWhile (\<lambda>c. c \<noteq> CHR ''/'') (rev (vbucketCacheKey a b)) = rev b" if "CHR ''/'' \<notin> set b" for a b
    using that unfolding vbucketCacheKey_def by (simp add: takeWhile_tail takeWhile_append)
  then have "vbucketCacheKey a b = vbucketCacheKey a' b' \<Longrightarrow> b = b'"
    using assms by (metis rev_is_rev_conv)
  then show ?thesis by (auto simp: vbucketCacheKey_def)
qed

text \<open>
  C39. In every history of an admission control the loads in flight are the admitted ones that
  have not ended, and never more than the configured number.
\<close>

theorem admission_bounds_in_flight:
  "case run_admission xs (newMissAdmission rate burst inflight now, 0, 0) of
     (a, admitted, ended) \<Rightarrow> admitted = ended + ma_inflight a \<and> ma_inflight a \<le> inflight"
  using run_admission_invariant [of xs "newMissAdmission rate burst inflight now" 0 0]
  by (auto simp: newMissAdmission_def split: prod.split)

section \<open>The properties at concrete inputs\<close>

theorem cache_evicts_least_recent_witness:
  "\<exists>newer victim.
     filter (in_cache (fst (run_ops [OpSet 0 ''a'' (1::int) 10, OpSet 0 ''b'' 2 10, OpGet 1 ''a''] (newLocalCache 2, []))))
       (by_recency (snd (run_ops [OpSet 0 ''a'' (1::int) 10, OpSet 0 ''b'' 2 10, OpGet 1 ''a''] (newLocalCache 2, []))))
     = newer @ [victim] \<and> victim = ''b''"
proof -
  let ?s = "run_ops [OpSet 0 ''a'' (1::int) 10, OpSet 0 ''b'' 2 10, OpGet 1 ''a''] (newLocalCache 2, [])"
  have f: "filter (in_cache (fst ?s)) (by_recency (snd ?s)) = [''a'', ''b'']" by code_simp
  have h: "run_ops [OpSet 0 ''a'' (1::int) 10, OpSet 0 ''b'' 2 10, OpGet 1 ''a''] (newLocalCache 2, []) = (fst ?s, snd ?s)"
    by simp
  have "\<not> in_cache (fst ?s) ''c''" "int (cache_Len (fst ?s)) = max 1 2" by code_simp+
  from cache_evicts_least_recent [OF h this(1) _ this(2), of 5 2 3] f show ?thesis by auto
qed

theorem cache_lookup_after_store_witness:
  "fst (GetIfPresent 3 (cache_Set 0 (newLocalCache 1) ''k'' (7::int) 5) ''k'') = Some 7"
  using cache_lookup_after_store [of "newLocalCache 1" 5 3 0 "''k''" "7::int" "''k''"]
  by (simp add: wf_new)

theorem vbucketCacheKey_inject_witness:
  "vbucketCacheKey ''AK1'' ''photos'' \<noteq> vbucketCacheKey ''AK2'' ''photos''"
  using vbucketCacheKey_inject [of "''photos''" "''photos''" "''AK1''" "''AK2''"] by simp

end
