(* ===== verification/Sync_Client.thy ===== *)
theory Sync_Client
  imports Cache Go_Net "HOL-Library.Word"
begin

text \<open>
  The synchronization state machine of the control-plane client:
  \<^verbatim>\<open>controlplane/client.go\<close> and \<^verbatim>\<open>controlplane/watch.go\<close>, with the messages of
  \<^verbatim>\<open>api/v1\<close> that it receives. An operation that the source runs under \<^verbatim>\<open>syncMu\<close>
  is one function on the state; the time it reads from the clock is an argument.
  Revisions, epochs and counters are 64-bit words.
  A protobuf duration or timestamp is what the library reports about it: whether it is valid and
  its value. The public-suffix list is the argument \<open>psl\<close>, true of the domains for which
  \<^verbatim>\<open>EffectiveTLDPlusOne\<close> returns no error.
\<close>

section \<open>Messages\<close>

type_synonym uint64 = "64 word"

record pb_Duration =
  CheckValid :: bool
  AsDuration :: duration

record CredentialsDelta =
  cd_AccessKeyId :: string
  cd_Remove :: bool
  cd_NegativeTtl :: "pb_Duration option"

record BaseHostDelta =
  bd_Remove :: bool
  bd_BaseHost :: string

record VBucketDelta =
  vd_AccessKeyId :: string
  vd_BucketName :: string
  vd_Remove :: bool
  vd_NegativeTtl :: "pb_Duration option"

datatype watch_payload =
    WatchEvent_Credentials "CredentialsDelta option"
  | WatchEvent_BaseHost "BaseHostDelta option"
  | WatchEvent_Vbucket "VBucketDelta option"
  | WatchEvent_SnapshotBegin
  | WatchEvent_SynchronizationBarrier
  | WatchEvent_Heartbeat

record WatchEvent =
  we_Event :: "watch_payload option"
  we_Revision :: uint64
  we_Cursor :: string

record WatchStateRequest =
  ResumeCursor :: string
  AfterRevision :: uint64

section \<open>State\<close>

datatype State =
    StateStartup
  | StateConnecting
  | StateSynchronizing
  | StateReady
  | StateDisconnected
  | StateShutdown

text \<open>A cached answer, positive or negative, with the revision it belongs to.\<close>

record 'v cached =
  ce_value :: "'v option"
  ce_Found :: bool
  ce_Revision :: uint64
  ce_TTL :: duration

type_synonym base_hosts = "(string \<times> uint64) list"

record snapshotState =
  ss_revision :: uint64
  ss_expectedCursor :: string
  ss_previousCursor :: string
  ss_baseHosts :: base_hosts

record metricCounters =
  m_cacheHits :: uint64
  m_cacheMisses :: uint64
  m_negativeHits :: uint64
  m_loadCoalesced :: uint64
  m_rejectedMisses :: uint64
  m_rejectedVBucketMisses :: uint64
  m_watchGaps :: uint64
  m_watchReconnects :: uint64
  m_rpcCalls :: uint64
  m_rpcFailures :: uint64
  m_rpcLatencyNanos :: uint64
  m_lastRPCCode :: string

text \<open>
  The client over the types of its cached credentials and mappings. \<open>c_connected\<close> says that
  \<^verbatim>\<open>conn\<close> and \<^verbatim>\<open>client\<close> are set; the channels \<^verbatim>\<open>resync\<close> and \<^verbatim>\<open>stateChanged\<close>
  have room for one signal, which the fields of these names hold.
\<close>

record ('c, 'b) client =
  c_state :: State
  c_revision :: uint64
  c_cursor :: string
  c_epoch :: uint64
  c_snapshot :: "snapshotState option"
  c_lastGap :: uint64
  c_requiredRevision :: uint64
  c_lastTransition :: time
  c_synchronizingSince :: time
  c_baseHosts :: base_hosts
  c_baseHostMax :: int
  c_barrierRequired :: bool
  c_lastDisconnectReason :: string
  c_connected :: bool
  c_resync :: bool
  c_stateChanged :: bool
  c_credentials :: "(string, 'c cached) localCache"
  c_vbuckets :: "(string, 'b cached) localCache"
  c_credentialAdmission :: missAdmission
  c_vbucketAdmission :: missAdmission
  c_metrics :: metricCounters

record ClientOptions =
  UnaryTimeout :: duration
  WatchSilenceTimeout :: duration
  SynchronizationTimeout :: duration
  ReconnectMinBackoff :: duration
  ReconnectMaxBackoff :: duration
  CredentialMissRate :: rat
  CredentialMissBurst :: int
  CredentialMissInFlight :: int
  VBucketMissRate :: rat
  VBucketMissBurst :: int
  VBucketMissInFlight :: int

definition defaultClientOptions :: ClientOptions where
  "defaultClientOptions =
     \<lparr>UnaryTimeout = 2000000000, WatchSilenceTimeout = 10000000000,
      SynchronizationTimeout = 30000000000, ReconnectMinBackoff = 250000000,
      ReconnectMaxBackoff = 30000000000, CredentialMissRate = 100, CredentialMissBurst = 100,
      CredentialMissInFlight = 32, VBucketMissRate = 100, VBucketMissBurst = 100,
      VBucketMissInFlight = 32\<rparr>"

definition withDefault :: "'a::{zero, ord} \<Rightarrow> 'a \<Rightarrow> 'a" where
  "withDefault v d = (if v \<le> 0 then d else v)"

definition normalizeOptions :: "ClientOptions \<Rightarrow> ClientOptions" where
  "normalizeOptions o1 =
     (let d = defaultClientOptions;
          lo = withDefault (ReconnectMinBackoff o1) (ReconnectMinBackoff d);
          hi = withDefault (ReconnectMaxBackoff o1) (ReconnectMaxBackoff d)
      in \<lparr>UnaryTimeout = withDefault (UnaryTimeout o1) (UnaryTimeout d),
          WatchSilenceTimeout = withDefault (WatchSilenceTimeout o1) (WatchSilenceTimeout d),
          SynchronizationTimeout = withDefault (SynchronizationTimeout o1) (SynchronizationTimeout d),
          ReconnectMinBackoff = lo,
          ReconnectMaxBackoff = (if hi < lo then lo else hi),
          CredentialMissRate = withDefault (CredentialMissRate o1) (CredentialMissRate d),
          CredentialMissBurst = withDefault (CredentialMissBurst o1) (CredentialMissBurst d),
          CredentialMissInFlight = withDefault (CredentialMissInFlight o1) (CredentialMissInFlight d),
          VBucketMissRate = withDefault (VBucketMissRate o1) (VBucketMissRate d),
          VBucketMissBurst = withDefault (VBucketMissBurst o1) (VBucketMissBurst d),
          VBucketMissInFlight = withDefault (VBucketMissInFlight o1) (VBucketMissInFlight d)\<rparr>)"

definition zeroMetrics :: metricCounters where
  "zeroMetrics =
     \<lparr>m_cacheHits = 0, m_cacheMisses = 0, m_negativeHits = 0, m_loadCoalesced = 0,
      m_rejectedMisses = 0, m_rejectedVBucketMisses = 0, m_watchGaps = 0, m_watchReconnects = 0,
      m_rpcCalls = 0, m_rpcFailures = 0, m_rpcLatencyNanos = 0, m_lastRPCCode = []\<rparr>"

record CacheConfig =
  MaxCredentials :: int
  MaxBaseHosts :: int
  MaxVBuckets :: int

definition NewClientWithOptions :: "CacheConfig \<Rightarrow> time \<Rightarrow> ClientOptions \<Rightarrow> ('c, 'b) client" where
  "NewClientWithOptions cfg now opts0 =
     (let opts = normalizeOptions opts0 in
      \<lparr>c_state = StateStartup, c_revision = 0, c_cursor = [], c_epoch = 0, c_snapshot = None,
       c_lastGap = 0, c_requiredRevision = 0, c_lastTransition = now, c_synchronizingSince = 0,
       c_baseHosts = [], c_baseHostMax = MaxBaseHosts cfg, c_barrierRequired = True,
       c_lastDisconnectReason = [], c_connected = False, c_resync = False, c_stateChanged = False,
       c_credentials = newLocalCache (MaxCredentials cfg), c_vbuckets = newLocalCache (MaxVBuckets cfg),
       c_credentialAdmission = newMissAdmission (CredentialMissRate opts) (CredentialMissBurst opts)
         (nat (CredentialMissInFlight opts)) now,
       c_vbucketAdmission = newMissAdmission (VBucketMissRate opts) (VBucketMissBurst opts)
         (nat (VBucketMissInFlight opts)) now,
       c_metrics = zeroMetrics\<rparr>)"

definition Ready :: "('c, 'b) client \<Rightarrow> bool" where
  "Ready c = (c_state c = StateReady)"

section \<open>Transitions\<close>

definition transitionLocked :: "time \<Rightarrow> ('c, 'b) client \<Rightarrow> State \<Rightarrow> ('c, 'b) client" where
  "transitionLocked now c state =
     (if c_state c = StateShutdown \<and> state \<noteq> StateShutdown then c
      else if c_state c \<noteq> state then
        (let c1 = (if c_state c = StateReady \<and> state \<noteq> StateReady then c\<lparr>c_epoch := c_epoch c + 1\<rparr> else c);
             c2 = c1\<lparr>c_state := state, c_lastTransition := now\<rparr>;
             c3 = (if state = StateSynchronizing then c2\<lparr>c_synchronizingSince := now\<rparr> else c2)
         in c3\<lparr>c_stateChanged := True\<rparr>)
      else c)"

definition requestResyncLocked :: "time \<Rightarrow> ('c, 'b) client \<Rightarrow> ('c, 'b) client" where
  "requestResyncLocked now c =
     (if c_state c = StateShutdown then c
      else (transitionLocked now (c\<lparr>c_barrierRequired := True\<rparr>) StateDisconnected)\<lparr>c_resync := True\<rparr>)"

definition markUnsynchronized :: "time \<Rightarrow> ('c, 'b) client \<Rightarrow> State \<Rightarrow> ('c, 'b) client" where
  "markUnsynchronized now c state =
     (transitionLocked now c state)\<lparr>c_snapshot := None, c_barrierRequired := True\<rparr>"

text \<open>What ended a watch stream, and the reason that the status reports for it.\<close>

datatype watch_end =
    EndClosed
  | EndCanceled
  | EndSilence
  | EndSyncTimeout
  | EndRevisionRace
  | EndOther

definition disconnectReason :: "watch_end \<Rightarrow> string" where
  "disconnectReason e =
     (case e of
        EndClosed \<Rightarrow> ''watch_closed''
      | EndCanceled \<Rightarrow> ''shutdown''
      | EndSilence \<Rightarrow> ''watch_silence_timeout''
      | EndSyncTimeout \<Rightarrow> ''synchronization_timeout''
      | EndRevisionRace \<Rightarrow> ''revision_resynchronization''
      | EndOther \<Rightarrow> ''watch_protocol_or_transport_error'')"

text \<open>
  The stages of \<^verbatim>\<open>connect\<close>: a stale resync signal is dropped, the transport is set, the
  stream is requested; at the end readiness goes before the transport.
\<close>

definition connect_begin :: "('c, 'b) client \<Rightarrow> ('c, 'b) client" where
  "connect_begin c = c\<lparr>c_resync := False\<rparr>"

definition connect_dialed :: "('c, 'b) client \<Rightarrow> ('c, 'b) client" where
  "connect_dialed c = c\<lparr>c_connected := True\<rparr>"

definition connect_open :: "time \<Rightarrow> ('c, 'b) client \<Rightarrow> WatchStateRequest \<times> ('c, 'b) client" where
  "connect_open now c =
     (let c1 = transitionLocked now c StateSynchronizing
      in (\<lparr>ResumeCursor = c_cursor c1, AfterRevision = c_revision c1\<rparr>, c1))"

definition markDisconnected :: "time \<Rightarrow> watch_end \<Rightarrow> ('c, 'b) client \<Rightarrow> ('c, 'b) client" where
  "markDisconnected now e c =
     (transitionLocked now (c\<lparr>c_lastDisconnectReason := disconnectReason e\<rparr>) StateDisconnected)
       \<lparr>c_snapshot := None, c_barrierRequired := True\<rparr>"

definition connect_closed :: "('c, 'b) client \<Rightarrow> ('c, 'b) client" where
  "connect_closed c = c\<lparr>c_connected := False\<rparr>"

text \<open>
  \<^verbatim>\<open>refreshSyncTimer\<close>: \<open>None\<close> when synchronization has taken too long, otherwise the timer,
  which is off when ready and unchanged in the states other than synchronizing.
\<close>

definition refreshSyncTimer :: "duration \<Rightarrow> time \<Rightarrow> ('c, 'b) client \<Rightarrow> duration option \<Rightarrow> duration option option" where
  "refreshSyncTimer timeout now c timer =
     (if c_state c = StateReady then Some None
      else if c_state c \<noteq> StateSynchronizing then Some timer
      else (let remaining = timeout - (now - c_synchronizingSince c)
            in if remaining \<le> 0 then None else Some (Some remaining)))"

definition minDuration :: "duration \<Rightarrow> duration \<Rightarrow> duration" where
  "minDuration a b = (if a < b then a else b)"

definition next_backoff :: "ClientOptions \<Rightarrow> bool \<Rightarrow> duration \<Rightarrow> duration" where
  "next_backoff opts synced backoff =
     minDuration (ReconnectMaxBackoff opts) ((if synced then ReconnectMinBackoff opts else backoff) * 2)"

section \<open>Base domains\<close>

definition host_character :: "rune \<Rightarrow> bool" where
  "host_character r = ((97 \<le> r \<and> r \<le> 122) \<or> (48 \<le> r \<and> r \<le> 57) \<or> r = 45)"

definition valid_label :: "string \<Rightarrow> bool" where
  "valid_label label =
     (label \<noteq> [] \<and> length label \<le> 63 \<and> hd label \<noteq> CHR ''-'' \<and> last label \<noteq> CHR ''-''
      \<and> list_all host_character (rune_list label))"

definition normalizeBaseDomain :: "(string \<Rightarrow> bool) \<Rightarrow> string \<Rightarrow> string option" where
  "normalizeBaseDomain psl value =
     (let domain = ToLower (TrimSuffix (TrimSpace value) ''.'') in
      if domain = [] \<or> 253 < length domain \<or> Contains domain '':'' \<or> Contains domain ''*''
         \<or> HasPrefix domain ''.'' \<or> HasSuffix domain ''.'' \<or> Contains domain ''..'' \<or> ParseIP domain
      then None
      else if \<not> list_all valid_label (Split domain ''.'') then None
      else if \<not> psl domain then None
      else Some domain)"

section \<open>Watch events\<close>

datatype watch_error =
    EmptyWatchEvent
  | ErrUnsynchronized
  | NestedSnapshotBegin
  | InvalidSnapshotBegin
  | InvalidSynchronizationBarrier
  | BarrierRevisionMismatch
  | SameRevisionCursorChanged
  | NewerSnapshotReusedCursor
  | ResumeBarrierMismatch
  | HeartbeatMismatch
  | InvalidSnapshotEntry
  | ForbiddenSnapshotEntry
  | InvalidBaseDomain
  | SnapshotRemoval
  | SnapshotDuplicate
  | SnapshotTooLarge
  | MutationBeforeSnapshot
  | DuplicateMutation
  | RevisionGap
  | InvalidCredentialDelta
  | InvalidVBucketDelta
  | InvalidTTL
  | UnexpectedNegativeTTL
  | RegistryTooLarge
  | UnknownWatchEvent

text \<open>A duration that is present, valid and positive.\<close>

definition cacheTTL :: "pb_Duration option \<Rightarrow> duration option" where
  "cacheTTL ttl =
     (case ttl of
        None \<Rightarrow> None
      | Some d \<Rightarrow> if \<not> CheckValid d then None else if AsDuration d \<le> 0 then None else Some (AsDuration d))"

definition baseHostDeltaDomain :: "(string \<Rightarrow> bool) \<Rightarrow> BaseHostDelta option \<Rightarrow> string option" where
  "baseHostDeltaDomain psl delta =
     (case delta of None \<Rightarrow> None | Some d \<Rightarrow> normalizeBaseDomain psl (bd_BaseHost d))"

text \<open>The effect of a delta on the cache of its entity: the new cache, and an error if any.\<close>

definition applyCacheDelta ::
  "time \<Rightarrow> (string, 'v cached) localCache \<Rightarrow> string \<Rightarrow> bool \<Rightarrow> pb_Duration option \<Rightarrow> uint64
     \<Rightarrow> (string, 'v cached) localCache \<times> watch_error option" where
  "applyCacheDelta now cache0 key remove negativeTtl revision =
     (let (present, cache) = GetIfPresent now cache0 key; hot = (present \<noteq> None) in
      if remove then
        (case cacheTTL negativeTtl of
           None \<Rightarrow> (Invalidate cache key, Some InvalidTTL)
         | Some ttl \<Rightarrow>
             (if hot
              then cache_Set now cache key \<lparr>ce_value = None, ce_Found = False, ce_Revision = revision, ce_TTL = ttl\<rparr> ttl
              else cache, None))
      else if negativeTtl \<noteq> None then (cache, Some UnexpectedNegativeTTL)
      else (if hot then Invalidate cache key else cache, None))"

definition applyEntityLocked ::
  "(string \<Rightarrow> bool) \<Rightarrow> time \<Rightarrow> ('c, 'b) client \<Rightarrow> watch_payload \<Rightarrow> uint64 \<Rightarrow> ('c, 'b) client \<times> watch_error option" where
  "applyEntityLocked psl now c event revision =
     (case event of
        WatchEvent_Credentials None \<Rightarrow> (c, Some InvalidCredentialDelta)
      | WatchEvent_Credentials (Some d) \<Rightarrow>
          if cd_AccessKeyId d = [] then (c, Some InvalidCredentialDelta)
          else (let (cache, err) = applyCacheDelta now (c_credentials c) (cd_AccessKeyId d)
                                     (cd_Remove d) (cd_NegativeTtl d) revision
                in (c\<lparr>c_credentials := cache\<rparr>, err))
      | WatchEvent_BaseHost delta \<Rightarrow>
          (case (delta, baseHostDeltaDomain psl delta) of
             (Some d, Some domain) \<Rightarrow>
               if bd_Remove d then (c\<lparr>c_baseHosts := AList.delete domain (c_baseHosts c)\<rparr>, None)
               else if map_of (c_baseHosts c) domain = None
                       \<and> int (length (c_baseHosts c)) \<ge> c_baseHostMax c
                    then (c, Some RegistryTooLarge)
               else (c\<lparr>c_baseHosts := AList.update domain revision (c_baseHosts c)\<rparr>, None)
           | _ \<Rightarrow> (c, Some InvalidBaseDomain))
      | WatchEvent_Vbucket None \<Rightarrow> (c, Some InvalidVBucketDelta)
      | WatchEvent_Vbucket (Some d) \<Rightarrow>
          if vd_AccessKeyId d = [] \<or> vd_BucketName d = [] then (c, Some InvalidVBucketDelta)
          else (let (cache, err) = applyCacheDelta now (c_vbuckets c)
                                     (vbucketCacheKey (vd_AccessKeyId d) (vd_BucketName d))
                                     (vd_Remove d) (vd_NegativeTtl d) revision
                in (c\<lparr>c_vbuckets := cache\<rparr>, err))
      | _ \<Rightarrow> (c, Some UnknownWatchEvent))"

definition beginSnapshot :: "time \<Rightarrow> ('c, 'b) client \<Rightarrow> uint64 \<Rightarrow> string \<Rightarrow> ('c, 'b) client \<times> watch_error option" where
  "beginSnapshot now c revision cursor =
     (if c_snapshot c \<noteq> None then (c, Some NestedSnapshotBegin)
      else if revision = 0 \<or> cursor \<noteq> [] \<or> revision < c_revision c then (c, Some InvalidSnapshotBegin)
      else (let c1 = transitionLocked now c StateSynchronizing
            in (c1\<lparr>c_barrierRequired := True,
                   c_credentials := InvalidateAll (c_credentials c1),
                   c_vbuckets := InvalidateAll (c_vbuckets c1),
                   c_snapshot := Some \<lparr>ss_revision = revision,
                     ss_expectedCursor = (if revision = c_revision c1 then c_cursor c1 else []),
                     ss_previousCursor = c_cursor c1, ss_baseHosts = []\<rparr>\<rparr>, None)))"

definition clearRequired :: "('c, 'b) client \<Rightarrow> ('c, 'b) client" where
  "clearRequired c =
     (if c_requiredRevision c \<noteq> 0 \<and> c_revision c \<ge> c_requiredRevision c
      then c\<lparr>c_requiredRevision := 0\<rparr> else c)"

definition synchronizationBarrier ::
  "time \<Rightarrow> ('c, 'b) client \<Rightarrow> uint64 \<Rightarrow> string \<Rightarrow> ('c, 'b) client \<times> watch_error option" where
  "synchronizationBarrier now c revision cursor =
     (if revision = 0 \<or> cursor = [] then (c, Some InvalidSynchronizationBarrier)
      else case c_snapshot c of
        Some snap \<Rightarrow>
          if revision \<noteq> ss_revision snap then (c, Some BarrierRevisionMismatch)
          else if ss_expectedCursor snap \<noteq> [] \<and> cursor \<noteq> ss_expectedCursor snap
            then (c, Some SameRevisionCursorChanged)
          else if ss_revision snap > c_revision c \<and> ss_previousCursor snap \<noteq> [] \<and> cursor = ss_previousCursor snap
            then (c, Some NewerSnapshotReusedCursor)
          else (let c1 = c\<lparr>c_baseHosts := ss_baseHosts snap, c_snapshot := None,
                           c_revision := revision, c_cursor := cursor, c_barrierRequired := False\<rparr>;
                    c2 = clearRequired c1
                in (if c_requiredRevision c2 = 0 then transitionLocked now c2 StateReady
                    else transitionLocked now c2 StateSynchronizing, None))
      | None \<Rightarrow>
          if revision \<noteq> c_revision c \<or> cursor \<noteq> c_cursor c then (c, Some ResumeBarrierMismatch)
          else (let c1 = c\<lparr>c_barrierRequired := False\<rparr>
                in (if c_requiredRevision c1 = 0 \<or> c_revision c1 \<ge> c_requiredRevision c1
                    then transitionLocked now (c1\<lparr>c_requiredRevision := 0\<rparr>) StateReady
                    else transitionLocked now c1 StateSynchronizing, None)))"

definition snapshotEntry ::
  "(string \<Rightarrow> bool) \<Rightarrow> ('c, 'b) client \<Rightarrow> snapshotState \<Rightarrow> watch_payload \<Rightarrow> uint64 \<Rightarrow> string
     \<Rightarrow> ('c, 'b) client \<times> watch_error option" where
  "snapshotEntry psl c snap event revision cursor =
     (if revision = 0 \<or> revision > ss_revision snap \<or> cursor \<noteq> [] then (c, Some InvalidSnapshotEntry)
      else case event of
        WatchEvent_BaseHost delta \<Rightarrow>
          (case (delta, baseHostDeltaDomain psl delta) of
             (Some d, Some domain) \<Rightarrow>
               if bd_Remove d then (c, Some SnapshotRemoval)
               else if map_of (ss_baseHosts snap) domain \<noteq> None then (c, Some SnapshotDuplicate)
               else if int (length (ss_baseHosts snap)) \<ge> c_baseHostMax c then (c, Some SnapshotTooLarge)
               else (c\<lparr>c_snapshot := Some (snap\<lparr>ss_baseHosts := AList.update domain revision (ss_baseHosts snap)\<rparr>)\<rparr>, None)
           | _ \<Rightarrow> (c, Some InvalidBaseDomain))
      | _ \<Rightarrow> (c, Some ForbiddenSnapshotEntry))"

definition acceptMutation :: "time \<Rightarrow> ('c, 'b) client \<Rightarrow> uint64 \<Rightarrow> string \<Rightarrow> ('c, 'b) client" where
  "acceptMutation now c revision cursor =
     (let c2 = c\<lparr>c_revision := revision, c_cursor := cursor\<rparr>
      in if c_requiredRevision c2 \<noteq> 0 \<and> c_revision c2 \<ge> c_requiredRevision c2
         then (let c3 = c2\<lparr>c_requiredRevision := 0\<rparr>
               in if \<not> c_barrierRequired c3 then transitionLocked now c3 StateReady else c3)
         else c2)"

definition liveMutation ::
  "(string \<Rightarrow> bool) \<Rightarrow> time \<Rightarrow> ('c, 'b) client \<Rightarrow> watch_payload \<Rightarrow> uint64 \<Rightarrow> string
     \<Rightarrow> ('c, 'b) client \<times> watch_error option" where
  "liveMutation psl now c event revision cursor =
     (if c_revision c = 0 \<or> c_cursor c = [] then (c, Some MutationBeforeSnapshot)
      else if revision \<le> c_revision c
        then (transitionLocked now c StateDisconnected, Some DuplicateMutation)
      else if revision \<noteq> c_revision c + 1 \<or> cursor = [] \<or> cursor = c_cursor c
        then (transitionLocked now
                (c\<lparr>c_metrics := (c_metrics c)\<lparr>m_watchGaps := m_watchGaps (c_metrics c) + 1\<rparr>, c_lastGap := revision\<rparr>)
                StateDisconnected, Some RevisionGap)
      else case applyEntityLocked psl now c event revision of
        (c1, Some err) \<Rightarrow> (transitionLocked now c1 StateDisconnected, Some err)
      | (c1, None) \<Rightarrow> (acceptMutation now c1 revision cursor, None))"

definition processLocked ::
  "(string \<Rightarrow> bool) \<Rightarrow> time \<Rightarrow> ('c, 'b) client \<Rightarrow> watch_payload \<Rightarrow> uint64 \<Rightarrow> string
     \<Rightarrow> ('c, 'b) client \<times> watch_error option" where
  "processLocked psl now c event revision cursor =
     (if c_state c \<noteq> StateReady \<and> c_state c \<noteq> StateSynchronizing then (c, Some ErrUnsynchronized)
      else case event of
        WatchEvent_SnapshotBegin \<Rightarrow> beginSnapshot now c revision cursor
      | WatchEvent_SynchronizationBarrier \<Rightarrow> synchronizationBarrier now c revision cursor
      | WatchEvent_Heartbeat \<Rightarrow>
          if c_snapshot c \<noteq> None \<or> revision \<noteq> c_revision c \<or> cursor = [] \<or> cursor \<noteq> c_cursor c
          then (c, Some HeartbeatMismatch) else (c, None)
      | _ \<Rightarrow>
          (case c_snapshot c of
             Some snap \<Rightarrow> snapshotEntry psl c snap event revision cursor
           | None \<Rightarrow> liveMutation psl now c event revision cursor))"

text \<open>An error of an event that was not empty takes the client out of service.\<close>

definition processWatch ::
  "(string \<Rightarrow> bool) \<Rightarrow> time \<Rightarrow> ('c, 'b) client \<Rightarrow> WatchEvent option \<Rightarrow> ('c, 'b) client \<times> watch_error option" where
  "processWatch psl now c delta =
     (case delta of
        None \<Rightarrow> (c, Some EmptyWatchEvent)
      | Some w \<Rightarrow>
          (case we_Event w of
             None \<Rightarrow> (c, Some EmptyWatchEvent)
           | Some event \<Rightarrow>
               (case processLocked psl now c event (we_Revision w) (we_Cursor w) of
                  (c1, None) \<Rightarrow> (c1, None)
                | (c1, Some err) \<Rightarrow>
                    (transitionLocked now (c1\<lparr>c_barrierRequired := True\<rparr>) StateDisconnected, Some err))))"

section \<open>Facts about transitions\<close>

named_theorems client_simps "how the operations of the client change its fields"

lemma transitionLocked_fields [simp]:
  "c_revision (transitionLocked now c st) = c_revision c"
  "c_cursor (transitionLocked now c st) = c_cursor c"
  "c_snapshot (transitionLocked now c st) = c_snapshot c"
  "c_requiredRevision (transitionLocked now c st) = c_requiredRevision c"
  "c_baseHosts (transitionLocked now c st) = c_baseHosts c"
  "c_baseHostMax (transitionLocked now c st) = c_baseHostMax c"
  "c_barrierRequired (transitionLocked now c st) = c_barrierRequired c"
  "c_connected (transitionLocked now c st) = c_connected c"
  "c_resync (transitionLocked now c st) = c_resync c"
  "c_credentials (transitionLocked now c st) = c_credentials c"
  "c_vbuckets (transitionLocked now c st) = c_vbuckets c"
  by (simp_all add: transitionLocked_def Let_def)

lemma transitionLocked_state [client_simps]:
  "c_state (transitionLocked now c st) =
     (if c_state c = StateShutdown then StateShutdown else st)"
  by (simp add: transitionLocked_def Let_def)

text \<open>The epoch counts how often the client has left the ready state.\<close>

lemma transitionLocked_epoch [client_simps]:
  "c_epoch (transitionLocked now c st) =
     (if c_state c = StateReady \<and> st \<noteq> StateReady then c_epoch c + 1 else c_epoch c)"
  by (simp add: transitionLocked_def Let_def)

section \<open>Deltas and coherent caches\<close>

abbreviation "cache_coherent \<equiv> local_cache.coherent"

lemma coherent_GetIfPresent:
  "cache_coherent P cache \<Longrightarrow> GetIfPresent now cache key = (r, cache') \<Longrightarrow>
   cache_coherent P cache' \<and> (\<forall>e. r = Some e \<longrightarrow> P key e)"
  using local_cache.coherent_get [of P cache now key] local_cache.coherent_get_result [of P cache now key]
  by auto

lemma cacheTTL_positive: "cacheTTL d = Some ttl \<Longrightarrow> 0 < ttl"
  by (auto simp: cacheTTL_def split: option.splits if_splits)

text \<open>
  An accepted delta moves a cache from one predicate to the next: the values of other keys carry
  over, and the key of the delta has no value or a negative one.
\<close>

lemma applyCacheDelta_accepted:
  assumes "cache_coherent P cache"
    and "applyCacheDelta now cache key remove negativeTtl revision = (cache', None)"
    and other: "\<And>k e. k \<noteq> key \<Longrightarrow> P k e \<Longrightarrow> Q k e"
    and removed: "\<And>ttl. remove \<Longrightarrow> Q key \<lparr>ce_value = None, ce_Found = False, ce_Revision = revision, ce_TTL = ttl\<rparr>"
  shows "cache_coherent Q cache'"
proof -
  obtain r c1 where g: "GetIfPresent now cache key = (r, c1)" by fastforce
  have c1: "cache_coherent P c1" using coherent_GetIfPresent [OF assms(1) g] by simp
  have valid: "wf_cache cache" using assms(1) by (simp add: local_cache.coherent_def)
  have miss: "entry_live c1 t key = None" if "r = None" for t
    using local_cache.get_miss [OF valid, of now key t] that g by simp
  show ?thesis
  proof (cases remove)
    case True
    with assms(2) g obtain ttl where ttl: "cacheTTL negativeTtl = Some ttl"
      and c': "cache' = (if r \<noteq> None then cache_Set now c1 key \<lparr>ce_value = None, ce_Found = False, ce_Revision = revision, ce_TTL = ttl\<rparr> ttl else c1)"
      by (auto simp: applyCacheDelta_def Let_def split: option.splits)
    have "0 < ttl" using ttl by (rule cacheTTL_positive)
    then have "cache_coherent Q (cache_Set now c1 key \<lparr>ce_value = None, ce_Found = False, ce_Revision = revision, ce_TTL = ttl\<rparr> ttl)"
      using c1 True other removed by (blast intro: local_cache.coherent_replace)
    with c' c1 other show ?thesis
      by (cases r) (auto intro: local_cache.coherent_change [of P c1 key Q] simp: miss)
  next
    case False
    with assms(2) g have "cache' = (if r \<noteq> None then Invalidate c1 key else c1)"
      by (auto simp: applyCacheDelta_def Let_def split: option.splits if_splits)
    with c1 other show ?thesis
      by (cases r) (auto intro: local_cache.coherent_drop_key local_cache.coherent_change [of P c1 key Q] simp: miss)
  qed
qed

lemma applyCacheDelta_rejected:
  assumes "cache_coherent P cache"
    and "applyCacheDelta now cache key remove negativeTtl revision = (cache', Some err)"
  shows "cache_coherent P cache'"
proof -
  obtain r c1 where g: "GetIfPresent now cache key = (r, c1)" by fastforce
  have "cache_coherent P c1" using coherent_GetIfPresent [OF assms(1) g] by simp
  moreover have "cache' = Invalidate c1 key \<or> cache' = c1"
    using assms(2) g by (auto simp: applyCacheDelta_def Let_def split: option.splits if_splits)
  ultimately show ?thesis by (auto intro: local_cache.coherent_drop_key)
qed

lemma coherent_InvalidateAll: "cache_coherent P cache \<Longrightarrow> cache_coherent Q (InvalidateAll cache)"
  by (rule local_cache.coherent_drop_all) (simp add: local_cache.coherent_def)

lemma coherent_weaken:
  "cache_coherent P cache \<Longrightarrow> (\<And>k e. P k e \<Longrightarrow> Q k e) \<Longrightarrow> cache_coherent Q cache"
  by (auto simp: local_cache.coherent_def)

lemma coherent_empty: "wf_cache cache \<Longrightarrow> lc_entries cache = [] \<Longrightarrow> cache_coherent P cache"
  by (simp add: local_cache.coherent_def entry_live_def)

lemma InvalidateAll_entries [simp]: "lc_entries (InvalidateAll cache) = []"
  by (simp add: InvalidateAll_def)

end
