(* ===== verification/Lookup.thy ===== *)
theory Lookup
  imports Sync_Client
begin

text \<open>
  Lookups of the control-plane client (\<^verbatim>\<open>controlplane/lookup.go\<close>, with
  \<^verbatim>\<open>loadGroup\<close> of \<^verbatim>\<open>controlplane/cache.go\<close> and \<^verbatim>\<open>controlplane/errors.go\<close>).
  A lookup runs concurrently with the watch and with other lookups, and other operations may
  come between any two of its critical sections. So a lookup is a sequence of steps, one per critical
  section, on the state of the client and of the loads in progress.
  The lookups of credentials and of mappings differ in the cache, the admission control, the
  counter of rejections, and the response; these are the fields of \<open>entity\<close>.
\<close>

section \<open>Errors\<close>

text \<open>The codes of a failed call that the program tells apart.\<close>

datatype grpc_code =
    code_NotFound
  | code_PermissionDenied
  | code_Unauthenticated
  | code_ResourceExhausted
  | code_AlreadyExists
  | code_Aborted
  | code_FailedPrecondition
  | code_InvalidArgument
  | code_Other string

text \<open>The categories that the HTTP server tells apart.\<close>

datatype resolver_error =
    ErrResolverNotFound
  | ErrResolverUnavailable
  | ErrResolverThrottled
  | ErrResolverInvalidResponse
  | ErrVBucketAccessDenied
  | ErrVBucketAlreadyOwnedByYou
  | ErrVBucketAlreadyExists
  | ErrInvalidVBucketName
  | ErrInvalidVBucketArgument

text \<open>
  The errors of the client: its own values, a cancelled context, a failed call, an error that
  already carries a category, and any other error.
\<close>

datatype client_error =
    errNotConnected
  | ErrUnsynchronized_lookup
  | ErrNotFound
  | ErrMissRejected
  | ErrRevisionRace
  | ErrContext
  | ErrRPC grpc_code
  | ErrCategory resolver_error
  | ErrOther

definition mapResolverError :: "client_error \<Rightarrow> resolver_error" where
  "mapResolverError err =
     (case err of
        errNotConnected \<Rightarrow> ErrResolverUnavailable
      | ErrUnsynchronized_lookup \<Rightarrow> ErrResolverUnavailable
      | ErrNotFound \<Rightarrow> ErrResolverNotFound
      | ErrMissRejected \<Rightarrow> ErrResolverThrottled
      | ErrRevisionRace \<Rightarrow> ErrResolverUnavailable
      | ErrContext \<Rightarrow> ErrResolverUnavailable
      | ErrRPC code \<Rightarrow>
          (case code of
             code_NotFound \<Rightarrow> ErrResolverNotFound
           | code_PermissionDenied \<Rightarrow> ErrVBucketAccessDenied
           | code_Unauthenticated \<Rightarrow> ErrVBucketAccessDenied
           | code_ResourceExhausted \<Rightarrow> ErrResolverThrottled
           | _ \<Rightarrow> ErrResolverUnavailable)
      | ErrCategory e \<Rightarrow> e
      | ErrOther \<Rightarrow> ErrResolverInvalidResponse)"

definition mapCreateVBucketError :: "grpc_code \<Rightarrow> client_error" where
  "mapCreateVBucketError code =
     (case code of
        code_AlreadyExists \<Rightarrow> ErrCategory ErrVBucketAlreadyOwnedByYou
      | code_Aborted \<Rightarrow> ErrCategory ErrVBucketAlreadyExists
      | code_FailedPrecondition \<Rightarrow> ErrCategory ErrVBucketAlreadyExists
      | code_InvalidArgument \<Rightarrow> ErrCategory ErrInvalidVBucketArgument
      | code_PermissionDenied \<Rightarrow> ErrCategory ErrVBucketAccessDenied
      | code_Unauthenticated \<Rightarrow> ErrCategory ErrVBucketAccessDenied
      | code_NotFound \<Rightarrow> ErrCategory ErrVBucketAccessDenied
      | _ \<Rightarrow> ErrRPC code)"

definition mapListVBucketsError :: "grpc_code \<Rightarrow> client_error" where
  "mapListVBucketsError code =
     (case code of
        code_PermissionDenied \<Rightarrow> ErrCategory ErrVBucketAccessDenied
      | code_Unauthenticated \<Rightarrow> ErrCategory ErrVBucketAccessDenied
      | code_NotFound \<Rightarrow> ErrCategory ErrVBucketAccessDenied
      | _ \<Rightarrow> ErrRPC code)"

section \<open>Resolution stamps\<close>

record ResolutionStamp =
  rs_Revision :: uint64
  rs_Epoch :: uint64

definition lookupSnapshot :: "('c, 'b) client \<Rightarrow> client_error + uint64 \<times> uint64" where
  "lookupSnapshot c =
     (if c_state c \<noteq> StateReady then Inl ErrUnsynchronized_lookup
      else if \<not> c_connected c then Inl errNotConnected
      else Inr (c_revision c, c_epoch c))"

definition stillCurrent :: "('c, 'b) client \<Rightarrow> uint64 \<Rightarrow> uint64 \<Rightarrow> bool" where
  "stillCurrent c revision epoch =
     (c_state c = StateReady \<and> c_revision c = revision \<and> c_epoch c = epoch)"

definition BeginResolution :: "('c, 'b) client \<Rightarrow> client_error + ResolutionStamp" where
  "BeginResolution c =
     bindE (lookupSnapshot c) (\<lambda>(revision, epoch). Inr \<lparr>rs_Revision = revision, rs_Epoch = epoch\<rparr>)"

definition ValidateResolution :: "('c, 'b) client \<Rightarrow> ResolutionStamp \<Rightarrow> client_error + unit" where
  "ValidateResolution c stamp =
     (if \<not> stillCurrent c (rs_Revision stamp) (rs_Epoch stamp) then Inl ErrRevisionRace else Inr ())"

section \<open>Revisions of unary responses\<close>

definition checkUnaryRevision ::
  "time \<Rightarrow> ('c, 'b) client \<Rightarrow> uint64 \<Rightarrow> uint64 \<Rightarrow> ('c, 'b) client \<times> client_error option" where
  "checkUnaryRevision now c revision expected =
     (if revision = expected then (c, None)
      else if c_state c = StateShutdown then (c, Some ErrRevisionRace)
      else if revision < expected then (requestResyncLocked now c, Some ErrRevisionRace)
      else if revision > c_revision c then
        (let c1 = c\<lparr>c_requiredRevision := max (c_requiredRevision c) revision\<rparr>
         in (if c_state c1 = StateReady then transitionLocked now c1 StateSynchronizing else c1,
             Some ErrRevisionRace))
      else (c, Some ErrRevisionRace))"

text \<open>The critical section at the end of \<^verbatim>\<open>CreateVBucket\<close>, on the revision of the response.\<close>

definition createCommitted ::
  "time \<Rightarrow> ('c, 'b) client \<Rightarrow> uint64 option \<Rightarrow> uint64 \<Rightarrow> ('c, 'b) client \<times> client_error option" where
  "createCommitted now c resp revision =
     (case resp of
        None \<Rightarrow> (requestResyncLocked now c, Some ErrRevisionRace)
      | Some r \<Rightarrow>
          if r = 0 \<or> r \<le> revision then (requestResyncLocked now c, Some ErrRevisionRace)
          else if c_state c = StateShutdown then (c, None)
          else if r > c_revision c then
            (let c1 = c\<lparr>c_requiredRevision := max (c_requiredRevision c) r\<rparr>
             in (if c_state c1 = StateReady \<or> c_state c1 = StateSynchronizing
                 then transitionLocked now c1 StateSynchronizing else c1, None))
          else (c, None))"

definition bump :: "(metricCounters \<Rightarrow> metricCounters) \<Rightarrow> ('c, 'b) client \<Rightarrow> ('c, 'b) client" where
  "bump f c = c\<lparr>c_metrics := f (c_metrics c)\<rparr>"

definition observeRPC :: "time \<Rightarrow> time \<Rightarrow> bool \<Rightarrow> string \<Rightarrow> ('c, 'b) client \<Rightarrow> ('c, 'b) client" where
  "observeRPC start now failed code =
     bump (\<lambda>m. m\<lparr>m_rpcCalls := m_rpcCalls m + 1,
                 m_rpcLatencyNanos := word_of_int (max 0 (now - start)),
                 m_rpcFailures := (if failed then m_rpcFailures m + 1 else m_rpcFailures m),
                 m_lastRPCCode := code\<rparr>)"

section \<open>Base hosts\<close>

text \<open>The first suffix of the labels, the longest, that is in the registry.\<close>

fun longest_suffix :: "base_hosts \<Rightarrow> string list \<Rightarrow> string" where
  "longest_suffix reg [] = []"
| "longest_suffix reg (l # ls) =
     (if map_of reg (Join (l # ls) ''.'') \<noteq> None then Join (l # ls) ''.'' else longest_suffix reg ls)"

definition LookupBaseHost :: "('c, 'b) client \<Rightarrow> string \<Rightarrow> (client_error + string \<times> bool) \<times> ('c, 'b) client" where
  "LookupBaseHost c hostname =
     (if c_state c \<noteq> StateReady then (Inl ErrUnsynchronized_lookup, c)
      else let host = ToLower (TrimSuffix (TrimSpace hostname) ''.'') in
        if ParseIP host then (Inr ([], False), c)
        else if length host = 0 \<or> 253 < length host then (Inl (ErrCategory ErrInvalidVBucketArgument), c)
        else if \<not> list_all valid_label (Split host ''.'') then (Inl (ErrCategory ErrInvalidVBucketArgument), c)
        else (let best = longest_suffix (c_baseHosts c) (Split host ''.'')
              in if best = [] then (Inr ([], False), bump (\<lambda>m. m\<lparr>m_cacheMisses := m_cacheMisses m + 1\<rparr>) c)
                 else (Inr (best, True), bump (\<lambda>m. m\<lparr>m_cacheHits := m_cacheHits m + 1\<rparr>) c)))"

section \<open>Cached lookups\<close>

record ('c, 'b, 'v, 'r) entity =
  ent_cache :: "('c, 'b) client \<Rightarrow> (string, 'v cached) localCache"
  ent_put :: "(string, 'v cached) localCache \<Rightarrow> ('c, 'b) client \<Rightarrow> ('c, 'b) client"
  ent_admission :: "('c, 'b) client \<Rightarrow> missAdmission"
  ent_put_admission :: "missAdmission \<Rightarrow> ('c, 'b) client \<Rightarrow> ('c, 'b) client"
  ent_rejected :: "metricCounters \<Rightarrow> metricCounters"
  ent_revision :: "'r \<Rightarrow> uint64"
  ent_parse :: "'r \<Rightarrow> 'v cached option"

text \<open>
  A load: the call that the lookups of a key share. It waits for the response, has checked the
  revision of the response and parsed it, or is done. \<open>ld_open\<close> says that further lookups may still join it.
\<close>

datatype 'v load_phase =
    LoadCalling
  | LoadChecked "'v cached"
  | LoadDone "client_error + 'v cached"

record 'v load =
  ld_key :: string
  ld_revision :: uint64
  ld_epoch :: uint64
  ld_phase :: "'v load_phase"
  ld_open :: bool

text \<open>
  A lookup in progress: at the beginning, before the cache, after a hit, after a miss, waiting for
  a load (which it shares or has started), about to check whether a second attempt is due, and finished.
  The first flag allows that attempt.
\<close>

datatype 'v lookup_pc =
    LkBegin bool
  | LkCache bool uint64 uint64
  | LkHit bool uint64 uint64 "'v cached"
  | LkMiss bool uint64 uint64
  | LkWait bool bool uint64 nat
  | LkCheck bool uint64 "'v cached"
  | LkRace
  | LkReturn "client_error + 'v"

record 'v lookup =
  lk_key :: string
  lk_pc :: "'v lookup_pc"

text \<open>The answer that a cached value stands for.\<close>

definition answer :: "'v cached \<Rightarrow> client_error + 'v" where
  "answer e =
     (if \<not> ce_Found e then Inl ErrNotFound
      else case ce_value e of Some v \<Rightarrow> Inr v | None \<Rightarrow> Inl ErrOther)"

text \<open>
  After an error or a check that failed: one more attempt if this was the first one and the client
  is ready, which is a critical section of its own.
\<close>

definition race :: "bool \<Rightarrow> 'v lookup_pc" where
  "race retry = (if retry then LkRace else LkReturn (Inl ErrRevisionRace))"

definition find_open :: "'v load list \<Rightarrow> string \<Rightarrow> nat option" where
  "find_open loads key = find (\<lambda>i. ld_open (loads ! i) \<and> ld_key (loads ! i) = key) [0..<length loads]"

definition coalesced :: "bool \<Rightarrow> ('c, 'b) client \<Rightarrow> ('c, 'b) client" where
  "coalesced shared c =
     (if shared then bump (\<lambda>m. m\<lparr>m_loadCoalesced := m_loadCoalesced m + 1\<rparr>) c else c)"

text \<open>The effect of the next critical section of a lookup; a finished lookup and one that waits for a load stay.\<close>

definition lookup_step ::
  "('c, 'b, 'v, 'r) entity \<Rightarrow> time \<Rightarrow> ('c, 'b) client \<Rightarrow> 'v load list \<Rightarrow> string \<Rightarrow> 'v lookup_pc
     \<Rightarrow> ('c, 'b) client \<times> 'v load list \<times> 'v lookup_pc" where
  "lookup_step E now c loads key pc =
     (case pc of
        LkBegin retry \<Rightarrow>
          (case lookupSnapshot c of
             Inl err \<Rightarrow> (c, loads, if retry \<and> err = ErrRevisionRace then LkRace else LkReturn (Inl err))
           | Inr (revision, epoch) \<Rightarrow> (c, loads, LkCache retry revision epoch))
      | LkCache retry revision epoch \<Rightarrow>
          (case GetIfPresent now (ent_cache E c) key of
             (Some e, cache) \<Rightarrow>
               if ce_Revision e \<le> revision
               then (bump (\<lambda>m. m\<lparr>m_cacheHits := m_cacheHits m + 1\<rparr>) (ent_put E cache c), loads,
                     LkHit retry revision epoch e)
               else (bump (\<lambda>m. m\<lparr>m_cacheMisses := m_cacheMisses m + 1\<rparr>) (ent_put E cache c), loads,
                     LkMiss retry revision epoch)
           | (None, cache) \<Rightarrow>
               (bump (\<lambda>m. m\<lparr>m_cacheMisses := m_cacheMisses m + 1\<rparr>) (ent_put E cache c), loads,
                LkMiss retry revision epoch))
      | LkHit retry revision epoch e \<Rightarrow>
          if \<not> stillCurrent c revision epoch then (c, loads, race retry)
          else (if ce_Found e then c else bump (\<lambda>m. m\<lparr>m_negativeHits := m_negativeHits m + 1\<rparr>) c,
                loads, LkReturn (answer e))
      | LkMiss retry revision epoch \<Rightarrow>
          (case find_open loads key of
             Some i \<Rightarrow> (c, loads, LkWait retry True epoch i)
           | None \<Rightarrow>
               (case acquire (ent_admission E c) now of
                  (False, adm) \<Rightarrow>
                    (bump (ent_rejected E) (ent_put_admission E adm c), loads, LkReturn (Inl ErrMissRejected))
                | (True, adm) \<Rightarrow>
                    (ent_put_admission E adm c,
                     loads @ [\<lparr>ld_key = key, ld_revision = revision, ld_epoch = epoch,
                               ld_phase = LoadCalling, ld_open = True\<rparr>],
                     LkWait retry False epoch (length loads))))
      | LkWait retry shared epoch i \<Rightarrow>
          (case ld_phase (loads ! i) of
             LoadDone r \<Rightarrow>
               if ld_open (loads ! i) then (c, loads, pc)
               else (coalesced shared c, loads,
                     case r of
                       Inl err \<Rightarrow> if retry \<and> err = ErrRevisionRace then LkRace else LkReturn (Inl err)
                     | Inr e \<Rightarrow> LkCheck retry epoch e)
           | _ \<Rightarrow> (c, loads, pc))
      | LkCheck retry epoch e \<Rightarrow>
          (c, loads, if \<not> stillCurrent c (ce_Revision e) epoch then race retry else LkReturn (answer e))
      | LkRace \<Rightarrow> (c, loads, if Ready c then LkBegin False else LkReturn (Inl ErrRevisionRace))
      | LkReturn r \<Rightarrow> (c, loads, pc))"

text \<open>A lookup whose context is done stops waiting.\<close>

definition lookup_cancel :: "('c, 'b) client \<Rightarrow> 'v lookup_pc \<Rightarrow> ('c, 'b) client \<times> 'v lookup_pc" where
  "lookup_cancel c pc =
     (case pc of
        LkWait retry shared epoch i \<Rightarrow> (coalesced shared c, LkReturn (Inl ErrContext))
      | _ \<Rightarrow> (c, pc))"

section \<open>Loads\<close>

text \<open>
  The critical section that publishes a loaded value: it is stored only if the client is still ready
  in the same epoch and at the revision at which the load began; a cached value that is not older wins.
\<close>

definition publish ::
  "('c, 'b, 'v, 'r) entity \<Rightarrow> time \<Rightarrow> ('c, 'b) client \<Rightarrow> string \<Rightarrow> uint64 \<Rightarrow> uint64 \<Rightarrow> 'v cached
     \<Rightarrow> ('c, 'b) client \<times> (client_error + 'v cached)" where
  "publish E now c key revision epoch candidate =
     (if c_state c \<noteq> StateReady \<or> c_epoch c \<noteq> epoch then (c, Inl ErrRevisionRace)
      else (let (newer1, cache1) = GetIfPresent now (ent_cache E c) key;
                c1 = ent_put E cache1 c in
        if (case newer1 of
              Some e \<Rightarrow> ce_Revision e > ce_Revision candidate \<and> ce_Revision e = c_revision c
            | None \<Rightarrow> False)
        then (c1, Inr (the newer1))
        else if ce_Revision candidate > c_revision c
        then (requestResyncLocked now c1, Inl ErrRevisionRace)
        else if c_revision c \<noteq> revision \<or> ce_Revision candidate \<noteq> c_revision c
        then (c1, Inl ErrRevisionRace)
        else (let (newer2, cache2) = GetIfPresent now (ent_cache E c1) key;
                  c2 = ent_put E cache2 c1 in
          if (case newer2 of Some e \<Rightarrow> ce_Revision e \<ge> ce_Revision candidate | None \<Rightarrow> False)
          then (c2, Inr (the newer2))
          else (ent_put E (cache_Set now cache2 key candidate (ce_TTL candidate)) c2, Inr candidate))))"

definition load_release :: "('c, 'b, 'v, 'r) entity \<Rightarrow> ('c, 'b) client \<Rightarrow> ('c, 'b) client" where
  "load_release E c = ent_put_admission E (release (ent_admission E c)) c"

text \<open>
  The response of the call arrives: \<open>start\<close> is when the call began, \<open>code\<close> the name of its
  status. The revision of the response is checked under the lock, then the response is parsed.
\<close>

definition load_response ::
  "('c, 'b, 'v, 'r) entity \<Rightarrow> time \<Rightarrow> time \<Rightarrow> string \<Rightarrow> grpc_code + 'r option \<Rightarrow> ('c, 'b) client \<Rightarrow> 'v load
     \<Rightarrow> ('c, 'b) client \<times> 'v load" where
  "load_response E start now code rpc c0 ld =
     (let c = observeRPC start now (isl rpc) code c0;
          done = (\<lambda>c r. (load_release E c, ld\<lparr>ld_phase := LoadDone r\<rparr>))
      in case rpc of
           Inl status \<Rightarrow> done c (Inl (ErrRPC status))
         | Inr None \<Rightarrow> done c (Inl ErrOther)
         | Inr (Some resp) \<Rightarrow>
             (case checkUnaryRevision now c (ent_revision E resp) (ld_revision ld) of
                (c1, Some err) \<Rightarrow> done c1 (Inl err)
              | (c1, None) \<Rightarrow>
                  (case ent_parse E resp of
                     None \<Rightarrow> done c1 (Inl ErrOther)
                   | Some candidate \<Rightarrow> (c1, ld\<lparr>ld_phase := LoadChecked candidate\<rparr>))))"

definition load_publish ::
  "('c, 'b, 'v, 'r) entity \<Rightarrow> time \<Rightarrow> 'v cached \<Rightarrow> ('c, 'b) client \<Rightarrow> 'v load \<Rightarrow> ('c, 'b) client \<times> 'v load" where
  "load_publish E now candidate c ld =
     (let (c1, r) = publish E now c (ld_key ld) (ld_revision ld) (ld_epoch ld) candidate
      in (load_release E c1, ld\<lparr>ld_phase := LoadDone r\<rparr>))"

text \<open>A load that is done leaves the group before the lookups that wait for it go on.\<close>

definition load_close :: "'v load \<Rightarrow> 'v load" where
  "load_close ld = ld\<lparr>ld_open := False\<rparr>"

end
