(* ===== verification/S3_Middleware.thy ===== *)
theory S3_Middleware
  imports S3_Isolation Go_XML Lookup
begin

text \<open>
  The request pipeline in front of the proxy: the middleware \<^verbatim>\<open>S3Auth\<close> and the handlers it dispatches
  to (\<^verbatim>\<open>s3_middleware.go\<close>, \<^verbatim>\<open>resolver_errors.go\<close>, and the control-plane handlers of \<^verbatim>\<open>s3_proxy.go\<close>).
  A resolver is what its methods answer during one request. The clock, the bytes of the body and the
  decoding of XML are arguments. Logging is left out.
\<close>

section \<open>Answers\<close>

datatype answer_body = NoBody | BodyXML "xml_token list" | BodyBytes string

record s3_answer =
  an_status :: nat
  an_header :: http_header
  an_body :: answer_body

text \<open>\<^verbatim>\<open>xml.Encode\<close> of a field of text: the element around its text.\<close>

definition xml_tag :: "string \<Rightarrow> xml_name" where
  "xml_tag l = \<lparr>n_Space = [], n_Local = l\<rparr>"

definition xml_element :: "string \<Rightarrow> xml_attr list \<Rightarrow> xml_token list \<Rightarrow> xml_token list" where
  "xml_element l attrs content = StartElement (xml_tag l) attrs # content @ [EndElement (xml_tag l)]"

definition xml_leaf :: "string \<Rightarrow> string \<Rightarrow> xml_token list" where
  "xml_leaf l s = xml_element l [] [CharData s]"

definition s3XMLNamespace :: string where
  "s3XMLNamespace = ''http://s3.amazonaws.com/doc/2006-03-01/''"

definition xmlns_attr :: "xml_attr" where
  "xmlns_attr = \<lparr>a_Name = xml_tag ''xmlns'', a_Value = s3XMLNamespace\<rparr>"

definition s3ErrorResponse :: "string \<Rightarrow> string \<Rightarrow> xml_token list" where
  "s3ErrorResponse code message = xml_element ''Error'' [] (xml_leaf ''Code'' code @ xml_leaf ''Message'' message)"

definition writeS3Error :: "http_header \<Rightarrow> s3_error \<Rightarrow> s3_answer" where
  "writeS3Error header e =
     \<lparr>an_status = e_status e, an_header = header_Set header ''Content-Type'' ''application/xml'',
      an_body = BodyXML (s3ErrorResponse (e_code e) (e_message e))\<rparr>"

section \<open>Errors of a resolver\<close>

text \<open>An error is the list of the sentinels that it wraps; \<^verbatim>\<open>errors.Is\<close> looks for one of them.\<close>

datatype sentinel = Category resolver_error | DeadlineExceeded | Canceled

type_synonym go_error = "sentinel list"

definition errors_Is :: "go_error \<Rightarrow> sentinel \<Rightarrow> bool" where
  "errors_Is err target = (target \<in> set err)"

definition resolverError :: "go_error \<Rightarrow> bool \<Rightarrow> s3_error" where
  "resolverError err credentials =
     (if errors_Is err (Category ErrResolverNotFound) \<and> credentials then
        s3Error 403 ''InvalidAccessKeyId'' ''The AWS Access Key Id you provided does not exist in our records.''
      else if errors_Is err (Category ErrResolverNotFound) \<or> errors_Is err (Category ErrVBucketAccessDenied) then
        s3Error 403 ''AccessDenied'' ''Access Denied''
      else if errors_Is err (Category ErrResolverThrottled) then
        s3Error 503 ''SlowDown'' ''Please reduce your request rate.''
      else if errors_Is err (Category ErrResolverUnavailable) \<or> errors_Is err DeadlineExceeded \<or> errors_Is err Canceled then
        s3Error 503 ''ServiceUnavailable'' ''Control plane is temporarily unavailable.''
      else if errors_Is err (Category ErrInvalidVBucketArgument) then s3Error 400 ''InvalidRequest'' ''Invalid request.''
      else s3Error 502 ''InternalError'' ''Invalid control-plane response.'')"

definition createVBucketError :: "go_error \<Rightarrow> s3_error" where
  "createVBucketError err =
     (if errors_Is err (Category ErrVBucketAlreadyOwnedByYou) then
        s3Error 409 ''BucketAlreadyOwnedByYou'' ''Your previous request to create the named bucket succeeded and you already own it.''
      else if errors_Is err (Category ErrVBucketAlreadyExists) then
        s3Error 409 ''BucketAlreadyExists'' ''The requested bucket name is not available.''
      else if errors_Is err (Category ErrInvalidVBucketName) then
        s3Error 400 ''InvalidBucketName'' ''The specified bucket is not valid.''
      else if errors_Is err (Category ErrInvalidVBucketArgument) then
        s3Error 400 ''InvalidArgument'' ''Invalid bucket creation argument.''
      else if errors_Is err (Category ErrVBucketAccessDenied) then s3Error 403 ''AccessDenied'' ''Access Denied''
      else resolverError err False)"

section \<open>The resolver\<close>

record VirtualCredentials =
  SecretKey :: string
  IAMPolicy :: "Policy option"

text \<open>A creation date is none where the time is the zero time.\<close>

record ListedVBucket =
  lb_Name :: string
  lb_CreationDate :: "civil option"

record Resolver =
  rv_BeginResolution :: "go_error + ResolutionStamp"
  rv_ValidateResolution :: "ResolutionStamp \<Rightarrow> go_error + unit"
  rv_LookupCredentials :: "string \<Rightarrow> go_error + VirtualCredentials option"
  rv_LookupBaseHost :: "string \<Rightarrow> go_error + string \<times> bool"
  rv_LookupVBucket :: "string \<Rightarrow> string \<Rightarrow> go_error + VBucketConfig option"
  rv_CreateVBucket :: "string \<Rightarrow> string \<Rightarrow> string \<Rightarrow> go_error + unit"
  rv_ListVBuckets :: "string \<Rightarrow> go_error + ListedVBucket list"

section \<open>Bodies\<close>

definition maxCreateBucketConfigBytes :: nat where
  "maxCreateBucketConfigBytes = 2 ^ 20"

definition maxCompleteMultipartBytes :: nat where
  "maxCompleteMultipartBytes = 2 ^ 20"

definition parseCreateBucketLocationConstraint :: "(io_reader \<Rightarrow> xml_decoder) \<Rightarrow> io_reader option \<Rightarrow> string option" where
  "parseCreateBucketLocationConstraint decode body =
     (case body of
        None \<Rightarrow> Some []
      | Some b \<Rightarrow>
          (case readBounded maxCreateBucketConfigBytes b of
             None \<Rightarrow> None
           | Some data \<Rightarrow>
               if TrimSpace data = [] then Some []
               else case Unmarshal (Some ''CreateBucketConfiguration'') (Some ''LocationConstraint'') (d_tokens (decode (bytes_reader data))) of
                      None \<Rightarrow> None
                    | Some (name, constraint) \<Rightarrow>
                        if n_Local name \<noteq> ''CreateBucketConfiguration'' then None else Some (TrimSpace constraint)))"

definition withRequestMetadata :: "S3OperationPlan \<Rightarrow> bool \<Rightarrow> string \<Rightarrow> S3OperationPlan" where
  "withRequestMetadata plan isVHost locationConstraint =
     plan\<lparr>p_isVHost := isVHost, p_locationConstraint := locationConstraint\<rparr>"

definition withCompleteMultipartBody ::
  "(io_reader \<Rightarrow> xml_decoder) \<Rightarrow> S3OperationPlan \<Rightarrow> io_reader option \<Rightarrow> S3OperationPlan option" where
  "withCompleteMultipartBody decode plan body =
     (if p_bodyKind plan \<noteq> bodyCompleteMultipartXML then Some plan
      else case body of
        None \<Rightarrow> None
      | Some b \<Rightarrow>
          (case readBounded maxCompleteMultipartBytes b of
             None \<Rightarrow> None
           | Some data \<Rightarrow>
               if TrimSpace data = [] then None
               else case Unmarshal (Some ''CompleteMultipartUpload'') None (d_tokens (decode (bytes_reader data))) of
                      None \<Rightarrow> None
                    | Some (name, _) \<Rightarrow>
                        if n_Local name \<noteq> ''CompleteMultipartUpload'' then None
                        else Some (plan\<lparr>p_controlBody := data, p_contentLength := int (length data)\<rparr>)))"

section \<open>The middleware\<close>

text \<open>The text of an error that two answers pass on to the client is an argument.\<close>

definition verifyFailure :: "(verify_error \<Rightarrow> string) \<Rightarrow> verify_error \<Rightarrow> s3_error" where
  "verifyFailure errText e =
     (case e of
        errRequestTimeTooSkewed \<Rightarrow>
          s3Error 403 ''RequestTimeTooSkewed'' ''The difference between the request time and server time is too large.''
      | errUnsupportedPayloadHash \<Rightarrow> s3Error 400 ''InvalidRequest'' ''x-amz-content-sha256 must be UNSIGNED-PAYLOAD.''
      | errUnsignedAmzHeader \<Rightarrow>
          s3Error 403 ''AccessDenied'' ''There were headers present in the request which were not signed.''
      | errUnsupportedAuthMode \<Rightarrow> s3Error 400 ''InvalidRequest'' (errText e)
      | errSignature \<Rightarrow>
          s3Error 403 ''SignatureDoesNotMatch'' ''The request signature we calculated does not match the signature you provided.'')"

definition accessDenied :: s3_error where
  "accessDenied = s3Error 403 ''AccessDenied'' ''Access Denied''"

record request_context =
  x_vbConfig :: "VBucketConfig option"
  x_authInfo :: AuthInfo
  x_plan :: S3OperationPlan

text \<open>What surrounds a request: the readings of the clock, the bound on the skew, the body, the decoder and the error texts.\<close>

record request_env =
  v_verifyTime :: civil
  v_authorizeTime :: civil
  v_maxSkew :: int
  v_body :: "io_reader option"
  v_decode :: "io_reader \<Rightarrow> xml_decoder"
  v_parseText :: "string \<Rightarrow> string"
  v_verifyText :: "verify_error \<Rightarrow> string"

definition of_error :: "('e \<Rightarrow> 'f) \<Rightarrow> 'e + 'a \<Rightarrow> 'f + 'a" where
  "of_error f m = (case m of Inl e \<Rightarrow> Inl (f e) | Inr x \<Rightarrow> Inr x)"

definition authenticate ::
  "Resolver \<Rightarrow> request_env \<Rightarrow> http_request \<Rightarrow> s3_error + ResolutionStamp \<times> AuthInfo \<times> VirtualCredentials" where
  "authenticate res v r =
     (let authHeaders = header_Values (r_Header r) ''Authorization'' in
      if authHeaders = [] \<or> hd authHeaders = [] then Inl (s3Error 403 ''AccessDenied'' ''Missing Authorization header'')
      else if length authHeaders \<noteq> 1 then
        Inl (s3Error 400 ''AuthorizationHeaderMalformed'' ''Authorization header must occur exactly once'')
      else
        bindE (of_option (s3Error 400 ''AuthorizationHeaderMalformed'' (v_parseText v (hd authHeaders)))
          (parseAuthorizationHeader (hd authHeaders))) (\<lambda>authInfo.
        bindE (of_error (\<lambda>e. resolverError e False) (rv_BeginResolution res)) (\<lambda>stamp.
        bindE (of_error (\<lambda>e. resolverError e True) (rv_LookupCredentials res (ai_AccessKeyID authInfo))) (\<lambda>virtualCreds.
        bindE (of_option (resolverError [Category ErrResolverInvalidResponse] True) virtualCreds) (\<lambda>creds.
        bindE (of_error (verifyFailure (v_verifyText v))
          (verifySignatureAtTime r (Some authInfo) (SecretKey creds) (v_verifyTime v) (v_maxSkew v))) (\<lambda>_.
        Inr (stamp, authInfo, creds)))))))"

definition planRequest :: "Resolver \<Rightarrow> request_env \<Rightarrow> http_request \<Rightarrow> s3_error + S3OperationPlan" where
  "planRequest res v r =
     bindE (of_error (\<lambda>e. resolverError e False) (resolveBucket (rv_LookupBaseHost res) r)) (\<lambda>(bucket, objectKey, isVHost).
     bindE (guardE (bucket \<noteq> [] \<longrightarrow> isValidBucketName bucket) (s3Error 400 ''InvalidBucketName'' ''The specified bucket is not valid.'')) (\<lambda>_.
     bindE (of_error (\<lambda>_. s3Error 400 ''InvalidRequest'' ''The requested S3 operation or request shape is not supported.'')
       (planS3Operation r bucket objectKey)) (\<lambda>plan0.
     let plan = withRequestMetadata plan0 isVHost [] in
     if p_bodyKind plan = bodyCompleteMultipartXML then
       of_option (s3Error 400 ''InvalidRequest'' ''Invalid CompleteMultipartUpload body.'') (withCompleteMultipartBody (v_decode v) plan (v_body v))
     else Inr plan)))"

definition resolveMapping ::
  "Resolver \<Rightarrow> request_env \<Rightarrow> string \<Rightarrow> S3OperationPlan \<Rightarrow> s3_error + VBucketConfig option \<times> string \<times> S3OperationPlan" where
  "resolveMapping res v accessKey plan =
     (if p_kind plan = operationListBuckets then Inr (None, [], plan)
      else if p_kind plan = operationCreateBucket then
        bindE (of_option (s3Error 400 ''InvalidArgument'' ''Invalid CreateBucketConfiguration'')
          (parseCreateBucketLocationConstraint (v_decode v) (v_body v))) (\<lambda>locationConstraint.
        Inr (None, locationConstraint, withRequestMetadata plan (p_isVHost plan) locationConstraint))
      else
        bindE (of_error (\<lambda>e. resolverError e False) (rv_LookupVBucket res accessKey (p_bucket plan))) (\<lambda>vbConfig.
        Inr (vbConfig, [], plan)))"

definition S3Auth :: "Resolver \<Rightarrow> request_env \<Rightarrow> http_request \<Rightarrow> s3_error + request_context" where
  "S3Auth res v r =
     bindE (authenticate res v r) (\<lambda>(stamp, authInfo, creds).
     bindE (planRequest res v r) (\<lambda>plan0.
     bindE (resolveMapping res v (ai_AccessKeyID authInfo) plan0) (\<lambda>(vbConfig, locationConstraint, plan1).
     let plan = withAuthorizationContext plan1 locationConstraint (v_authorizeTime v) in
     bindE (of_error (\<lambda>_. accessDenied) (AuthorizeS3Plan (IAMPolicy creds) (Some plan))) (\<lambda>_.
     bindE (of_error (\<lambda>e. resolverError e False) (rv_ValidateResolution res stamp)) (\<lambda>_.
     Inr \<lparr>x_vbConfig = vbConfig, x_authInfo = authInfo, x_plan = plan\<rparr>)))))"

section \<open>Control-plane handlers\<close>

definition createBucketResult :: "string \<Rightarrow> xml_token list" where
  "createBucketResult location = xml_element ''CreateBucketResult'' [xmlns_attr] (xml_leaf ''Location'' location)"

definition handleCreateVBucket :: "Resolver \<Rightarrow> request_context \<Rightarrow> s3_answer" where
  "handleCreateVBucket res x =
     (let bucket = p_bucket (x_plan x) in
      case rv_CreateVBucket res (ai_AccessKeyID (x_authInfo x)) bucket (p_locationConstraint (x_plan x)) of
        Inl err \<Rightarrow> writeS3Error [] (createVBucketError err)
      | Inr _ \<Rightarrow>
          \<lparr>an_status = 200,
           an_header = header_Set (header_Set [] ''Content-Type'' ''application/xml'') ''Location'' (''/'' @ bucket),
           an_body = BodyXML (createBucketResult (''/'' @ bucket))\<rparr>)"

definition unix_epoch :: civil where
  "unix_epoch = \<lparr>tm_year = 1970, tm_month = 1, tm_day = 1, tm_hour = 0, tm_min = 0, tm_sec = 0, tm_nsec = 0\<rparr>"

definition formatS3CreationDate :: "civil option \<Rightarrow> string" where
  "formatS3CreationDate t = time_Format layout_rfc3339 (case t of None \<Rightarrow> unix_epoch | Some c \<Rightarrow> c)"

fun listEntries :: "string list \<Rightarrow> ListedVBucket list \<Rightarrow> (string \<times> string) list option" where
  "listEntries seen [] = Some []"
| "listEntries seen (b # bs) =
     (if \<not> isValidBucketName (lb_Name b) \<or> lb_CreationDate b = None \<or> lb_Name b \<in> set seen then None
      else map_option (Cons (lb_Name b, formatS3CreationDate (lb_CreationDate b))) (listEntries (lb_Name b # seen) bs))"

definition listAllMyBucketsResult :: "string \<Rightarrow> (string \<times> string) list \<Rightarrow> xml_token list" where
  "listAllMyBucketsResult owner entries =
     xml_element ''ListAllMyBucketsResult'' [xmlns_attr]
       (xml_element ''Owner'' [] (xml_leaf ''ID'' owner @ xml_leaf ''DisplayName'' owner)
        @ xml_element ''Buckets'' []
            (concat (map (\<lambda>(name, date). xml_element ''Bucket'' [] (xml_leaf ''Name'' name @ xml_leaf ''CreationDate'' date)) entries)))"

definition handleListVBuckets :: "Resolver \<Rightarrow> request_context \<Rightarrow> s3_answer" where
  "handleListVBuckets res x =
     (case rv_ListVBuckets res (ai_AccessKeyID (x_authInfo x)) of
        Inl err \<Rightarrow> writeS3Error [] (resolverError err False)
      | Inr buckets \<Rightarrow>
          (case listEntries [] buckets of
             None \<Rightarrow> writeS3Error [] (s3Error 502 ''InternalError'' ''Invalid control-plane bucket listing'')
           | Some entries \<Rightarrow>
               \<lparr>an_status = 200, an_header = header_Set [] ''Content-Type'' ''application/xml'',
                an_body = BodyXML (listAllMyBucketsResult (ai_AccessKeyID (x_authInfo x)) entries)\<rparr>))"

end
