(* ===== verification/S3_Response.thy ===== *)
theory S3_Response
  imports S3_Middleware
begin

text \<open>
  The virtualization of responses (\<^verbatim>\<open>s3_response.go\<close>): which headers of the origin reach the client, how an error of
  the origin is reported, and how an XML document of the origin is rewritten token by token. The decoder of XML is an
  argument. The parsed endpoint of the mapping, which \<^verbatim>\<open>proxyS3Request\<close> has dereferenced before, is an argument too.
\<close>

section \<open>Error codes\<close>

definition maxS3ControlResponseBytes :: nat where
  "maxS3ControlResponseBytes = 2 ^ 20"

definition code_letter :: "char \<Rightarrow> bool" where
  "code_letter c = (65 \<le> byte c \<and> byte c \<le> 90 \<or> 97 \<le> byte c \<and> byte c \<le> 122)"

definition structurallySafeUpstreamErrorCode :: "string \<Rightarrow> bool" where
  "structurallySafeUpstreamErrorCode s =
     (case s of [] \<Rightarrow> False
      | c # cs \<Rightarrow> code_letter c \<and> length cs \<le> 127 \<and> list_all (\<lambda>d. code_letter d \<or> is_digit d) cs)"

definition isS3RedirectStatus :: "nat \<Rightarrow> bool" where
  "isS3RedirectStatus status = (status \<in> set [301, 302, 303, 307, 308])"

definition readBoundedControlXML :: "io_reader \<Rightarrow> string option" where
  "readBoundedControlXML r = readBounded maxS3ControlResponseBytes r"

definition validateUpstreamErrorDocument :: "(io_reader \<Rightarrow> xml_decoder) \<Rightarrow> io_reader \<Rightarrow> string option" where
  "validateUpstreamErrorDocument decode body =
     (case readBoundedControlXML body of
        None \<Rightarrow> None
      | Some data \<Rightarrow>
          (case Unmarshal None (Some ''Code'') (d_tokens (decode (bytes_reader data))) of
             None \<Rightarrow> None
           | Some (name, code) \<Rightarrow>
               if n_Local name \<noteq> ''Error'' then None
               else if n_Space name \<noteq> [] \<and> n_Space name \<noteq> s3XMLNamespace then None
               else if \<not> structurallySafeUpstreamErrorCode (TrimSpace code) then None
               else Some (TrimSpace code)))"

definition allowedByStatus :: "nat \<Rightarrow> string list" where
  "allowedByStatus status =
     (if status = 400 then [''EntityTooSmall'', ''InvalidArgument'', ''InvalidPart'', ''InvalidPartOrder'', ''InvalidRequest'', ''MalformedXML'']
      else if status = 403 then [''AccessDenied'', ''InvalidObjectState'']
      else if status = 409 then [''BucketNotEmpty'', ''OperationAborted'']
      else if status = 412 then [''PreconditionFailed'']
      else if status = 416 then [''InvalidRange'']
      else if status = 429 then [''SlowDown'']
      else if status = 500 then [''InternalError'']
      else if status = 503 then [''SlowDown'', ''ServiceUnavailable'']
      else [])"

definition multipartKinds :: "S3OperationKind list" where
  "multipartKinds = [operationUploadPart, operationListParts, operationCompleteMultipartUpload, operationAbortMultipartUpload]"

definition compatibleNotFoundCode :: "S3OperationKind \<Rightarrow> string \<Rightarrow> bool" where
  "compatibleNotFoundCode kind code =
     (if code = ''NoSuchBucket'' then True
      else if code = ''NoSuchUpload'' then kind \<in> set multipartKinds
      else if code = ''NoSuchVersion'' then
        kind \<in> set [operationGetObjectVersion, operationHeadObjectVersion, operationDeleteObjectVersion, operationCopyObject]
      else if code = ''NoSuchKey'' then
        kind \<in> set ([operationGetObject, operationGetObjectVersion, operationHeadObject, operationHeadObjectVersion,
          operationPutObject, operationCopyObject, operationDeleteObject, operationDeleteObjectVersion,
          operationCreateMultipartUpload] @ multipartKinds)
      else False)"

definition safeErrorCodeForStatus :: "S3OperationKind \<Rightarrow> nat \<Rightarrow> string" where
  "safeErrorCodeForStatus kind status =
     (if status = 400 then ''InvalidRequest''
      else if status = 403 then ''AccessDenied''
      else if status = 404 then
        (if kind \<in> set [operationHeadBucket, operationListObjects, operationListObjectsV2, operationListMultipartUploads] then ''NoSuchBucket''
         else if kind \<in> set multipartKinds then ''NoSuchUpload''
         else ''NoSuchKey'')
      else if status = 409 then ''OperationAborted''
      else if status = 412 then ''PreconditionFailed''
      else if status = 416 then ''InvalidRange''
      else if status = 429 \<or> status = 503 then ''SlowDown''
      else ''InternalError'')"

definition safeUpstreamErrorCode :: "S3OperationKind \<Rightarrow> nat \<Rightarrow> string \<Rightarrow> string" where
  "safeUpstreamErrorCode kind status upstream =
     (if status = 404 \<and> compatibleNotFoundCode kind upstream then upstream
      else if upstream \<in> set (allowedByStatus status) then upstream
      else safeErrorCodeForStatus kind status)"

section \<open>Headers\<close>

definition normalizedPathPrefix :: "string \<Rightarrow> string" where
  "normalizedPathPrefix prefix = (if prefix = [] then [] else TrimSuffix prefix ''/'' @ ''/'')"

definition containsSensitiveBackendValue :: "parsed_url \<Rightarrow> VBucketConfig \<Rightarrow> string \<Rightarrow> bool" where
  "containsSensitiveBackendValue endpoint cfg v =
     (list_ex (\<lambda>sensitive. sensitive \<noteq> [] \<and> Contains (ToLower v) (ToLower sensitive))
        [RealEndpoint cfg, u_Host endpoint, url_Hostname endpoint]
      \<or> list_ex (\<lambda>sensitive. sensitive \<noteq> [] \<and> Contains v sensitive)
        [RealBucket cfg, RealAccessKey cfg, RealSecretKey cfg, RealRegion cfg, PathPrefix cfg, normalizedPathPrefix (PathPrefix cfg)])"

definition userControlledResponseHeader :: "string \<Rightarrow> bool" where
  "userControlledResponseHeader name =
     (HasPrefix (ToLower name) ''x-amz-meta-'' \<or> HasPrefix (ToLower name) ''x-amz-checksum-''
      \<or> name \<in> set [''Cache-Control'', ''Content-Disposition'', ''Content-Encoding'', ''Content-Language'',
                      ''Content-Type'', ''Etag'', ''Expires'', ''Last-Modified''])"

definition safeS3ResponseHeader :: "string \<Rightarrow> bool" where
  "safeS3ResponseHeader name =
     (HasPrefix (ToLower name) ''x-amz-meta-'' \<or> HasPrefix (ToLower name) ''x-amz-checksum-''
      \<or> name \<in> set [''Accept-Ranges'', ''Cache-Control'', ''Content-Disposition'', ''Content-Encoding'',
          ''Content-Language'', ''Content-Length'', ''Content-Range'', ''Content-Type'', ''Etag'',
          ''Expires'', ''Last-Modified'', ''Retry-After'', ''X-Amz-Delete-Marker'',
          ''X-Amz-Expiration'', ''X-Amz-Missing-Meta'', ''X-Amz-Object-Lock-Legal-Hold'',
          ''X-Amz-Object-Lock-Mode'', ''X-Amz-Object-Lock-Retain-Until-Date'',
          ''X-Amz-Replication-Status'', ''X-Amz-Restore'', ''X-Amz-Server-Side-Encryption'',
          ''X-Amz-Server-Side-Encryption-Customer-Algorithm'', ''X-Amz-Server-Side-Encryption-Customer-Key-Md5'',
          ''X-Amz-Storage-Class'', ''X-Amz-Tagging-Count'', ''X-Amz-Version-Id'', ''X-Amz-Copy-Source-Version-Id''])"

definition versionHeader :: "string \<Rightarrow> bool" where
  "versionHeader name = (name = ''X-Amz-Version-Id'' \<or> name = ''X-Amz-Copy-Source-Version-Id'')"

definition stageValue ::
  "parsed_url \<Rightarrow> VBucketConfig \<Rightarrow> S3OperationPlan \<Rightarrow> nat \<Rightarrow> string \<Rightarrow> string \<Rightarrow> http_header \<Rightarrow> token_error + http_header" where
  "stageValue endpoint cfg plan status canonical v0 staged =
     bindE (if versionHeader canonical then encodeOpaqueToken (Some cfg) ''version'' v0 else Inr v0) (\<lambda>v.
       let allowUserCollision =
         200 \<le> status \<and> status < 300 \<and> operationReadsObject (p_kind plan) \<and> userControlledResponseHeader canonical
       in if \<not> allowUserCollision \<and> containsSensitiveBackendValue endpoint cfg v then Inr staged
          else Inr (header_Add staged canonical v))"

fun stageValues ::
  "parsed_url \<Rightarrow> VBucketConfig \<Rightarrow> S3OperationPlan \<Rightarrow> nat \<Rightarrow> string \<Rightarrow> string list \<Rightarrow> http_header \<Rightarrow> token_error + http_header" where
  "stageValues endpoint cfg plan status canonical [] staged = Inr staged"
| "stageValues endpoint cfg plan status canonical (v # vs) staged =
     bindE (stageValue endpoint cfg plan status canonical v staged) (stageValues endpoint cfg plan status canonical vs)"

fun stageHeaders ::
  "(string \<Rightarrow> bool) \<Rightarrow> parsed_url \<Rightarrow> VBucketConfig \<Rightarrow> S3OperationPlan \<Rightarrow> nat \<Rightarrow> http_header \<Rightarrow> http_header \<Rightarrow> token_error + http_header" where
  "stageHeaders hopByHop endpoint cfg plan status [] staged = Inr staged"
| "stageHeaders hopByHop endpoint cfg plan status ((name, vs) # src) staged =
     (let canonical = CanonicalHeaderKey name in
      if hopByHop canonical \<or> \<not> safeS3ResponseHeader canonical then stageHeaders hopByHop endpoint cfg plan status src staged
      else bindE (stageValues endpoint cfg plan status canonical vs staged) (stageHeaders hopByHop endpoint cfg plan status src))"

definition addHeaders :: "http_header \<Rightarrow> http_header \<Rightarrow> http_header" where
  "addHeaders dst staged = foldl (\<lambda>d (name, vs). foldl (\<lambda>d v. header_Add d name v) d vs) dst staged"

definition copySafeResponseHeaders ::
  "parsed_url \<Rightarrow> http_header \<Rightarrow> http_header \<Rightarrow> VBucketConfig \<Rightarrow> S3OperationPlan \<Rightarrow> nat \<Rightarrow> token_error + http_header" where
  "copySafeResponseHeaders endpoint src dst cfg plan status =
     bindE (stageHeaders (hopByHopHeaderSet src) endpoint cfg plan status src []) (\<lambda>staged. Inr (addHeaders dst staged))"

definition dropHeaders :: "(string \<Rightarrow> bool) \<Rightarrow> http_header \<Rightarrow> http_header" where
  "dropHeaders discard headers = foldl (\<lambda>h name. if discard (ToLower name) then header_Del h name else h) headers (keys headers)"

definition dropDiscardedBodyHeaders :: "http_header \<Rightarrow> http_header" where
  "dropDiscardedBodyHeaders headers =
     dropHeaders (\<lambda>lower. lower \<in> set [''content-length'', ''content-md5'', ''content-encoding'', ''content-range'', ''digest'']) headers"

definition dropTransformedRepresentationHeaders :: "http_header \<Rightarrow> S3ResponseProfile \<Rightarrow> http_header" where
  "dropTransformedRepresentationHeaders headers profile =
     (let h = dropDiscardedBodyHeaders headers in
      if profile \<notin> set [responseListObjects, responseListMultipartUploads, responseListParts] then h
      else dropHeaders (\<lambda>lower. lower = ''etag'' \<or> HasPrefix lower ''x-amz-checksum-'') h)"

section \<open>Schemas\<close>

datatype responseTextTransform =
    textTransformNone | textTransformVirtualBucket | textTransformVirtualKey | textTransformVirtualLocation
  | textTransformNewContinuationToken | textTransformEchoContinuationToken | textTransformNewUploadToken
  | textTransformEchoUploadToken | textTransformVirtualKeyEcho | textTransformPlainQueryEcho
  | textTransformNumericQueryEcho | textTransformNonNegativeInteger | textTransformBoolean | textTransformRequiredNonempty

record responseFieldRule =
  fr_transform :: responseTextTransform
  fr_required :: bool
  fr_identityContainer :: bool

definition transforms :: "responseTextTransform \<Rightarrow> responseFieldRule" where
  "transforms t = \<lparr>fr_transform = t, fr_required = False, fr_identityContainer = False\<rparr>"

definition requires :: "responseTextTransform \<Rightarrow> responseFieldRule" where
  "requires t = \<lparr>fr_transform = t, fr_required = True, fr_identityContainer = False\<rparr>"

definition identityRule :: responseFieldRule where
  "identityRule = \<lparr>fr_transform = textTransformNone, fr_required = False, fr_identityContainer = True\<rparr>"

definition expectedResponseRoot :: "S3ResponseProfile \<Rightarrow> string" where
  "expectedResponseRoot profile =
     (if profile = responseListObjects then ''ListBucketResult''
      else if profile = responseListMultipartUploads then ''ListMultipartUploadsResult''
      else if profile = responseCreateMultipart then ''InitiateMultipartUploadResult''
      else if profile = responseListParts then ''ListPartsResult''
      else if profile = responseCompleteMultipart then ''CompleteMultipartUploadResult''
      else if profile = responseCopyObject then ''CopyObjectResult''
      else [])"

definition responsePathSet :: "string \<Rightarrow> string list \<Rightarrow> string list" where
  "responsePathSet base paths = map (\<lambda>path. base @ ''/'' @ path) paths"

definition knownResponsePaths :: "S3ResponseProfile \<Rightarrow> string list" where
  "knownResponsePaths profile =
     (if profile = responseListObjects then
        responsePathSet ''ListBucketResult''
          [''KeyCount'', ''Contents'', ''Contents/LastModified'', ''Contents/ETag'', ''Contents/ChecksumAlgorithm'',
           ''Contents/ChecksumType'', ''Contents/Size'', ''Contents/StorageClass'', ''CommonPrefixes'']
      else if profile = responseListMultipartUploads then
        responsePathSet ''ListMultipartUploadsResult''
          [''Upload'', ''Upload/StorageClass'', ''Upload/Initiated'', ''Upload/ChecksumAlgorithm'', ''Upload/ChecksumType'', ''CommonPrefixes'']
      else if profile = responseCreateMultipart then
        responsePathSet ''InitiateMultipartUploadResult'' [''ChecksumAlgorithm'', ''ChecksumType'']
      else if profile = responseListParts then
        responsePathSet ''ListPartsResult''
          [''StorageClass'', ''ChecksumAlgorithm'', ''ChecksumType'', ''Part'', ''Part/PartNumber'', ''Part/LastModified'', ''Part/ETag'',
           ''Part/Size'', ''Part/ChecksumCRC32'', ''Part/ChecksumCRC32C'', ''Part/ChecksumCRC64NVME'', ''Part/ChecksumSHA1'', ''Part/ChecksumSHA256'']
      else if profile = responseCompleteMultipart then
        responsePathSet ''CompleteMultipartUploadResult''
          [''ChecksumCRC32'', ''ChecksumCRC32C'', ''ChecksumCRC64NVME'', ''ChecksumSHA1'', ''ChecksumSHA256'', ''ChecksumType'']
      else if profile = responseCopyObject then
        responsePathSet ''CopyObjectResult'' [''ChecksumCRC32'', ''ChecksumCRC32C'', ''ChecksumCRC64NVME'', ''ChecksumSHA1'', ''ChecksumSHA256'']
      else [])"

definition responseFieldRules :: "S3ResponseProfile \<Rightarrow> (string \<times> responseFieldRule) list" where
  "responseFieldRules profile =
     (if profile = responseListObjects then
        [(''ListBucketResult/Name'', transforms textTransformVirtualBucket),
         (''ListBucketResult/Prefix'', transforms textTransformVirtualKeyEcho),
         (''ListBucketResult/StartAfter'', transforms textTransformVirtualKeyEcho),
         (''ListBucketResult/Marker'', transforms textTransformVirtualKeyEcho),
         (''ListBucketResult/NextMarker'', transforms textTransformVirtualKey),
         (''ListBucketResult/CommonPrefixes/Prefix'', transforms textTransformVirtualKey),
         (''ListBucketResult/Contents/Key'', transforms textTransformVirtualKey),
         (''ListBucketResult/Delimiter'', transforms textTransformPlainQueryEcho),
         (''ListBucketResult/EncodingType'', transforms textTransformPlainQueryEcho),
         (''ListBucketResult/MaxKeys'', transforms textTransformNumericQueryEcho),
         (''ListBucketResult/IsTruncated'', transforms textTransformBoolean),
         (''ListBucketResult/ContinuationToken'', transforms textTransformEchoContinuationToken),
         (''ListBucketResult/NextContinuationToken'', transforms textTransformNewContinuationToken),
         (''ListBucketResult/Contents/Owner'', identityRule)]
      else if profile = responseListMultipartUploads then
        [(''ListMultipartUploadsResult/Bucket'', transforms textTransformVirtualBucket),
         (''ListMultipartUploadsResult/Prefix'', transforms textTransformVirtualKeyEcho),
         (''ListMultipartUploadsResult/KeyMarker'', transforms textTransformVirtualKeyEcho),
         (''ListMultipartUploadsResult/NextKeyMarker'', transforms textTransformVirtualKey),
         (''ListMultipartUploadsResult/CommonPrefixes/Prefix'', transforms textTransformVirtualKey),
         (''ListMultipartUploadsResult/Upload/Key'', transforms textTransformVirtualKey),
         (''ListMultipartUploadsResult/Delimiter'', transforms textTransformPlainQueryEcho),
         (''ListMultipartUploadsResult/EncodingType'', transforms textTransformPlainQueryEcho),
         (''ListMultipartUploadsResult/MaxUploads'', transforms textTransformNumericQueryEcho),
         (''ListMultipartUploadsResult/IsTruncated'', transforms textTransformBoolean),
         (''ListMultipartUploadsResult/UploadIdMarker'', transforms textTransformEchoUploadToken),
         (''ListMultipartUploadsResult/NextUploadIdMarker'', transforms textTransformNewUploadToken),
         (''ListMultipartUploadsResult/Upload/UploadId'', transforms textTransformNewUploadToken),
         (''ListMultipartUploadsResult/Upload/Owner'', identityRule),
         (''ListMultipartUploadsResult/Upload/Initiator'', identityRule)]
      else if profile = responseCreateMultipart then
        [(''InitiateMultipartUploadResult/Bucket'', requires textTransformVirtualBucket),
         (''InitiateMultipartUploadResult/Key'', requires textTransformVirtualKey),
         (''InitiateMultipartUploadResult/UploadId'', requires textTransformNewUploadToken)]
      else if profile = responseListParts then
        [(''ListPartsResult/Bucket'', requires textTransformVirtualBucket),
         (''ListPartsResult/Key'', requires textTransformVirtualKey),
         (''ListPartsResult/UploadId'', requires textTransformEchoUploadToken),
         (''ListPartsResult/PartNumberMarker'', requires textTransformNumericQueryEcho),
         (''ListPartsResult/NextPartNumberMarker'', transforms textTransformNonNegativeInteger),
         (''ListPartsResult/MaxParts'', requires textTransformNumericQueryEcho),
         (''ListPartsResult/IsTruncated'', requires textTransformBoolean),
         (''ListPartsResult/Owner'', identityRule),
         (''ListPartsResult/Initiator'', identityRule)]
      else if profile = responseCompleteMultipart then
        [(''CompleteMultipartUploadResult/Location'', requires textTransformVirtualLocation),
         (''CompleteMultipartUploadResult/Bucket'', requires textTransformVirtualBucket),
         (''CompleteMultipartUploadResult/Key'', requires textTransformVirtualKey),
         (''CompleteMultipartUploadResult/ETag'', requires textTransformRequiredNonempty)]
      else if profile = responseCopyObject then
        [(''CopyObjectResult/ETag'', requires textTransformRequiredNonempty),
         (''CopyObjectResult/LastModified'', requires textTransformRequiredNonempty)]
      else [])"

definition responseFieldRuleForPath :: "S3ResponseProfile \<Rightarrow> string \<Rightarrow> responseFieldRule option" where
  "responseFieldRuleForPath profile path = map_of (responseFieldRules profile) path"

definition knownResponsePath :: "S3ResponseProfile \<Rightarrow> string \<Rightarrow> bool" where
  "knownResponsePath profile path =
     (path = expectedResponseRoot profile \<or> path \<in> set (knownResponsePaths profile) \<or> responseFieldRuleForPath profile path \<noteq> None)"

definition responsePathIsContainer :: "S3ResponseProfile \<Rightarrow> string \<Rightarrow> bool" where
  "responsePathIsContainer profile path =
     (list_ex (\<lambda>candidate. HasPrefix candidate (path @ ''/'')) (knownResponsePaths profile)
      \<or> list_ex (\<lambda>(candidate, rule). candidate = path \<and> fr_identityContainer rule \<or> HasPrefix candidate (path @ ''/''))
          (responseFieldRules profile))"

section \<open>Transforms of text\<close>

definition urlEncoded :: "S3OperationPlan \<Rightarrow> bool" where
  "urlEncoded plan = (values_Get (p_query plan) ''encoding-type'' = ''url'')"

definition decodeField :: "S3OperationPlan \<Rightarrow> string \<Rightarrow> string option" where
  "decodeField plan s = (if urlEncoded plan then PathUnescape s else Some s)"

definition validateVirtualKeyEcho :: "string \<Rightarrow> string \<Rightarrow> S3OperationPlan \<Rightarrow> string \<Rightarrow> bool" where
  "validateVirtualKeyEcho path s plan pathPrefix =
     (let queryKey =
        (if path = ''ListBucketResult/Prefix'' \<or> path = ''ListMultipartUploadsResult/Prefix'' then ''prefix''
         else if path = ''ListBucketResult/Marker'' then ''marker''
         else if path = ''ListBucketResult/StartAfter'' then ''start-after''
         else if path = ''ListMultipartUploadsResult/KeyMarker'' then ''key-marker''
         else [])
      in if queryKey = [] then False
         else case decodeField plan s of
           None \<Rightarrow> False
         | Some decoded \<Rightarrow>
             (let asked = values_Get (p_query plan) queryKey;
                  expected = (if queryKey = ''prefix'' \<or> asked \<noteq> [] then pathPrefix @ asked else asked)
              in decoded = expected))"

definition validatePlainQueryEcho :: "string \<Rightarrow> string \<Rightarrow> S3OperationPlan \<Rightarrow> bool" where
  "validatePlainQueryEcho path s plan =
     (let queryKey =
        (if path = ''ListBucketResult/Delimiter'' \<or> path = ''ListMultipartUploadsResult/Delimiter'' then ''delimiter''
         else if path = ''ListBucketResult/EncodingType'' \<or> path = ''ListMultipartUploadsResult/EncodingType'' then ''encoding-type''
         else [])
      in if queryKey = [] then False
         else case (if queryKey = ''delimiter'' then decodeField plan s else Some s) of
           None \<Rightarrow> False
         | Some decoded \<Rightarrow> decoded = values_Get (p_query plan) queryKey)"

definition validateNumericQueryEcho :: "string \<Rightarrow> string \<Rightarrow> S3OperationPlan \<Rightarrow> bool" where
  "validateNumericQueryEcho path s plan =
     (let (queryKey, defaultValue) =
        (if path = ''ListBucketResult/MaxKeys'' then (''max-keys'', 1000)
         else if path = ''ListMultipartUploadsResult/MaxUploads'' then (''max-uploads'', 1000)
         else if path = ''ListPartsResult/PartNumberMarker'' then (''part-number-marker'', 0)
         else if path = ''ListPartsResult/MaxParts'' then (''max-parts'', 1000)
         else ([], 1000))
      in if queryKey = [] then False
         else case Atoi (TrimSpace s) of
           None \<Rightarrow> False
         | Some actual \<Rightarrow>
             0 \<le> actual
             \<and> (case map_of (p_query plan) queryKey of
                  Some requested \<Rightarrow> (case requested of v # _ \<Rightarrow> Atoi v = Some actual | [] \<Rightarrow> False)
                | None \<Rightarrow> actual = defaultValue))"

definition actualObjectKey :: "string \<Rightarrow> bool" where
  "actualObjectKey path = (path = ''ListBucketResult/Contents/Key'' \<or> path = ''ListMultipartUploadsResult/Upload/Key'')"

definition addressableKeyValue :: "string \<Rightarrow> bool" where
  "addressableKeyValue path =
     (actualObjectKey path
      \<or> path \<in> set [''ListBucketResult/NextMarker'', ''ListBucketResult/CommonPrefixes/Prefix'',
                      ''ListMultipartUploadsResult/NextKeyMarker'', ''ListMultipartUploadsResult/CommonPrefixes/Prefix''])"

definition virtualizeResponseKey :: "string \<Rightarrow> string \<Rightarrow> S3OperationPlan \<Rightarrow> string \<Rightarrow> string option" where
  "virtualizeResponseKey path s plan pathPrefix =
     (case decodeField plan s of
        None \<Rightarrow> None
      | Some decoded \<Rightarrow>
          let listing = p_responseProfile plan \<in> set [responseListObjects, responseListMultipartUploads];
              single = p_responseProfile plan \<in> set [responseCreateMultipart, responseListParts, responseCompleteMultipart];
              virtualKey = TrimPrefix decoded pathPrefix
          in if listing \<and> decoded = [] then Some []
             else if listing \<and> \<not> HasPrefix decoded pathPrefix then None
             else if single \<and> decoded \<noteq> pathPrefix @ p_objectKey plan then None
             else if actualObjectKey path \<and> virtualKey = [] then None
             else if addressableKeyValue path \<and> virtualKey \<noteq> [] \<and> \<not> validateVirtualObjectKey virtualKey then None
             else Some (stripListPathPrefix s pathPrefix (urlEncoded plan)))"

definition echoToken :: "VBucketConfig \<Rightarrow> string \<Rightarrow> string \<Rightarrow> string \<Rightarrow> bool \<Rightarrow> string option" where
  "echoToken cfg kind virtual s mayBeEmpty =
     (if virtual = [] then (if s = [] \<and> mayBeEmpty then Some [] else None)
      else case decodeOpaqueToken (Some cfg) kind virtual of
        Inl _ \<Rightarrow> None
      | Inr origin \<Rightarrow> if s \<noteq> origin then None else Some virtual)"

definition newToken :: "VBucketConfig \<Rightarrow> string \<Rightarrow> string \<Rightarrow> bool \<Rightarrow> string option" where
  "newToken cfg kind s mayBeEmpty =
     (if s = [] \<and> mayBeEmpty then Some []
      else case encodeOpaqueToken (Some cfg) kind s of Inl _ \<Rightarrow> None | Inr token \<Rightarrow> Some token)"

definition applyResponseTextTransform ::
  "responseTextTransform \<Rightarrow> string \<Rightarrow> string \<Rightarrow> S3OperationPlan \<Rightarrow> VBucketConfig \<Rightarrow> string \<Rightarrow> string \<Rightarrow> string option" where
  "applyResponseTextTransform transform path s plan cfg pathPrefix virtualLocation =
     (case transform of
        textTransformVirtualBucket \<Rightarrow> if TrimSpace s \<noteq> RealBucket cfg then None else Some (p_bucket plan)
      | textTransformVirtualKey \<Rightarrow> virtualizeResponseKey path s plan pathPrefix
      | textTransformVirtualLocation \<Rightarrow> if TrimSpace s = [] then None else Some virtualLocation
      | textTransformNewContinuationToken \<Rightarrow>
          newToken cfg ''continuation'' s (path = ''ListBucketResult/NextContinuationToken'')
      | textTransformEchoContinuationToken \<Rightarrow>
          echoToken cfg ''continuation'' (values_Get (p_query plan) ''continuation-token'') s (path = ''ListBucketResult/ContinuationToken'')
      | textTransformNewUploadToken \<Rightarrow>
          newToken cfg ''upload'' s (path = ''ListMultipartUploadsResult/NextUploadIdMarker'')
      | textTransformEchoUploadToken \<Rightarrow>
          echoToken cfg ''upload''
            (if values_Get (p_query plan) ''upload-id-marker'' = [] then values_Get (p_query plan) ''uploadId''
             else values_Get (p_query plan) ''upload-id-marker'')
            s (path = ''ListMultipartUploadsResult/UploadIdMarker'')
      | textTransformVirtualKeyEcho \<Rightarrow>
          if \<not> validateVirtualKeyEcho path s plan pathPrefix then None else virtualizeResponseKey path s plan pathPrefix
      | textTransformPlainQueryEcho \<Rightarrow> if \<not> validatePlainQueryEcho path s plan then None else Some s
      | textTransformNumericQueryEcho \<Rightarrow> if \<not> validateNumericQueryEcho path s plan then None else Some s
      | textTransformNonNegativeInteger \<Rightarrow>
          (case Atoi (TrimSpace s) of None \<Rightarrow> None | Some i \<Rightarrow> if i < 0 then None else Some s)
      | textTransformBoolean \<Rightarrow>
          if TrimSpace s \<noteq> ''true'' \<and> TrimSpace s \<noteq> ''false'' then None else Some (TrimSpace s)
      | textTransformRequiredNonempty \<Rightarrow> if TrimSpace s = [] then None else Some s
      | textTransformNone \<Rightarrow> Some s)"

definition virtualResponseLocation :: "S3OperationPlan \<Rightarrow> string" where
  "virtualResponseLocation plan =
     (let path = ''/'' @ awsURIEncode (p_objectKey plan) in if \<not> p_isVHost plan then ''/'' @ p_bucket plan @ path else path)"

end
