(* ===== verification/S3_Rewrite.thy ===== *)
theory S3_Rewrite
  imports S3_Response
begin

text \<open>
  The rewriting of XML responses and the response that the client is sent (\<^verbatim>\<open>rewriteNamespaceXML\<close> and
  \<^verbatim>\<open>writeVirtualizedUpstreamResponse\<close> of \<^verbatim>\<open>s3_response.go\<close>). The loop reads one token after the other; a state
  holds its local variables and the encoder, so that what was written before a failure is part of the result.
\<close>

section \<open>The context and the state of the loop\<close>

record rewrite_env =
  re_plan :: S3OperationPlan
  re_cfg :: VBucketConfig
  re_endpoint :: parsed_url
  re_pathPrefix :: string
  re_virtualLocation :: string

record rewrite_state =
  rs_stack :: "string list"
  rs_seenRoot :: bool
  rs_seenFields :: "string list"
  rs_listPartsTruncated :: "bool option"
  rs_listObjectsTruncated :: "bool option"
  rs_listMultipartTruncated :: "bool option"
  rs_emptyNextContinuationToken :: bool
  rs_emptyNextUploadIDMarker :: bool
  rs_listContentsOwnerSeen :: "bool list"
  rs_encoder :: xml_encoder

definition rewrite_init :: rewrite_state where
  "rewrite_init =
     \<lparr>rs_stack = [], rs_seenRoot = False, rs_seenFields = [], rs_listPartsTruncated = None, rs_listObjectsTruncated = None,
      rs_listMultipartTruncated = None, rs_emptyNextContinuationToken = False, rs_emptyNextUploadIDMarker = False,
      rs_listContentsOwnerSeen = [], rs_encoder = NewEncoder\<rparr>"

abbreviation re_profile :: "rewrite_env \<Rightarrow> S3ResponseProfile" where
  "re_profile env \<equiv> p_responseProfile (re_plan env)"

definition filterSafeXMLAttributes :: "parsed_url \<Rightarrow> VBucketConfig \<Rightarrow> xml_attr list \<Rightarrow> xml_attr list" where
  "filterSafeXMLAttributes endpoint cfg attributes =
     filter (\<lambda>a. \<not> containsSensitiveBackendValue endpoint cfg (a_Value a) \<and> n_Local (a_Name a) = ''xmlns'' \<and> a_Value a = s3XMLNamespace) attributes"

fun readElementText :: "xml_name \<Rightarrow> string \<Rightarrow> xml_token list \<Rightarrow> (string \<times> xml_name \<times> xml_token list) option" where
  "readElementText start acc [] = None"
| "readElementText start acc (CharData s # ts) =
     (if maxS3ControlResponseBytes < length acc + length s then None else readElementText start (acc @ s) ts)"
| "readElementText start acc (EndElement n # ts) = (if n \<noteq> start then None else Some (acc, n, ts))"
| "readElementText start acc (StartElement _ _ # ts) = None"
| "readElementText start acc (Comment _ # ts) = readElementText start acc ts"
| "readElementText start acc (Directive _ # ts) = readElementText start acc ts"
| "readElementText start acc (ProcInst _ _ # ts) = readElementText start acc ts"

text \<open>Tokens are encoded in order until the encoder refuses one.\<close>

fun encodeAll :: "xml_token list \<Rightarrow> xml_encoder \<Rightarrow> xml_encoder \<times> bool" where
  "encodeAll [] e = (e, True)"
| "encodeAll (t # ts) e = (case EncodeToken t e of None \<Rightarrow> (e, False) | Some e' \<Rightarrow> encodeAll ts e')"

text \<open>
  A step returns the state and, unless it failed, the tokens that remain. \<open>emit\<close> encodes and goes on with the rest.
\<close>

definition emit ::
  "xml_token list \<Rightarrow> rewrite_state \<Rightarrow> (rewrite_state \<Rightarrow> rewrite_state \<times> xml_token list option) \<Rightarrow> rewrite_state \<times> xml_token list option" where
  "emit toks st k =
     (case encodeAll toks (rs_encoder st) of
        (e, ok) \<Rightarrow> if ok then k (st\<lparr>rs_encoder := e\<rparr>) else (st\<lparr>rs_encoder := e\<rparr>, None))"

definition pop :: "rewrite_state \<Rightarrow> rewrite_state" where
  "pop st = st\<lparr>rs_stack := butlast (rs_stack st)\<rparr>"

section \<open>Steps\<close>

definition identityFields :: "string \<Rightarrow> xml_token list" where
  "identityFields bucket = xml_leaf ''ID'' bucket @ xml_leaf ''DisplayName'' bucket"

definition rewriteIdentity ::
  "rewrite_env \<Rightarrow> xml_name \<Rightarrow> xml_token list \<Rightarrow> rewrite_state \<Rightarrow> rewrite_state \<times> xml_token list option" where
  "rewriteIdentity env n ts st =
     (case Skip 0 ts of
        None \<Rightarrow> (st, None)
      | Some rest \<Rightarrow> emit (identityFields (p_bucket (re_plan env)) @ [EndElement n]) st (\<lambda>st. (pop st, Some rest)))"

definition noteField :: "string \<Rightarrow> string \<Rightarrow> rewrite_state \<Rightarrow> rewrite_state" where
  "noteField path s st0 =
     (let st = st0\<lparr>rs_seenFields := path # rs_seenFields st0\<rparr>; truncated = Some (TrimSpace s = ''true'') in
      if path = ''ListPartsResult/IsTruncated'' then st\<lparr>rs_listPartsTruncated := truncated\<rparr>
      else if path = ''ListBucketResult/IsTruncated'' then st\<lparr>rs_listObjectsTruncated := truncated\<rparr>
      else if path = ''ListMultipartUploadsResult/IsTruncated'' then st\<lparr>rs_listMultipartTruncated := truncated\<rparr>
      else if path = ''ListBucketResult/NextContinuationToken'' then st\<lparr>rs_emptyNextContinuationToken := (s = [])\<rparr>
      else if path = ''ListMultipartUploadsResult/NextUploadIdMarker'' then st\<lparr>rs_emptyNextUploadIDMarker := (s = [])\<rparr>
      else st)"

definition rewriteText ::
  "rewrite_env \<Rightarrow> responseTextTransform \<Rightarrow> string \<Rightarrow> xml_name \<Rightarrow> xml_token list \<Rightarrow> rewrite_state \<Rightarrow> rewrite_state \<times> xml_token list option" where
  "rewriteText env transform path n ts st =
     (case readElementText n [] ts of
        None \<Rightarrow> (st, None)
      | Some (raw, end, rest) \<Rightarrow>
          (case applyResponseTextTransform transform path raw (re_plan env) (re_cfg env) (re_pathPrefix env) (re_virtualLocation env) of
             None \<Rightarrow> (st, None)
           | Some s \<Rightarrow> emit [CharData s, EndElement end] st (\<lambda>st. (pop (noteField path s st), Some rest))))"

definition trackOwner :: "string \<Rightarrow> rewrite_state \<Rightarrow> rewrite_state" where
  "trackOwner path st =
     (if path = ''ListBucketResult/Contents'' then st\<lparr>rs_listContentsOwnerSeen := rs_listContentsOwnerSeen st @ [False]\<rparr>
      else if path = ''ListBucketResult/Contents/Owner'' \<and> rs_listContentsOwnerSeen st \<noteq> []
      then st\<lparr>rs_listContentsOwnerSeen := butlast (rs_listContentsOwnerSeen st) @ [True]\<rparr>
      else st)"

definition rewriteStart ::
  "rewrite_env \<Rightarrow> xml_name \<Rightarrow> xml_attr list \<Rightarrow> xml_token list \<Rightarrow> rewrite_state \<Rightarrow> rewrite_state \<times> xml_token list option" where
  "rewriteStart env n attrs ts st0 =
     (let root = expectedResponseRoot (re_profile env) in
      if rs_seenRoot st0 \<and> rs_stack st0 = [] then (st0, None)
      else if n_Space n \<noteq> [] \<and> n_Space n \<noteq> s3XMLNamespace then (st0, None)
      else if \<not> rs_seenRoot st0 \<and> root \<noteq> [] \<and> n_Local n \<noteq> root then (st0\<lparr>rs_seenRoot := True\<rparr>, None)
      else
        let parentPath = Join (rs_stack st0) ''/'';
            st = st0\<lparr>rs_seenRoot := True, rs_stack := rs_stack st0 @ [n_Local n]\<rparr>;
            path = Join (rs_stack st) ''/''
        in if \<not> knownResponsePath (re_profile env) path then
             (if parentPath \<noteq> [] \<and> knownResponsePath (re_profile env) parentPath \<and> \<not> responsePathIsContainer (re_profile env) parentPath
              then (st, None)
              else case Skip 0 ts of None \<Rightarrow> (st, None) | Some rest \<Rightarrow> (pop st, Some rest))
           else emit [StartElement n (filterSafeXMLAttributes (re_endpoint env) (re_cfg env) attrs)] (trackOwner path st) (\<lambda>st.
             case responseFieldRuleForPath (re_profile env) path of
               None \<Rightarrow> (st, Some ts)
             | Some rule \<Rightarrow>
                 if fr_identityContainer rule then rewriteIdentity env n ts st
                 else if fr_transform rule \<noteq> textTransformNone then rewriteText env (fr_transform rule) path n ts st
                 else (st, Some ts)))"

definition rewriteEnd :: "rewrite_env \<Rightarrow> xml_name \<Rightarrow> xml_token list \<Rightarrow> rewrite_state \<Rightarrow> rewrite_state \<times> xml_token list option" where
  "rewriteEnd env n ts st =
     (if rs_stack st = [] then (st, None)
      else if Join (rs_stack st) ''/'' = ''ListBucketResult/Contents'' then
        (if rs_listContentsOwnerSeen st = [] then (st, None)
         else
           let ownerSeen = last (rs_listContentsOwnerSeen st);
               st1 = st\<lparr>rs_listContentsOwnerSeen := butlast (rs_listContentsOwnerSeen st)\<rparr>
           in if values_Get (p_query (re_plan env)) ''fetch-owner'' = ''true'' \<and> \<not> ownerSeen then (st1, None)
              else emit [EndElement n] (pop st1) (\<lambda>st. (st, Some ts)))
      else emit [EndElement n] (pop st) (\<lambda>st. (st, Some ts)))"

definition rewriteCharData :: "rewrite_env \<Rightarrow> string \<Rightarrow> xml_token list \<Rightarrow> rewrite_state \<Rightarrow> rewrite_state \<times> xml_token list option" where
  "rewriteCharData env s ts st =
     (let path = Join (rs_stack st) ''/'' in
      if TrimSpace s \<noteq> [] \<and> (\<not> knownResponsePath (re_profile env) path \<or> responsePathIsContainer (re_profile env) path) then (st, None)
      else emit [CharData s] st (\<lambda>st. (st, Some ts)))"

definition rewriteToken :: "rewrite_env \<Rightarrow> xml_token \<Rightarrow> xml_token list \<Rightarrow> rewrite_state \<Rightarrow> rewrite_state \<times> xml_token list option" where
  "rewriteToken env t ts st =
     (case t of
        StartElement n attrs \<Rightarrow> rewriteStart env n attrs ts st
      | EndElement n \<Rightarrow> rewriteEnd env n ts st
      | CharData s \<Rightarrow> rewriteCharData env s ts st
      | _ \<Rightarrow> (st, Some ts))"

section \<open>The loop\<close>

lemma readElementText_length: "readElementText n acc ts = Some (s, e, rest) \<Longrightarrow> length rest < length ts \<and> e = n"
  by (induction n acc ts rule: readElementText.induct) (auto split: if_splits)

lemma emit_Some: "emit toks st k = (st', Some rest) \<Longrightarrow> \<exists>e. encodeAll toks (rs_encoder st) = (e, True) \<and> k (st\<lparr>rs_encoder := e\<rparr>) = (st', Some rest)"
  by (auto simp: emit_def split: prod.splits if_splits)

lemma rewriteToken_length: "rewriteToken env t ts st = (st', Some rest) \<Longrightarrow> length rest \<le> length ts"
  by (cases t)
     (auto simp: rewriteToken_def rewriteStart_def rewriteEnd_def rewriteCharData_def rewriteIdentity_def rewriteText_def Let_def
        dest!: emit_Some Skip_length readElementText_length split: if_splits option.splits)

function rewriteLoop :: "rewrite_env \<Rightarrow> bool \<Rightarrow> xml_token list \<Rightarrow> rewrite_state \<Rightarrow> rewrite_state \<times> bool" where
  "rewriteLoop env eof [] st = (st, eof)"
| "rewriteLoop env eof (t # ts) st =
     (case rewriteToken env t ts st of
        (st', None) \<Rightarrow> (st', False)
      | (st', Some rest) \<Rightarrow> rewriteLoop env eof rest st')"
  by pat_completeness auto

termination
  by (relation "measure (\<lambda>(_, _, ts, _). length ts)") (auto dest!: sym [THEN rewriteToken_length])

definition complete :: "rewrite_env \<Rightarrow> rewrite_state \<Rightarrow> bool" where
  "complete env st =
     (rs_seenRoot st \<and> rs_stack st = []
      \<and> list_all (\<lambda>(path, rule). fr_required rule \<longrightarrow> path \<in> set (rs_seenFields st)) (responseFieldRules (re_profile env))
      \<and> \<not> (re_profile env = responseListParts \<and> rs_listPartsTruncated st = Some True
            \<and> ''ListPartsResult/NextPartNumberMarker'' \<notin> set (rs_seenFields st))
      \<and> \<not> (''ListBucketResult/NextContinuationToken'' \<in> set (rs_seenFields st) \<and> rs_emptyNextContinuationToken st
            \<and> rs_listObjectsTruncated st \<noteq> Some False)
      \<and> \<not> (''ListMultipartUploadsResult/NextUploadIdMarker'' \<in> set (rs_seenFields st) \<and> rs_emptyNextUploadIDMarker st
            \<and> rs_listMultipartTruncated st \<noteq> Some False))"

text \<open>
  The result is what was written, in order, and whether the rewriting succeeded.
\<close>

definition rewriteNamespaceXML :: "rewrite_env \<Rightarrow> xml_decoder \<Rightarrow> xml_token list \<times> bool" where
  "rewriteNamespaceXML env decoder =
     (case rewriteLoop env (d_eof decoder) (d_tokens decoder) rewrite_init of
        (st, ok) \<Rightarrow> (rev (w_out (rs_encoder st)), ok \<and> complete env st))"

fun first_start :: "xml_token list \<Rightarrow> xml_name option" where
  "first_start [] = None"
| "first_start (StartElement n _ # ts) = Some n"
| "first_start (_ # ts) = first_start ts"

definition preflightStreamingXMLRoot :: "(io_reader \<Rightarrow> xml_decoder) \<Rightarrow> io_reader \<Rightarrow> string \<Rightarrow> bool" where
  "preflightStreamingXMLRoot decode body expected =
     (case first_start (d_tokens (decode (LimitReader (maxS3ControlResponseBytes + 1) body))) of
        None \<Rightarrow> False
      | Some n \<Rightarrow> n_Local n = expected \<and> (n_Space n = [] \<or> n_Space n = s3XMLNamespace))"

section \<open>The response\<close>

record http_response =
  rp_StatusCode :: nat
  rp_Header :: http_header
  rp_Body :: io_reader

datatype write_outcome = Written | Failed | Aborted

definition badUpstream :: "http_header \<Rightarrow> s3_answer \<times> write_outcome" where
  "badUpstream dst = (writeS3Error dst (s3Error 502 ''InternalError'' ''Invalid upstream S3 response''), Failed)"

definition withSafeHeaders ::
  "rewrite_env \<Rightarrow> http_response \<Rightarrow> http_header \<Rightarrow> (http_header \<Rightarrow> s3_answer \<times> write_outcome) \<Rightarrow> s3_answer \<times> write_outcome" where
  "withSafeHeaders env resp dst k =
     (case copySafeResponseHeaders (re_endpoint env) (rp_Header resp) dst (re_cfg env) (re_plan env) (rp_StatusCode resp) of
        Inl _ \<Rightarrow> badUpstream dst
      | Inr h \<Rightarrow> k h)"

definition xmlHeaders :: "http_header \<Rightarrow> S3ResponseProfile \<Rightarrow> http_header" where
  "xmlHeaders h profile =
     header_Set (header_Del (dropTransformedRepresentationHeaders h profile) ''Content-Length'') ''Content-Type'' ''application/xml''"

definition writeUpstreamError ::
  "(io_reader \<Rightarrow> xml_decoder) \<Rightarrow> rewrite_env \<Rightarrow> http_response \<Rightarrow> http_header \<Rightarrow> s3_answer \<times> write_outcome" where
  "writeUpstreamError decode env resp dst =
     (case validateUpstreamErrorDocument decode (rp_Body resp) of
        None \<Rightarrow> badUpstream dst
      | Some code \<Rightarrow> withSafeHeaders env resp dst (\<lambda>h.
          (\<lparr>an_status = rp_StatusCode resp, an_header = xmlHeaders h responseListObjects,
            an_body = BodyXML (s3ErrorResponse (safeUpstreamErrorCode (p_kind (re_plan env)) (rp_StatusCode resp) code) ''Upstream S3 request failed'')\<rparr>,
           Written)))"

definition writeVirtualizedUpstreamResponse ::
  "(io_reader \<Rightarrow> xml_decoder) \<Rightarrow> string \<Rightarrow> rewrite_env \<Rightarrow> http_response \<Rightarrow> http_header \<Rightarrow> s3_answer \<times> write_outcome" where
  "writeVirtualizedUpstreamResponse decode method env resp dst =
     (let status = rp_StatusCode resp; profile = re_profile env in
      if isS3RedirectStatus status then
        (writeS3Error dst (s3Error 502 ''InternalError'' ''Upstream S3 redirect cannot be safely followed''), Failed)
      else if method = ''HEAD'' then
        withSafeHeaders env resp dst (\<lambda>h. (\<lparr>an_status = status, an_header = h, an_body = NoBody\<rparr>, Written))
      else if status = 304 then
        withSafeHeaders env resp dst (\<lambda>h. (\<lparr>an_status = status, an_header = header_Del h ''Content-Length'', an_body = NoBody\<rparr>, Written))
      else if status < 200 \<or> 300 \<le> status then writeUpstreamError decode env resp dst
      else if profile = responseStreamObject then
        withSafeHeaders env resp dst (\<lambda>h.
          (\<lparr>an_status = status, an_header = h, an_body = BodyBytes (b_data (rp_Body resp))\<rparr>, if b_fails (rp_Body resp) then Aborted else Written))
      else if profile = responseSafeHeaders then
        withSafeHeaders env resp dst (\<lambda>h.
          (\<lparr>an_status = status, an_header = header_Del (dropDiscardedBodyHeaders h) ''Content-Length'', an_body = NoBody\<rparr>, Written))
      else if profile = responseListObjects \<or> profile = responseListMultipartUploads then
        (if \<not> preflightStreamingXMLRoot decode (rp_Body resp) (expectedResponseRoot profile) then badUpstream dst
         else withSafeHeaders env resp dst (\<lambda>h.
           let (out, ok) = rewriteNamespaceXML (env\<lparr>re_virtualLocation := []\<rparr>) (decode (rp_Body resp)) in
           (\<lparr>an_status = status, an_header = xmlHeaders h profile, an_body = BodyXML out\<rparr>, if ok then Written else Aborted)))
      else if profile \<in> set [responseCreateMultipart, responseListParts, responseCompleteMultipart, responseCopyObject] then
        (case readBoundedControlXML (rp_Body resp) of
           None \<Rightarrow> badUpstream (header_Del dst ''Content-Length'')
         | Some data \<Rightarrow>
             let (out, ok) = rewriteNamespaceXML (env\<lparr>re_virtualLocation := virtualResponseLocation (re_plan env)\<rparr>) (decode (bytes_reader data)) in
             if \<not> ok then badUpstream (header_Del dst ''Content-Length'')
             else withSafeHeaders env resp dst (\<lambda>h. (\<lparr>an_status = status, an_header = xmlHeaders h profile, an_body = BodyXML out\<rparr>, Written)))
      else (\<lparr>an_status = 200, an_header = dst, an_body = NoBody\<rparr>, Failed))"

end
