(* ===== verification/S3_Virtual.thy ===== *)
theory S3_Virtual
  imports S3_Rewrite "HOL-Library.Sublist"
begin

text \<open>
  What a client sees of the origin. The texts of a rewritten response are described without the transforms, in
  terms of the client's own request: every name, key, token and echo that a client is shown is one of its own virtual
  view, whatever the origin sends, and also where the rewriting fails halfway.
\<close>

section \<open>The view of the client\<close>

definition render :: "S3OperationPlan \<Rightarrow> string \<Rightarrow> string" where
  "render plan k = (if urlEncoded plan then awsURIEncode k else k)"

definition echoName :: "string \<Rightarrow> string" where
  "echoName path =
     (if path = ''ListBucketResult/Prefix'' \<or> path = ''ListMultipartUploadsResult/Prefix'' then ''prefix''
      else if path = ''ListBucketResult/Marker'' then ''marker''
      else if path = ''ListBucketResult/StartAfter'' then ''start-after''
      else ''key-marker'')"

definition singleObject :: "S3ResponseProfile \<Rightarrow> bool" where
  "singleObject profile = (profile \<in> set [responseCreateMultipart, responseListParts, responseCompleteMultipart])"

definition listing :: "S3ResponseProfile \<Rightarrow> bool" where
  "listing profile = (profile \<in> set [responseListObjects, responseListMultipartUploads])"

definition keyView :: "S3OperationPlan \<Rightarrow> string \<Rightarrow> string \<Rightarrow> bool" where
  "keyView plan path s =
     (\<exists>k. s = render plan k
        \<and> (if singleObject (p_responseProfile plan) then k = p_objectKey plan
           else addressableKeyValue path \<longrightarrow> k = [] \<or> validateVirtualObjectKey k))"

definition issued :: "VBucketConfig \<Rightarrow> string \<Rightarrow> string \<Rightarrow> bool" where
  "issued cfg kind s = (\<exists>v. encodeOpaqueToken (Some cfg) kind v = Inr s)"

definition clientView :: "rewrite_env \<Rightarrow> responseTextTransform \<Rightarrow> string \<Rightarrow> string \<Rightarrow> bool" where
  "clientView env transform path s =
     (let plan = re_plan env; ask = values_Get (p_query (re_plan env)) in
      case transform of
        textTransformVirtualBucket \<Rightarrow> s = p_bucket plan
      | textTransformVirtualKey \<Rightarrow> keyView plan path s
      | textTransformVirtualKeyEcho \<Rightarrow> s = render plan (ask (echoName path))
      | textTransformVirtualLocation \<Rightarrow> s = re_virtualLocation env
      | textTransformNewContinuationToken \<Rightarrow> s = [] \<or> issued (re_cfg env) ''continuation'' s
      | textTransformNewUploadToken \<Rightarrow> s = [] \<or> issued (re_cfg env) ''upload'' s
      | textTransformEchoContinuationToken \<Rightarrow> s = ask ''continuation-token''
      | textTransformEchoUploadToken \<Rightarrow> s = ask ''upload-id-marker'' \<or> s = ask ''uploadId''
      | textTransformPlainQueryEcho \<Rightarrow> s = ask ''encoding-type'' \<or> decodeField plan s = Some (ask ''delimiter'')
      | textTransformNumericQueryEcho \<Rightarrow> \<exists>i \<ge> 0. Atoi (TrimSpace s) = Some i
      | textTransformNonNegativeInteger \<Rightarrow> \<exists>i \<ge> 0. Atoi (TrimSpace s) = Some i
      | textTransformBoolean \<Rightarrow> s = ''true'' \<or> s = ''false''
      | textTransformRequiredNonempty \<Rightarrow> TrimSpace s \<noteq> []
      | textTransformNone \<Rightarrow> True)"

text \<open>A field without name spaces: it is part of the schema, holds text, and has no transform.\<close>

definition plainPath :: "S3ResponseProfile \<Rightarrow> string \<Rightarrow> bool" where
  "plainPath profile path =
     (knownResponsePath profile path
      \<and> (case responseFieldRuleForPath profile path of
           None \<Rightarrow> True | Some rule \<Rightarrow> \<not> fr_identityContainer rule \<and> fr_transform rule = textTransformNone))"

definition identityChild :: "S3ResponseProfile \<Rightarrow> string list \<Rightarrow> bool" where
  "identityChild profile p =
     (p \<noteq> [] \<and> (last p = ''ID'' \<or> last p = ''DisplayName'')
      \<and> (case responseFieldRuleForPath profile (Join (butlast p) ''/'') of None \<Rightarrow> False | Some rule \<Rightarrow> fr_identityContainer rule))"

definition virtualText :: "rewrite_env \<Rightarrow> string list \<Rightarrow> string \<Rightarrow> bool" where
  "virtualText env p s =
     (let path = Join p ''/'' in
      TrimSpace s = []
      \<or> identityChild (re_profile env) p \<and> s = p_bucket (re_plan env)
      \<or> plainPath (re_profile env) path \<and> \<not> responsePathIsContainer (re_profile env) path
      \<or> (\<exists>rule. responseFieldRuleForPath (re_profile env) path = Some rule \<and> fr_transform rule \<noteq> textTransformNone
           \<and> clientView env (fr_transform rule) path s))"

definition virtualToken :: "rewrite_env \<Rightarrow> string list \<times> xml_token \<Rightarrow> bool" where
  "virtualToken env pt =
     (case snd pt of
        StartElement n attrs \<Rightarrow>
          (n_Space n = [] \<or> n_Space n = s3XMLNamespace)
          \<and> (knownResponsePath (re_profile env) (Join (fst pt) ''/'') \<or> identityChild (re_profile env) (fst pt))
          \<and> list_all (\<lambda>a. n_Local (a_Name a) = ''xmlns'' \<and> a_Value a = s3XMLNamespace) attrs
      | EndElement n \<Rightarrow> True
      | CharData s \<Rightarrow> virtualText env (fst pt) s
      | _ \<Rightarrow> False)"

section \<open>Keys\<close>

lemma virtualizeResponseKey_Some:
  assumes "virtualizeResponseKey path s plan pre = Some v" "listing (p_responseProfile plan) \<or> singleObject (p_responseProfile plan)"
  obtains k where "v = render plan k" "decodeField plan s = Some (pre @ k) \<or> decodeField plan s = Some [] \<and> k = []"
    "singleObject (p_responseProfile plan) \<longrightarrow> k = p_objectKey plan"
    "addressableKeyValue path \<longrightarrow> k = [] \<or> validateVirtualObjectKey k"
    "actualObjectKey path \<and> k = [] \<longrightarrow> decodeField plan s = Some []"
proof -
  obtain d where d: "decodeField plan s = Some d" using assms(1) by (auto simp: virtualizeResponseKey_def split: option.splits)
  have disj: "\<not> (listing (p_responseProfile plan) \<and> singleObject (p_responseProfile plan))"
    by (auto simp: listing_def singleObject_def)
  show thesis
  proof (cases "listing (p_responseProfile plan) \<and> d = []")
    case True
    then have "v = []" using assms(1) d by (simp add: virtualizeResponseKey_def listing_def Let_def)
    then show thesis using that [of "[]"] True d disj by (simp add: render_def awsURIEncode_def)
  next
    case False
    have strip: "v = stripListPathPrefix s pre (urlEncoded plan)"
      and conds: "listing (p_responseProfile plan) \<longrightarrow> HasPrefix d pre" "singleObject (p_responseProfile plan) \<longrightarrow> d = pre @ p_objectKey plan"
        "\<not> (actualObjectKey path \<and> TrimPrefix d pre = [])" "addressableKeyValue path \<longrightarrow> TrimPrefix d pre = [] \<or> validateVirtualObjectKey (TrimPrefix d pre)"
      using assms(1) d False
      unfolding virtualizeResponseKey_def listing_def [symmetric] singleObject_def [symmetric] option.case Let_def by (auto split: if_splits)
    obtain k where k: "d = pre @ k" using conds(1,2) assms(2) by (auto simp: HasPrefix_iff)
    have "v = render plan k"
      using d by (simp add: strip stripListPathPrefix_def render_def decodeField_def k split: if_splits)
    then show thesis using that [of k] d k conds by auto
  qed
qed

lemma key_rule_profile:
  assumes "responseFieldRuleForPath profile path = Some rule"
    and "fr_transform rule = textTransformVirtualKey \<or> fr_transform rule = textTransformVirtualKeyEcho"
  shows "listing profile \<or> singleObject profile"
proof -
  let ?no = "\<lambda>profile. list_all (\<lambda>(p, r). fr_transform r \<noteq> textTransformVirtualKey \<and> fr_transform r \<noteq> textTransformVirtualKeyEcho)
    (responseFieldRules profile)"
  have no: "?no responseListBuckets" "?no responseCreateBucket" "?no responseSafeHeaders" "?no responseStreamObject" "?no responseCopyObject"
    by code_simp+
  have "(path, rule) \<in> set (responseFieldRules profile)"
    using assms(1) by (simp add: responseFieldRuleForPath_def map_of_SomeD)
  then have "\<not> ?no profile" using assms(2) unfolding list_all_iff by blast
  then have "profile \<notin> {responseListBuckets, responseCreateBucket, responseSafeHeaders, responseStreamObject, responseCopyObject}"
    using no by blast
  then show ?thesis by (cases profile) (simp_all add: listing_def singleObject_def)
qed

lemma echo_rule_profile:
  assumes "responseFieldRuleForPath profile path = Some rule" "fr_transform rule = textTransformVirtualKeyEcho"
  shows "listing profile"
proof -
  have no: "list_all (\<lambda>(_, r). fr_transform r \<noteq> textTransformVirtualKeyEcho) (responseFieldRules responseCreateMultipart)"
    "list_all (\<lambda>(_, r). fr_transform r \<noteq> textTransformVirtualKeyEcho) (responseFieldRules responseListParts)"
    "list_all (\<lambda>(_, r). fr_transform r \<noteq> textTransformVirtualKeyEcho) (responseFieldRules responseCompleteMultipart)" by code_simp+
  have "(path, rule) \<in> set (responseFieldRules profile)"
    using assms(1) by (simp add: responseFieldRuleForPath_def map_of_SomeD)
  then have "\<not> list_all (\<lambda>(_, r). fr_transform r \<noteq> textTransformVirtualKeyEcho) (responseFieldRules profile)"
    using assms(2) unfolding list_all_iff by blast
  then have "profile \<noteq> responseCreateMultipart" "profile \<noteq> responseListParts" "profile \<noteq> responseCompleteMultipart" using no by blast+
  then have "\<not> singleObject profile" by (simp add: singleObject_def)
  then show ?thesis using key_rule_profile [OF assms(1)] assms(2) by blast
qed

lemma last_choice: "(if a then x else if b then y else if c then z else if d then u else []) \<noteq> [] \<Longrightarrow>
    (if a then x else if b then y else if c then z else if d then u else []) = (if a then x else if b then y else if c then z else u)"
  by (simp split: if_splits)

lemma echo_is_own:
  assumes "validateVirtualKeyEcho path s plan pre" "virtualizeResponseKey path s plan pre = Some v" "listing (p_responseProfile plan)"
  shows "v = render plan (values_Get (p_query plan) (echoName path))"
proof -
  let ?asked = "values_Get (p_query plan) (echoName path)"
  obtain d where d: "decodeField plan s = Some d" "d = pre @ ?asked \<or> d = [] \<and> ?asked = []"
  proof -
    define q where "q = (if path = ''ListBucketResult/Prefix'' \<or> path = ''ListMultipartUploadsResult/Prefix'' then ''prefix''
       else if path = ''ListBucketResult/Marker'' then ''marker'' else if path = ''ListBucketResult/StartAfter'' then ''start-after''
       else if path = ''ListMultipartUploadsResult/KeyMarker'' then ''key-marker'' else [])"
    obtain d' where d': "q \<noteq> []" "decodeField plan s = Some d'"
      "d' = (if q = ''prefix'' \<or> values_Get (p_query plan) q \<noteq> [] then pre @ values_Get (p_query plan) q else values_Get (p_query plan) q)"
      using assms(1) unfolding validateVirtualKeyEcho_def Let_def q_def [symmetric] by (simp split: if_splits option.splits)
    have "q = echoName path" using d'(1) unfolding q_def echoName_def by (rule last_choice)
    then show thesis using that [OF d'(2)] d'(3) by (simp split: if_splits)
  qed
  obtain k where k: "v = render plan k" "decodeField plan s = Some (pre @ k) \<or> decodeField plan s = Some [] \<and> k = []"
    using assms(2,3) by (blast elim: virtualizeResponseKey_Some)
  from d k(2) have "k = ?asked" by auto
  then show ?thesis using k(1) by simp
qed

lemma transform_clientView:
  assumes "responseFieldRuleForPath (re_profile env) path = Some rule"
    and "applyResponseTextTransform (fr_transform rule) path s (re_plan env) (re_cfg env) (re_pathPrefix env) (re_virtualLocation env) = Some v"
  shows "clientView env (fr_transform rule) path v"
proof (cases "fr_transform rule")
  case textTransformVirtualKey
  then have v: "virtualizeResponseKey path s (re_plan env) (re_pathPrefix env) = Some v"
    using assms(2) by (simp add: applyResponseTextTransform_def)
  obtain k where "v = render (re_plan env) k" "singleObject (re_profile env) \<longrightarrow> k = p_objectKey (re_plan env)"
    "addressableKeyValue path \<longrightarrow> k = [] \<or> validateVirtualObjectKey k"
    using v key_rule_profile [OF assms(1)] textTransformVirtualKey by (blast elim: virtualizeResponseKey_Some)
  then have "keyView (re_plan env) path v" unfolding keyView_def by auto
  then show ?thesis by (simp add: clientView_def textTransformVirtualKey)
next
  case textTransformVirtualKeyEcho
  then show ?thesis
    using assms(2) echo_is_own [of path s "re_plan env" "re_pathPrefix env" v] echo_rule_profile [OF assms(1)]
    by (simp add: applyResponseTextTransform_def clientView_def split: if_splits)
next
  case textTransformNewContinuationToken
  then show ?thesis using assms(2)
    by (auto simp: applyResponseTextTransform_def clientView_def newToken_def issued_def split: if_splits sum.splits)
next
  case textTransformNewUploadToken
  then show ?thesis using assms(2)
    by (auto simp: applyResponseTextTransform_def clientView_def newToken_def issued_def split: if_splits sum.splits)
next
  case textTransformEchoContinuationToken
  then show ?thesis using assms(2)
    by (auto simp: applyResponseTextTransform_def clientView_def echoToken_def split: if_splits sum.splits)
next
  case textTransformEchoUploadToken
  then show ?thesis using assms(2)
    by (auto simp: applyResponseTextTransform_def clientView_def echoToken_def split: if_splits sum.splits)
next
  case textTransformPlainQueryEcho
  then have "validatePlainQueryEcho path v (re_plan env)" using assms(2) by (auto simp: applyResponseTextTransform_def split: if_splits)
  then have "v = values_Get (p_query (re_plan env)) ''encoding-type'' \<or> decodeField (re_plan env) v = Some (values_Get (p_query (re_plan env)) ''delimiter'')"
    unfolding validatePlainQueryEcho_def Let_def by (auto split: if_splits option.splits)
  then show ?thesis by (simp add: clientView_def textTransformPlainQueryEcho)
next
  case textTransformNumericQueryEcho
  then have "validateNumericQueryEcho path v (re_plan env)" using assms(2) by (auto simp: applyResponseTextTransform_def split: if_splits)
  then have "\<exists>i \<ge> 0. Atoi (TrimSpace v) = Some i"
    unfolding validateNumericQueryEcho_def Let_def by (auto split: prod.splits if_splits option.splits)
  then show ?thesis by (simp add: clientView_def textTransformNumericQueryEcho)
next
  case textTransformNonNegativeInteger
  then show ?thesis using assms(2)
    by (auto simp: applyResponseTextTransform_def clientView_def split: option.splits if_splits)
qed (use assms(2) in \<open>auto simp: applyResponseTextTransform_def clientView_def Let_def split: if_splits\<close>)

section \<open>The invariant of the loop\<close>

definition written :: "rewrite_state \<Rightarrow> xml_token list" where
  "written st = rev (w_out (rs_encoder st))"

definition allVirtual :: "rewrite_env \<Rightarrow> string list \<Rightarrow> xml_token list \<Rightarrow> bool" where
  "allVirtual env p ts = list_all (virtualToken env) (located p ts)"

text \<open>At the head of the loop every element on the stack is one that may rest there: it has neither transform nor identity.\<close>

definition rewrite_inv :: "rewrite_env \<Rightarrow> rewrite_state \<Rightarrow> bool" where
  "rewrite_inv env st =
     (place [] (written st) = rs_stack st \<and> allVirtual env [] (written st)
      \<and> (\<forall>p. prefix p (rs_stack st) \<longrightarrow> p \<noteq> [] \<longrightarrow> plainPath (re_profile env) (Join p ''/'')))"

lemma EncodeToken_out: "EncodeToken t e = Some e' \<Longrightarrow> w_out e' = t # w_out e"
  by (cases t) (auto split: if_splits list.splits)

lemma encodeAll_out: "encodeAll toks e = (e', ok) \<Longrightarrow> \<exists>n. w_out e' = rev (take n toks) @ w_out e \<and> (ok \<longrightarrow> take n toks = toks)"
proof (induction toks arbitrary: e)
  case (Cons t ts)
  show ?case
  proof (cases "EncodeToken t e")
    case None
    then show ?thesis using Cons.prems by (intro exI [of _ 0]) auto
  next
    case (Some e1)
    then obtain n where "w_out e' = rev (take n ts) @ w_out e1" "ok \<longrightarrow> take n ts = ts" using Cons by auto
    then show ?thesis using EncodeToken_out [OF Some] by (intro exI [of _ "Suc n"]) auto
  qed
qed auto

lemma located_take: "located p (take n ts) = take n (located p ts)"
  by (induction ts arbitrary: p n) (auto simp: take_Cons split: nat.splits)

lemma allVirtual_append: "allVirtual env p (xs @ ys) \<longleftrightarrow> allVirtual env p xs \<and> allVirtual env (place p xs) ys"
  by (simp add: allVirtual_def located_append)

lemma allVirtual_take: "allVirtual env p ts \<Longrightarrow> allVirtual env p (take n ts)"
  unfolding allVirtual_def located_take list_all_iff by (meson in_set_takeD)

lemma emit_virtual:
  assumes "emit toks st k = (st', res)" "allVirtual env [] (written st)" "allVirtual env (place [] (written st)) toks"
  obtains (stopped) "res = None" "allVirtual env [] (written st')"
  | (finished) e where "k (st\<lparr>rs_encoder := e\<rparr>) = (st', res)" "written (st\<lparr>rs_encoder := e\<rparr>) = written st @ toks"
      "allVirtual env [] (written (st\<lparr>rs_encoder := e\<rparr>))" "place [] (written (st\<lparr>rs_encoder := e\<rparr>)) = place (place [] (written st)) toks"
proof -
  obtain e ok where e: "encodeAll toks (rs_encoder st) = (e, ok)" by (cases "encodeAll toks (rs_encoder st)")
  obtain n where n: "w_out e = rev (take n toks) @ w_out (rs_encoder st)" "ok \<longrightarrow> take n toks = toks"
    using encodeAll_out [OF e] by blast
  have w: "written (st\<lparr>rs_encoder := e\<rparr>) = written st @ take n toks" by (simp add: written_def n(1))
  have v: "allVirtual env [] (written (st\<lparr>rs_encoder := e\<rparr>))"
    unfolding w allVirtual_append using assms(2) allVirtual_take [OF assms(3)] by blast
  show thesis
  proof (cases ok)
    case True
    then show thesis
      using that(2) [of e] assms(1) e w v n(2) by (simp add: emit_def place_append)
  next
    case False
    then show thesis using that(1) assms(1) e v by (simp add: emit_def)
  qed
qed

lemma virtual_start:
  assumes "knownResponsePath (re_profile env) (Join (p @ [n_Local n]) ''/'')" "n_Space n = [] \<or> n_Space n = s3XMLNamespace"
  shows "allVirtual env p [StartElement n (filterSafeXMLAttributes endpoint cfg attrs)]"
  using assms by (simp add: allVirtual_def virtualToken_def own_place_def filterSafeXMLAttributes_def list_all_iff)

lemma virtual_identity:
  assumes "responseFieldRuleForPath (re_profile env) (Join p ''/'') = Some rule" "fr_identityContainer rule"
  shows "allVirtual env p (identityFields (p_bucket (re_plan env)) @ [EndElement n])"
    "place p (identityFields (p_bucket (re_plan env)) @ [EndElement n]) = butlast p"
proof -
  have c: "identityChild (re_profile env) (p @ [''ID''])" "identityChild (re_profile env) (p @ [''DisplayName''])"
    using assms by (simp_all add: identityChild_def)
  show "allVirtual env p (identityFields (p_bucket (re_plan env)) @ [EndElement n])"
    using c by (simp add: allVirtual_def identityFields_def xml_leaf_def xml_element_def xml_tag_def own_place_def virtualToken_def virtualText_def)
  show "place p (identityFields (p_bucket (re_plan env)) @ [EndElement n]) = butlast p"
    by (simp add: identityFields_def xml_leaf_def xml_element_def xml_tag_def)
qed

lemma plain_stack:
  assumes "\<forall>q. prefix q p \<longrightarrow> q \<noteq> [] \<longrightarrow> plainPath profile (Join q ''/'')" "plainPath profile (Join (p @ [l]) ''/'')"
  shows "\<forall>q. prefix q (p @ [l]) \<longrightarrow> q \<noteq> [] \<longrightarrow> plainPath profile (Join q ''/'')"
  using assms by (auto simp: prefix_snoc)

lemma plain_butlast:
  assumes "\<forall>q. prefix q p \<longrightarrow> q \<noteq> [] \<longrightarrow> plainPath profile (Join q ''/'')"
  shows "\<forall>q. prefix q (butlast p) \<longrightarrow> q \<noteq> [] \<longrightarrow> plainPath profile (Join q ''/'')"
  using assms prefixeq_butlast prefix_order.trans by blast

text \<open>A step keeps what was written virtual, and the invariant unless it fails.\<close>

definition step_ok :: "rewrite_env \<Rightarrow> rewrite_state \<times> xml_token list option \<Rightarrow> bool" where
  "step_ok env r = (allVirtual env [] (written (fst r)) \<and> (snd r \<noteq> None \<longrightarrow> rewrite_inv env (fst r)))"

lemma step_ok_fail: "rewrite_inv env st \<Longrightarrow> written st' = written st \<Longrightarrow> step_ok env (st', None)"
  by (simp add: step_ok_def rewrite_inv_def)

lemma step_ok_emit:
  assumes "allVirtual env [] (written st)" "allVirtual env (place [] (written st)) toks"
    and "\<And>e. allVirtual env [] (written (st\<lparr>rs_encoder := e\<rparr>)) \<Longrightarrow>
      place [] (written (st\<lparr>rs_encoder := e\<rparr>)) = place (place [] (written st)) toks \<Longrightarrow> step_ok env (k (st\<lparr>rs_encoder := e\<rparr>))"
  shows "step_ok env (emit toks st k)"
proof -
  obtain st' res where r: "emit toks st k = (st', res)" by (cases "emit toks st k")
  from r assms(1,2) show ?thesis
  proof (cases rule: emit_virtual)
    case stopped
    then show ?thesis by (simp add: r step_ok_def)
  next
    case (finished e)
    then show ?thesis using assms(3) [of e] r by simp
  qed
qed

lemma written_simps [simp]:
  "written (pop st) = written st" "written (noteField path s st) = written st" "written (trackOwner path st) = written st"
  "rs_stack (noteField path s st) = rs_stack st" "rs_stack (trackOwner path st) = rs_stack st"
  "rs_stack (pop st) = butlast (rs_stack st)"
  by (simp_all add: written_def pop_def noteField_def trackOwner_def Let_def)

lemma root_path_unknown: "expectedResponseRoot profile \<noteq> [] \<Longrightarrow> \<not> knownResponsePath profile []"
proof -
  have "list_all (\<lambda>p. expectedResponseRoot p \<noteq> [] \<longrightarrow> \<not> knownResponsePath p [])
    [responseListBuckets, responseCreateBucket, responseStreamObject, responseSafeHeaders, responseListObjects, responseListMultipartUploads, responseCreateMultipart,
     responseListParts, responseCompleteMultipart, responseCopyObject]" by code_simp
  then show "expectedResponseRoot profile \<noteq> [] \<Longrightarrow> \<not> knownResponsePath profile []"
    by (cases profile) (simp_all only: list.pred_inject, blast+)
qed

lemma rewriteCharData_ok:
  assumes inv: "rewrite_inv env st" and xml: "expectedResponseRoot (re_profile env) \<noteq> []"
  shows "step_ok env (rewriteCharData env s ts st)"
proof -
  let ?path = "Join (rs_stack st) ''/''"
  show ?thesis
  proof (cases "TrimSpace s \<noteq> [] \<and> (\<not> knownResponsePath (re_profile env) ?path \<or> responsePathIsContainer (re_profile env) ?path)")
    case True
    then show ?thesis using step_ok_fail [OF inv] by (simp add: rewriteCharData_def Let_def)
  next
    case False
    have "virtualText env (rs_stack st) s"
    proof (cases "TrimSpace s = []")
      case True
      then show ?thesis by (simp add: virtualText_def)
    next
      case ne: False
      have "rs_stack st \<noteq> []" using False ne root_path_unknown [OF xml] by (auto simp: Join.simps)
      then have "plainPath (re_profile env) ?path" using inv by (simp add: rewrite_inv_def)
      then show ?thesis using False ne by (simp add: virtualText_def)
    qed
    then have "allVirtual env (rs_stack st) [CharData s]" by (simp add: allVirtual_def virtualToken_def own_place_def)
    then have "step_ok env (emit [CharData s] st (\<lambda>st. (st, Some ts)))"
      using inv by (intro step_ok_emit) (auto simp: rewrite_inv_def step_ok_def written_def)
    then show ?thesis using False unfolding rewriteCharData_def Let_def by (simp only: if_False)
  qed
qed

lemma rewriteEnd_ok: "rewrite_inv env st \<Longrightarrow> step_ok env (rewriteEnd env n ts st)"
proof -
  assume inv: "rewrite_inv env st"
  have "step_ok env (emit [EndElement n] st1 (\<lambda>st. (st, Some ts)))"
    if "written st1 = written st" "rs_stack st1 = butlast (rs_stack st)" for st1
  proof (rule step_ok_emit)
    show "allVirtual env [] (written st1)" using inv that by (simp add: rewrite_inv_def)
    show "allVirtual env (place [] (written st1)) [EndElement n]" by (simp add: allVirtual_def virtualToken_def)
    show "step_ok env (st1\<lparr>rs_encoder := e\<rparr>, Some ts)"
      if "allVirtual env [] (written (st1\<lparr>rs_encoder := e\<rparr>))"
        "place [] (written (st1\<lparr>rs_encoder := e\<rparr>)) = place (place [] (written st1)) [EndElement n]" for e
      using that inv plain_butlast [of "rs_stack st" "re_profile env"] \<open>written st1 = written st\<close> \<open>rs_stack st1 = butlast (rs_stack st)\<close>
      by (simp add: step_ok_def rewrite_inv_def)
  qed
  then show ?thesis
    using step_ok_fail [OF inv] by (simp add: rewriteEnd_def Let_def written_def pop_def)
qed

text \<open>Inside an element that was just opened: what is written is virtual, and the stack is the place reached.\<close>

definition opened :: "rewrite_env \<Rightarrow> rewrite_state \<Rightarrow> bool" where
  "opened env st =
     (place [] (written st) = rs_stack st \<and> allVirtual env [] (written st)
      \<and> (\<forall>q. prefix q (butlast (rs_stack st)) \<longrightarrow> q \<noteq> [] \<longrightarrow> plainPath (re_profile env) (Join q ''/'')))"

lemma opened_closes:
  assumes "opened env st" "allVirtual env (rs_stack st) toks" "place (rs_stack st) toks = butlast (rs_stack st)"
    and k: "\<And>st. written (k st) = written st" "\<And>st. rs_stack (k st) = butlast (rs_stack st)"
  shows "step_ok env (emit toks st (\<lambda>st. (k st, Some rest)))"
  using assms(1-3) by (intro step_ok_emit) (auto simp: opened_def step_ok_def rewrite_inv_def k)

lemma rewriteIdentity_ok:
  assumes "opened env st" "responseFieldRuleForPath (re_profile env) (Join (rs_stack st) ''/'') = Some rule" "fr_identityContainer rule"
  shows "step_ok env (rewriteIdentity env n ts st)"
proof (cases "Skip 0 ts")
  case None
  then show ?thesis using assms(1) by (simp add: rewriteIdentity_def step_ok_def opened_def)
next
  case (Some rest)
  then show ?thesis
    using opened_closes [OF assms(1) virtual_identity [OF assms(2,3)], of pop n rest] by (simp add: rewriteIdentity_def)
qed

lemma rewriteText_ok:
  assumes "opened env st" "responseFieldRuleForPath (re_profile env) (Join (rs_stack st) ''/'') = Some rule" "fr_transform rule \<noteq> textTransformNone"
  shows "step_ok env (rewriteText env (fr_transform rule) (Join (rs_stack st) ''/'') n ts st)"
proof (cases "readElementText n [] ts")
  case None
  then show ?thesis using assms(1) by (simp add: rewriteText_def step_ok_def opened_def)
next
  case (Some r)
  obtain raw m rest where r: "r = (raw, m, rest)" by (cases r)
  let ?path = "Join (rs_stack st) ''/''"
  show ?thesis
  proof (cases "applyResponseTextTransform (fr_transform rule) ?path raw (re_plan env) (re_cfg env) (re_pathPrefix env) (re_virtualLocation env)")
    case None
    then show ?thesis using assms(1) Some r by (simp add: rewriteText_def step_ok_def opened_def)
  next
    case v: (Some v)
    have "virtualText env (rs_stack st) v"
      using transform_clientView [OF assms(2) v] assms(2,3) by (simp add: virtualText_def)
    then have "allVirtual env (rs_stack st) [CharData v, EndElement m]"
      by (simp add: allVirtual_def virtualToken_def own_place_def)
    then show ?thesis
      using opened_closes [OF assms(1), of "[CharData v, EndElement m]" "\<lambda>st. pop (noteField ?path v st)" rest] Some r v
      by (simp add: rewriteText_def)
  qed
qed

lemma rewriteStart_ok:
  assumes inv: "rewrite_inv env st0"
  shows "step_ok env (rewriteStart env n attrs ts st0)"
proof -
  let ?st = "st0\<lparr>rs_seenRoot := True, rs_stack := rs_stack st0 @ [n_Local n]\<rparr>"
  let ?path = "Join (rs_stack st0 @ [n_Local n]) ''/''"
  let ?go = "\<lambda>st. case responseFieldRuleForPath (re_profile env) ?path of None \<Rightarrow> (st, Some ts)
    | Some rule \<Rightarrow> if fr_identityContainer rule then rewriteIdentity env n ts st
        else if fr_transform rule \<noteq> textTransformNone then rewriteText env (fr_transform rule) ?path n ts st else (st, Some ts)"
  have w: "written ?st = written st0" "written (st0\<lparr>rs_seenRoot := True\<rparr>) = written st0" by (simp_all add: written_def)
  have skip: "step_ok env (case Skip 0 ts of None \<Rightarrow> (?st, None) | Some rest \<Rightarrow> (pop ?st, Some rest))"
    using inv w by (auto simp: step_ok_def rewrite_inv_def split: option.split)
  have go: "step_ok env (emit [StartElement n (filterSafeXMLAttributes (re_endpoint env) (re_cfg env) attrs)] (trackOwner ?path ?st) ?go)"
    if known: "knownResponsePath (re_profile env) ?path" and ns: "n_Space n = [] \<or> n_Space n = s3XMLNamespace"
  proof (rule step_ok_emit)
    show "allVirtual env [] (written (trackOwner ?path ?st))" using inv w by (simp add: rewrite_inv_def)
    show "allVirtual env (place [] (written (trackOwner ?path ?st))) [StartElement n (filterSafeXMLAttributes (re_endpoint env) (re_cfg env) attrs)]"
      using virtual_start [OF known ns] inv w by (simp add: rewrite_inv_def)
    fix e
    let ?s = "(trackOwner ?path ?st)\<lparr>rs_encoder := e\<rparr>"
    assume v: "allVirtual env [] (written ?s)"
      and p: "place [] (written ?s) = place (place [] (written (trackOwner ?path ?st))) [StartElement n (filterSafeXMLAttributes (re_endpoint env) (re_cfg env) attrs)]"
    have stack: "rs_stack ?s = rs_stack st0 @ [n_Local n]" by simp
    then have op: "opened env ?s" using v p inv w by (simp add: opened_def rewrite_inv_def)
    show "step_ok env (?go ?s)"
    proof (cases "plainPath (re_profile env) ?path")
      case True
      then have "rewrite_inv env ?s"
        using op stack plain_stack [of "rs_stack st0"] by (simp add: opened_def rewrite_inv_def)
      then have "step_ok env (?s, Some ts)" by (simp add: step_ok_def rewrite_inv_def)
      then show ?thesis using True by (auto simp: plainPath_def split: option.splits)
    next
      case False
      then obtain rule where rule: "responseFieldRuleForPath (re_profile env) ?path = Some rule"
        "fr_identityContainer rule \<or> fr_transform rule \<noteq> textTransformNone"
        using known by (auto simp: plainPath_def split: option.splits)
      show ?thesis
        using rule rewriteIdentity_ok [OF op, of rule n ts] rewriteText_ok [OF op, of rule n ts] unfolding stack by auto
    qed
  qed
  have stack: "rs_stack ?st = rs_stack st0 @ [n_Local n]" by simp
  have "step_ok env (st0, None)" "step_ok env (st0\<lparr>rs_seenRoot := True\<rparr>, None)" "step_ok env (?st, None)"
    using step_ok_fail [OF inv] w by simp_all
  then show ?thesis
    using skip go unfolding rewriteStart_def Let_def stack if_split [of "step_ok env"] by blast
qed

lemma rewriteToken_ok:
  assumes "rewrite_inv env st" "expectedResponseRoot (re_profile env) \<noteq> []"
  shows "step_ok env (rewriteToken env t ts st)"
proof -
  have "step_ok env (st, Some ts)" using assms(1) by (simp add: step_ok_def rewrite_inv_def)
  with rewriteStart_ok [OF assms(1)] rewriteEnd_ok [OF assms(1)] rewriteCharData_ok [OF assms] show ?thesis
    unfolding rewriteToken_def by (cases t) (simp_all only: xml_token.case)
qed

lemma rewriteLoop_virtual:
  "rewrite_inv env st \<Longrightarrow> expectedResponseRoot (re_profile env) \<noteq> [] \<Longrightarrow> allVirtual env [] (written (fst (rewriteLoop env eof ts st)))"
proof (induction env eof ts st rule: rewriteLoop.induct)
  case (1 env eof st)
  then show ?case by (simp add: rewrite_inv_def)
next
  case (2 env eof t ts st)
  obtain st' res where r: "rewriteToken env t ts st = (st', res)" by (cases "rewriteToken env t ts st")
  have ok: "step_ok env (st', res)" using rewriteToken_ok [OF 2(2,3), of t ts] r by simp
  show ?case using 2(1) [OF r [symmetric]] 2(3) ok r by (cases res) (auto simp: step_ok_def)
qed

lemma rewriteNamespaceXML_virtual:
  assumes "expectedResponseRoot (re_profile env) \<noteq> []"
  shows "allVirtual env [] (fst (rewriteNamespaceXML env decoder))"
proof -
  have "rewrite_inv env rewrite_init" by (simp add: rewrite_inv_def rewrite_init_def written_def NewEncoder_def allVirtual_def)
  from rewriteLoop_virtual [OF this assms] show ?thesis
    by (simp add: rewriteNamespaceXML_def written_def case_prod_unfold)
qed

section \<open>Responses\<close>

text \<open>The codes and messages that an error document may hold. None of them is text of the origin.\<close>

definition publicCodes :: "string list" where
  "publicCodes =
     [''EntityTooSmall'', ''InvalidArgument'', ''InvalidPart'', ''InvalidPartOrder'', ''InvalidRequest'', ''MalformedXML'',
      ''AccessDenied'', ''InvalidObjectState'', ''BucketNotEmpty'', ''OperationAborted'', ''PreconditionFailed'', ''InvalidRange'',
      ''SlowDown'', ''InternalError'', ''ServiceUnavailable'', ''NoSuchBucket'', ''NoSuchUpload'', ''NoSuchVersion'', ''NoSuchKey'']"

definition publicMessages :: "string list" where
  "publicMessages =
     [''Invalid upstream S3 response'', ''Upstream S3 redirect cannot be safely followed'', ''Upstream S3 request failed'']"

definition publicError :: "xml_token list \<Rightarrow> bool" where
  "publicError out =
     list_ex (\<lambda>code. list_ex (\<lambda>message. out = s3ErrorResponse code message) publicMessages) publicCodes"

definition clientEnv :: "rewrite_env \<Rightarrow> rewrite_env" where
  "clientEnv env = env\<lparr>re_virtualLocation := if listing (re_profile env) then [] else virtualResponseLocation (re_plan env)\<rparr>"

lemma publicErrorI: "code \<in> set publicCodes \<Longrightarrow> message \<in> set publicMessages \<Longrightarrow> publicError (s3ErrorResponse code message)"
  unfolding publicError_def list_ex_iff by blast

lemma safe_code_is_public: "safeUpstreamErrorCode kind status upstream \<in> set publicCodes"
proof -
  have known: "list_all (\<lambda>status. list_all (\<lambda>code. code \<in> set publicCodes) (allowedByStatus status)) [400, 403, 409, 412, 416, 429, 500, 503]"
    by code_simp
  have "upstream \<in> set publicCodes" if "upstream \<in> set (allowedByStatus status)"
  proof (cases "status \<in> set [400, 403, 409, 412, 416, 429, 500, 503]")
    case True
    then show ?thesis using known that unfolding list_all_iff by blast
  next
    case False
    then show ?thesis using that by (simp add: allowedByStatus_def)
  qed
  moreover have "upstream \<in> set publicCodes" if "compatibleNotFoundCode kind upstream"
  proof -
    have "list_all (\<lambda>code. code \<in> set publicCodes) [''NoSuchBucket'', ''NoSuchUpload'', ''NoSuchVersion'', ''NoSuchKey'']" by code_simp
    moreover have "upstream \<in> set [''NoSuchBucket'', ''NoSuchUpload'', ''NoSuchVersion'', ''NoSuchKey'']"
      using that unfolding compatibleNotFoundCode_def by (simp only: list.set insert_iff simp_thms split: if_splits)
    ultimately show ?thesis unfolding list_all_iff by blast
  qed
  moreover have "safeErrorCodeForStatus kind status \<in> set publicCodes"
    unfolding safeErrorCodeForStatus_def publicCodes_def by simp
  ultimately show ?thesis by (simp add: safeUpstreamErrorCode_def)
qed

definition bodyOf :: "s3_answer \<times> write_outcome \<Rightarrow> answer_body" where
  "bodyOf r = an_body (fst r)"

definition safeBody :: "rewrite_env \<Rightarrow> http_response \<Rightarrow> answer_body \<Rightarrow> bool" where
  "safeBody env resp body =
     (case body of
        NoBody \<Rightarrow> True
      | BodyXML out \<Rightarrow> publicError out \<or> allVirtual (clientEnv env) [] out
      | BodyBytes bytes \<Rightarrow> re_profile env = responseStreamObject \<and> 200 \<le> rp_StatusCode resp \<and> rp_StatusCode resp < 300
          \<and> bytes = b_data (rp_Body resp))"

lemma safeBody_simps [simp]:
  "safeBody env resp (bodyOf (\<lparr>an_status = n, an_header = h, an_body = b\<rparr>, o')) = safeBody env resp b"
  "safeBody env resp NoBody" "publicError out \<Longrightarrow> safeBody env resp (BodyXML out)"
  "allVirtual (clientEnv env) [] out \<Longrightarrow> safeBody env resp (BodyXML out)"
  "re_profile env = responseStreamObject \<Longrightarrow> \<not> (rp_StatusCode resp < 200 \<or> 300 \<le> rp_StatusCode resp) \<Longrightarrow>
    safeBody env resp (BodyBytes (b_data (rp_Body resp)))"
  by (simp_all add: safeBody_def bodyOf_def)

lemma badUpstream_safe: "safeBody env resp (bodyOf (badUpstream dst))"
proof -
  have "publicError (s3ErrorResponse ''InternalError'' ''Invalid upstream S3 response'')"
    by (rule publicErrorI) (simp_all add: publicCodes_def publicMessages_def)
  then show ?thesis by (simp add: badUpstream_def writeS3Error_def s3Error_def)
qed

lemma withSafeHeaders_safe:
  "(\<And>h. safeBody env resp (bodyOf (k h))) \<Longrightarrow> safeBody env resp (bodyOf (withSafeHeaders env resp dst k))"
  using badUpstream_safe by (simp add: withSafeHeaders_def split: sum.split)

lemma writeUpstreamError_safe: "safeBody env resp (bodyOf (writeUpstreamError decode env resp dst))"
proof -
  have "publicError (s3ErrorResponse (safeUpstreamErrorCode kind status code) ''Upstream S3 request failed'')" for kind status code
    by (rule publicErrorI [OF safe_code_is_public]) (simp add: publicMessages_def)
  then show ?thesis
    using badUpstream_safe by (simp add: writeUpstreamError_def withSafeHeaders_safe split: option.split)
qed

lemma rewritten_is_safe:
  assumes "re_profile env \<in> set [responseListObjects, responseListMultipartUploads, responseCreateMultipart, responseListParts,
    responseCompleteMultipart, responseCopyObject]"
  shows "allVirtual (clientEnv env) [] (fst (rewriteNamespaceXML (clientEnv env) decoder))"
  by (rule rewriteNamespaceXML_virtual) (use assms in \<open>auto simp: clientEnv_def expectedResponseRoot_def\<close>)


end
