(* ===== verification/S3_Headers.thy ===== *)
theory S3_Headers
  imports S3_Virtual
begin

text \<open>
  What the headers of a response show (\<^verbatim>\<open>copySafeResponseHeaders\<close> of \<^verbatim>\<open>s3_response.go\<close> and the headers that are set
  or dropped after it), whatever headers the origin sends.
\<close>

section \<open>Headers that satisfy a predicate\<close>

definition headers_all :: "(string \<Rightarrow> string \<Rightarrow> bool) \<Rightarrow> http_header \<Rightarrow> bool" where
  "headers_all P h = list_all (\<lambda>(name, vs). list_all (P name) vs) h"

lemma headers_all_Nil [simp]: "headers_all P []"
  by (simp add: headers_all_def)

lemma headers_all_map_of: "headers_all P h \<Longrightarrow> map_of h k = Some vs \<Longrightarrow> list_all (P k) vs"
  by (auto simp: headers_all_def list_all_iff dest!: map_of_SomeD)

lemma headers_all_update: "headers_all P h \<Longrightarrow> list_all (P k) vs \<Longrightarrow> headers_all P (AList.update k vs h)"
  by (induction h) (auto simp: headers_all_def)

lemma headers_all_Set: "headers_all P h \<Longrightarrow> P (CanonicalHeaderKey name) v \<Longrightarrow> headers_all P (header_Set h name v)"
  by (simp add: header_Set_def headers_all_update)

lemma headers_all_Add: "headers_all P h \<Longrightarrow> P (CanonicalHeaderKey name) v \<Longrightarrow> headers_all P (header_Add h name v)"
  by (auto simp: header_Add_def Let_def dest: headers_all_map_of intro!: headers_all_update split: option.split)

lemma headers_all_Del: "headers_all P h \<Longrightarrow> headers_all P (header_Del h name)"
  unfolding header_Del_filter headers_all_def list_all_iff by auto

lemma headers_all_drop: "headers_all P h \<Longrightarrow> headers_all P (dropHeaders discard h)"
proof -
  have "headers_all P (foldl (\<lambda>h name. if discard (ToLower name) then header_Del h name else h) h ks)" if "headers_all P h" for h ks
    using that by (induction ks arbitrary: h) (auto intro: headers_all_Del)
  then show "headers_all P h \<Longrightarrow> headers_all P (dropHeaders discard h)" by (simp add: dropHeaders_def)
qed

lemma headers_all_representation: "headers_all P h \<Longrightarrow> headers_all P (dropTransformedRepresentationHeaders h profile)"
  by (simp add: dropTransformedRepresentationHeaders_def dropDiscardedBodyHeaders_def Let_def headers_all_drop)

lemma headers_all_addHeaders:
  assumes "headers_all P dst" "headers_all P staged" "\<And>name v. P name v \<Longrightarrow> P (CanonicalHeaderKey name) v"
  shows "headers_all P (addHeaders dst staged)"
proof -
  have add: "headers_all P (foldl (\<lambda>d v. header_Add d name v) d vs)" if "headers_all P d" "list_all (P name) vs" for d name vs
    using that by (induction vs arbitrary: d) (auto intro: headers_all_Add assms(3))
  show ?thesis
    unfolding addHeaders_def using assms(1,2) by (induction staged arbitrary: dst) (auto simp: headers_all_def [of P "_ # _"] intro: add simp flip: headers_all_def)
qed

section \<open>The headers of a response\<close>

definition shownHeader :: "rewrite_env \<Rightarrow> nat \<Rightarrow> string \<Rightarrow> string \<Rightarrow> bool" where
  "shownHeader env status name v =
     (CanonicalHeaderKey name = name
      \<and> (name = ''Content-Type'' \<and> v = ''application/xml''
         \<or> safeS3ResponseHeader name
           \<and> (versionHeader name \<longrightarrow> issued (re_cfg env) ''version'' v)
           \<and> (200 \<le> status \<and> status < 300 \<and> operationReadsObject (p_kind (re_plan env)) \<and> userControlledResponseHeader name
              \<or> \<not> containsSensitiveBackendValue (re_endpoint env) (re_cfg env) v)))"

lemma stageValue_shown:
  assumes "stageValue (re_endpoint env) (re_cfg env) (re_plan env) status canonical v staged = Inr staged'" "headers_all (shownHeader env status) staged"
    and "CanonicalHeaderKey canonical = canonical" "safeS3ResponseHeader canonical"
  shows "headers_all (shownHeader env status) staged'"
  using assms headers_all_Add [of "shownHeader env status" staged canonical]
  by (auto simp: stageValue_def res_simps Let_def shownHeader_def issued_def split: if_splits)

lemma stageValues_shown:
  "stageValues (re_endpoint env) (re_cfg env) (re_plan env) status canonical vs staged = Inr staged' \<Longrightarrow> headers_all (shownHeader env status) staged
    \<Longrightarrow> CanonicalHeaderKey canonical = canonical \<Longrightarrow> safeS3ResponseHeader canonical \<Longrightarrow> headers_all (shownHeader env status) staged'"
  by (induction vs arbitrary: staged) (auto simp: res_simps dest: stageValue_shown)

lemma stageHeaders_shown:
  "stageHeaders hop (re_endpoint env) (re_cfg env) (re_plan env) status src staged = Inr staged' \<Longrightarrow> headers_all (shownHeader env status) staged
    \<Longrightarrow> headers_all (shownHeader env status) staged'"
proof (induction src arbitrary: staged)
  case (Cons e src)
  obtain name vs where e: "e = (name, vs)" by (cases e)
  show ?case
    using Cons.prems Cons.IH stageValues_shown [of env status "CanonicalHeaderKey name" vs staged]
    by (auto simp: e Let_def res_simps split: if_splits)
qed simp

lemma copySafeResponseHeaders_shown:
  assumes "copySafeResponseHeaders (re_endpoint env) src dst (re_cfg env) (re_plan env) status = Inr h" "headers_all (shownHeader env status) dst"
  shows "headers_all (shownHeader env status) h"
  using assms stageHeaders_shown [of _ env status src "[]"]
  by (auto simp: copySafeResponseHeaders_def res_simps intro!: headers_all_addHeaders simp: shownHeader_def)

definition headerOf :: "s3_answer \<times> write_outcome \<Rightarrow> http_header" where
  "headerOf r = an_header (fst r)"

lemma shown_xml: "shownHeader env status (CanonicalHeaderKey ''Content-Type'') ''application/xml''"
proof -
  have "CanonicalHeaderKey ''Content-Type'' = ''Content-Type''" by code_simp
  then show ?thesis by (simp add: shownHeader_def)
qed

lemma headerOf_simps [simp]: "headerOf (\<lparr>an_status = n, an_header = h, an_body = b\<rparr>, o') = h"
  by (simp add: headerOf_def)

lemma xmlHeaders_shown: "headers_all (shownHeader env status) h \<Longrightarrow> headers_all (shownHeader env status) (xmlHeaders h profile)"
  by (simp add: xmlHeaders_def headers_all_Set headers_all_Del headers_all_representation shown_xml)

lemma badUpstream_shown: "headers_all (shownHeader env status) dst \<Longrightarrow> headers_all (shownHeader env status) (headerOf (badUpstream dst))"
  by (simp add: badUpstream_def writeS3Error_def headers_all_Set shown_xml)

lemma withSafeHeaders_shown:
  assumes "headers_all (shownHeader env (rp_StatusCode resp)) dst"
    and "\<And>h. headers_all (shownHeader env (rp_StatusCode resp)) h \<Longrightarrow> headers_all (shownHeader env (rp_StatusCode resp)) (headerOf (k h))"
  shows "headers_all (shownHeader env (rp_StatusCode resp)) (headerOf (withSafeHeaders env resp dst k))"
  using assms badUpstream_shown copySafeResponseHeaders_shown by (auto simp: withSafeHeaders_def split: sum.split)

text \<open>
  C7. What the headers of a response show. Every header of a response has a name from the list of safe names. Its value names neither
  the endpoint, nor the bucket, nor the credentials, region or prefix of the mapping, unless it is a header in which a client
  stored text with an object, on a successful read of an object. A version is a token that the proxy issued. The only value that
  is not of the origin is the content type of a document that the proxy writes.
\<close>
theorem response_headers_are_safe:
  "headers_all (shownHeader env (rp_StatusCode resp)) (headerOf (writeVirtualizedUpstreamResponse decode method env resp []))"
proof -
  define hok where "hok = headers_all (shownHeader env (rp_StatusCode resp))"
  have nil: "hok []" by (simp add: hok_def)
  have del: "hok (header_Del h name)" "hok (dropHeaders discard h)" if "hok h" for h name discard
    using that by (simp_all add: hok_def headers_all_Del headers_all_drop)
  have xml: "hok (header_Set h ''Content-Type'' ''application/xml'')" "hok (xmlHeaders h profile)" if "hok h" for h profile
    using that xmlHeaders_shown by (simp_all add: hok_def headers_all_Set shown_xml)
  have bad: "hok (headerOf (badUpstream dst))" if "hok dst" for dst
    using that badUpstream_shown by (simp add: hok_def)
  have safe: "hok (headerOf (withSafeHeaders env resp [] k))" if "\<And>h. hok h \<Longrightarrow> hok (headerOf (k h))" for k
    using that withSafeHeaders_shown [of env resp "[]" k] by (simp add: hok_def)
  have error: "hok (headerOf (writeUpstreamError decode env resp []))"
    by (simp add: writeUpstreamError_def safe xml bad nil split: option.split)
  have "hok (headerOf (writeVirtualizedUpstreamResponse decode method env resp []))"
    unfolding writeVirtualizedUpstreamResponse_def Let_def
    by (simp add: nil error bad safe xml del writeS3Error_def case_prod_unfold dropDiscardedBodyHeaders_def split: option.split)
  then show ?thesis by (simp add: hok_def)
qed

section \<open>Name spaces\<close>

text \<open>
  The decoder reports a default name space both as the name space of an element and as an attribute of the element that
  declares it. The rewriting keeps both, and the encoder writes both: the root of a response that declares the S3 name space
  is written with two attributes of the same name, which is not well-formed XML.
\<close>

lemma declared_namespace_is_written_twice:
  assumes "\<not> containsSensitiveBackendValue endpoint cfg s3XMLNamespace"
  shows "written_attributes \<lparr>n_Space = s3XMLNamespace, n_Local = l\<rparr> (filterSafeXMLAttributes endpoint cfg [xmlns_attr]) =
    [(''xmlns'', s3XMLNamespace), (''xmlns'', s3XMLNamespace)]"
  using assms by (simp add: written_attributes_def filterSafeXMLAttributes_def xmlns_attr_def xml_tag_def s3XMLNamespace_def)

end
