(* ===== verification/S3_Server.thy ===== *)
theory S3_Server
  imports S3_Headers
begin

text \<open>
  The S3 server: the handlers of \<^verbatim>\<open>s3_proxy.go\<close> behind the middleware of \<^verbatim>\<open>s3_middleware.go\<close>. The origin is an argument: it is
  given a request and a body and gives a response, or none where it cannot be reached. A run records what was sent
  to the origin next to what the client is sent. The theorems follow a request from the client to the origin and back.
\<close>

section \<open>Handlers\<close>

datatype served = Served s3_answer write_outcome | Panicked

record s3_run =
  run_sent :: "(http_request \<times> io_reader option) option"
  run_served :: served

type_synonym s3_origin = "http_request \<Rightarrow> io_reader option \<Rightarrow> http_response option"

text \<open>The body that is sent: the validated document of a multipart completion, else the body of the client.\<close>

definition outboundBody :: "S3OperationPlan \<Rightarrow> io_reader option \<Rightarrow> io_reader option" where
  "outboundBody plan body = (if p_bodyKind plan = bodyCompleteMultipartXML then Some (bytes_reader (p_controlBody plan)) else body)"

definition response_env :: "S3OperationPlan \<Rightarrow> VBucketConfig \<Rightarrow> parsed_url \<Rightarrow> rewrite_env" where
  "response_env plan cfg endpoint =
     \<lparr>re_plan = plan, re_cfg = cfg, re_endpoint = endpoint, re_pathPrefix = normalizedPrefix cfg, re_virtualLocation = []\<rparr>"

definition answered :: "s3_error \<Rightarrow> s3_run" where
  "answered e = \<lparr>run_sent = None, run_served = Served (writeS3Error [] e) Failed\<rparr>"

definition proxyS3Request :: "request_env \<Rightarrow> s3_origin \<Rightarrow> civil \<Rightarrow> http_request \<Rightarrow> request_context \<Rightarrow> s3_run" where
  "proxyS3Request v origin now r x =
     (case proxyRequest (x_vbConfig x) (x_plan x) now of
        Inl (Answer e) \<Rightarrow> answered e
      | Inl NilDereference \<Rightarrow> \<lparr>run_sent = None, run_served = Panicked\<rparr>
      | Inr (cfg, req) \<Rightarrow>
          let body = outboundBody (x_plan x) (v_body v) in
          \<lparr>run_sent = Some (req, body),
           run_served =
             (case origin req body of
                None \<Rightarrow> Served (writeS3Error [] (s3Error 502 ''InternalError'' ''Failed to contact upstream S3'')) Failed
              | Some resp \<Rightarrow>
                  (case parseEndpoint (RealEndpoint cfg) of
                     None \<Rightarrow> Panicked
                   | Some endpoint \<Rightarrow>
                       case_prod Served (writeVirtualizedUpstreamResponse (v_decode v) (r_Method r) (response_env (x_plan x) cfg endpoint) resp [])))\<rparr>)"

definition handleS3Request :: "Resolver \<Rightarrow> request_env \<Rightarrow> s3_origin \<Rightarrow> civil \<Rightarrow> http_request \<Rightarrow> request_context \<Rightarrow> s3_run" where
  "handleS3Request res v origin now r x =
     (if p_kind (x_plan x) = operationCreateBucket then \<lparr>run_sent = None, run_served = Served (handleCreateVBucket res x) Written\<rparr>
      else if p_kind (x_plan x) = operationListBuckets then \<lparr>run_sent = None, run_served = Served (handleListVBuckets res x) Written\<rparr>
      else proxyS3Request v origin now r x)"

definition serveS3 :: "Resolver \<Rightarrow> request_env \<Rightarrow> s3_origin \<Rightarrow> civil \<Rightarrow> http_request \<Rightarrow> s3_run" where
  "serveS3 res v origin now r =
     (case S3Auth res v r of Inl e \<Rightarrow> answered e | Inr x \<Rightarrow> handleS3Request res v origin now r x)"

section \<open>Requests that pass the middleware\<close>

lemma of_error_Inr [res_simps]: "of_error f m = Inr x \<longleftrightarrow> m = Inr x"
  by (cases m) (simp_all add: of_error_def)

text \<open>What the middleware adds to the plan of a request before it is authorized.\<close>

definition completed :: "S3OperationPlan \<Rightarrow> S3OperationPlan \<Rightarrow> bool" where
  "completed plan0 plan =
     (plan = plan0\<lparr>p_isVHost := p_isVHost plan, p_locationConstraint := p_locationConstraint plan,
        p_controlBody := p_controlBody plan, p_contentLength := p_contentLength plan\<rparr>)"

lemma completed_metadata: "completed plan0 plan \<Longrightarrow> completed plan0 (withRequestMetadata plan vh loc)"
  by (cases plan0, cases plan) (simp add: completed_def withRequestMetadata_def)

lemma completed_body: "completed plan0 plan \<Longrightarrow> withCompleteMultipartBody decode plan body = Some plan' \<Longrightarrow> completed plan0 plan'"
  by (cases plan0, cases plan) (auto simp: completed_def withCompleteMultipartBody_def split: option.splits if_splits)

lemma completed_refl: "completed plan plan"
  by (simp add: completed_def)

lemma completed_keeps:
  assumes "completed plan0 plan"
  shows "p_kind plan = p_kind plan0" "p_bucket plan = p_bucket plan0" "p_objectKey plan = p_objectKey plan0" "p_iamChecks plan = p_iamChecks plan0"
    "p_method plan = p_method plan0" "p_query plan = p_query plan0" "p_responseProfile plan = p_responseProfile plan0"
    "authorizationContext plan loc t = authorizationContext plan0 loc t" "accepted_plan plan = accepted_plan plan0"
  by (subst assms [unfolded completed_def], simp add: authorizationContext_def accepted_plan_def)+

lemma planRequest_Inr:
  assumes "planRequest res v r = Inr plan"
  obtains bucket key vh plan0 where "resolveBucket (rv_LookupBaseHost res) r = Inr (bucket, key, vh)" "bucket \<noteq> [] \<longrightarrow> isValidBucketName bucket"
    "planS3Operation r bucket key = Inr plan0" "completed plan0 plan"
proof -
  obtain bucket key vh plan0 where a: "resolveBucket (rv_LookupBaseHost res) r = Inr (bucket, key, vh)" "bucket \<noteq> [] \<longrightarrow> isValidBucketName bucket"
    "planS3Operation r bucket key = Inr plan0"
    and p: "plan = withRequestMetadata plan0 vh [] \<or> withCompleteMultipartBody (v_decode v) (withRequestMetadata plan0 vh []) (v_body v) = Some plan"
    using assms by (auto simp: planRequest_def res_simps Let_def split: if_splits option.splits)
  then show thesis using that completed_metadata [OF completed_refl] completed_body by blast
qed

lemma resolveMapping_Inr:
  assumes "resolveMapping res v accessKey plan = Inr (vb, loc, plan')" "completed plan0 plan"
  shows "completed plan0 plan'"
    "p_kind plan0 \<noteq> operationListBuckets \<and> p_kind plan0 \<noteq> operationCreateBucket \<longrightarrow>
      loc = [] \<and> plan' = plan \<and> rv_LookupVBucket res accessKey (p_bucket plan0) = Inr vb"
  using assms completed_metadata [OF assms(2)] completed_keeps(1,2) [OF assms(2)]
  by (auto simp: resolveMapping_def res_simps split: if_splits)

text \<open>
  A request that passes the middleware was signed with the secret of the access key that it names, was planned, and its
  plan was authorized by the policy of that access key, in a context of its own, under a stamp that was still valid at the end.
\<close>

definition passed :: "Resolver \<Rightarrow> request_env \<Rightarrow> http_request \<Rightarrow> request_context \<Rightarrow> VirtualCredentials \<Rightarrow> string \<Rightarrow> string \<Rightarrow> S3OperationPlan \<Rightarrow> bool" where
  "passed res v r x creds bucket key plan0 =
     (\<exists>hv stamp vh plan loc.
        header_Values (r_Header r) ''Authorization'' = [hv] \<and> parseAuthorizationHeader hv = Some (x_authInfo x)
      \<and> rv_BeginResolution res = Inr stamp \<and> rv_LookupCredentials res (ai_AccessKeyID (x_authInfo x)) = Inr (Some creds)
      \<and> verifySignatureAtTime r (Some (x_authInfo x)) (SecretKey creds) (v_verifyTime v) (v_maxSkew v) = Inr ()
      \<and> resolveBucket (rv_LookupBaseHost res) r = Inr (bucket, key, vh) \<and> (bucket \<noteq> [] \<longrightarrow> isValidBucketName bucket)
      \<and> planS3Operation r bucket key = Inr plan0 \<and> completed plan0 plan
      \<and> (p_kind plan0 \<noteq> operationListBuckets \<and> p_kind plan0 \<noteq> operationCreateBucket \<longrightarrow>
           loc = [] \<and> rv_LookupVBucket res (ai_AccessKeyID (x_authInfo x)) bucket = Inr (x_vbConfig x))
      \<and> x_plan x = withAuthorizationContext plan loc (v_authorizeTime v)
      \<and> AuthorizeS3Plan (IAMPolicy creds) (Some (x_plan x)) = Inr () \<and> rv_ValidateResolution res stamp = Inr ())"

lemma authenticate_Inr:
  assumes "authenticate res v r = Inr (stamp, ai, creds)"
  obtains hv where "header_Values (r_Header r) ''Authorization'' = [hv]" "parseAuthorizationHeader hv = Some ai"
    "rv_BeginResolution res = Inr stamp" "rv_LookupCredentials res (ai_AccessKeyID ai) = Inr (Some creds)"
    "verifySignatureAtTime r (Some ai) (SecretKey creds) (v_verifyTime v) (v_maxSkew v) = Inr ()"
proof -
  obtain hv where "header_Values (r_Header r) ''Authorization'' = [hv]"
    using assms by (cases "header_Values (r_Header r) ''Authorization''") (auto simp: authenticate_def Let_def split: if_splits)
  then show thesis
    using that [of hv] assms by (auto simp: authenticate_def Let_def res_simps split: if_splits)
qed

lemma S3Auth_Inr:
  assumes "S3Auth res v r = Inr x"
  obtains creds bucket key plan0 where "passed res v r x creds bucket key plan0"
proof -
  obtain stamp ai creds plan vb loc plan1 where a: "authenticate res v r = Inr (stamp, ai, creds)" and p: "planRequest res v r = Inr plan"
    and m: "resolveMapping res v (ai_AccessKeyID ai) plan = Inr (vb, loc, plan1)"
    and z: "AuthorizeS3Plan (IAMPolicy creds) (Some (withAuthorizationContext plan1 loc (v_authorizeTime v))) = Inr ()"
      "rv_ValidateResolution res stamp = Inr ()"
      "x = \<lparr>x_vbConfig = vb, x_authInfo = ai, x_plan = withAuthorizationContext plan1 loc (v_authorizeTime v)\<rparr>"
    using assms by (auto simp: S3Auth_def res_simps Let_def)
  obtain bucket key vh plan0 where b: "resolveBucket (rv_LookupBaseHost res) r = Inr (bucket, key, vh)" "bucket \<noteq> [] \<longrightarrow> isValidBucketName bucket"
    "planS3Operation r bucket key = Inr plan0" "completed plan0 plan"
    using p by (rule planRequest_Inr)
  have bk: "p_bucket plan0 = bucket" using b(3) by (rule planS3Operation_Inr) simp
  obtain hv where "header_Values (r_Header r) ''Authorization'' = [hv]" "parseAuthorizationHeader hv = Some ai"
    "rv_BeginResolution res = Inr stamp" "rv_LookupCredentials res (ai_AccessKeyID ai) = Inr (Some creds)"
    "verifySignatureAtTime r (Some ai) (SecretKey creds) (v_verifyTime v) (v_maxSkew v) = Inr ()"
    using a by (rule authenticate_Inr)
  then have "passed res v r x creds bucket key plan0"
    unfolding passed_def z(3) request_context.simps using b z(1,2) resolveMapping_Inr [OF m b(4)] unfolding bk by blast
  then show thesis by (rule that)
qed

section \<open>From the client to the origin\<close>

definition allowed :: "Policy \<Rightarrow> iam_request \<Rightarrow> bool" where
  "allowed policy req =
     ((\<exists>st \<in> set (statements policy). statement_matches st req \<and> stmt_effect st = effectAllow)
      \<and> \<not> (\<exists>st \<in> set (statements policy). statement_matches st req \<and> stmt_effect st = effectDeny))"

text \<open>The check of the operation itself, on the resource that the client addressed, is among the checks of a plan.\<close>

lemma base_check_planned:
  assumes "planS3Operation r bucket key = Inr plan"
  shows "base_check bucket key (p_kind plan) \<in> set (p_iamChecks plan)"
  using assms
proof (rule planS3Operation_Inr)
  fix query sh
  assume "planShape r bucket key query = Inr sh" "plan = plan_of r bucket key query sh"
  then show ?thesis using planShape_facts(1) [of r bucket key query sh] by simp
qed

lemma passed_allows:
  assumes "passed res v r x creds bucket key plan0" "p_kind plan0 \<noteq> operationListBuckets" "p_kind plan0 \<noteq> operationCreateBucket"
  obtains policy where "IAMPolicy creds = Some policy"
    "\<forall>c \<in> set (p_iamChecks plan0). allowed policy (c\<lparr>Context := authorizationContext plan0 [] (v_authorizeTime v)\<rparr>)"
proof -
  obtain plan where plan: "planS3Operation r bucket key = Inr plan0" "completed plan0 plan"
    and x: "x_plan x = withAuthorizationContext plan [] (v_authorizeTime v)" "AuthorizeS3Plan (IAMPolicy creds) (Some (x_plan x)) = Inr ()"
    using assms unfolding passed_def by blast
  have all: "\<forall>c \<in> set (p_iamChecks plan0). Authorize (IAMPolicy creds) (c\<lparr>Context := authorizationContext plan0 [] (v_authorizeTime v)\<rparr>) = Inr ()"
    using x(2) completed_keeps(4,8) [OF plan(2)]
    by (simp add: x(1) AuthorizeS3Plan_def withAuthorizationContext_def Let_def buildS3IAMRequestsFromPlan_def authorizeAll_Inr)
  show thesis
  proof (cases "IAMPolicy creds")
    case None
    then show thesis using all base_check_planned [OF plan(1)] by (auto simp: Authorize_def)
  next
    case (Some policy)
    then show thesis using that [OF Some] all by (simp add: allowed_def Authorize_allows)
  qed
qed

lemma serveS3_sent:
  assumes "run_sent (serveS3 res v origin now r) = Some (req, body)"
  obtains x cfg where "S3Auth res v r = Inr x" "p_kind (x_plan x) \<noteq> operationListBuckets" "p_kind (x_plan x) \<noteq> operationCreateBucket"
    "proxyRequest (x_vbConfig x) (x_plan x) now = Inr (cfg, req)" "body = outboundBody (x_plan x) (v_body v)"
  using assms
  by (auto simp: serveS3_def handleS3Request_def proxyS3Request_def answered_def Let_def split: sum.splits if_splits proxy_error.splits)

text \<open>
  C4. What the origin is asked to do. A request reaches the origin only if it named one access key, was signed with the
  secret of that access key, and was planned; if the policy of the access key allows, and does not deny, every
  check of the plan, the action of the operation on the addressed resource among them; if the mapping is the one that the resolver has for that
  access key and bucket; and if the stamp of the resolution was valid when all of this was done. The request that is sent has the
  method of the client, and its path is that of the addressed key under the prefix of the mapping, in the bucket of the mapping.
\<close>
theorem origin_requests_are_authorized:
  assumes "run_sent (serveS3 res v origin now r) = Some (req, body)" "signable_header (r_Header r)"
    and "\<forall>accessKey bucket c. rv_LookupVBucket res accessKey bucket = Inr (Some c) \<longrightarrow> plain_text (RealEndpoint c)"
  shows "\<exists>x creds policy bucket key plan c cfg.
    passed res v r x creds bucket key plan \<and> IAMPolicy creds = Some policy
    \<and> allowed policy ((base_check bucket key (p_kind plan))\<lparr>Context := authorizationContext plan [] (v_authorizeTime v)\<rparr>)
    \<and> (\<forall>check \<in> set (p_iamChecks plan). allowed policy (check\<lparr>Context := authorizationContext plan [] (v_authorizeTime v)\<rparr>))
    \<and> rv_LookupVBucket res (ai_AccessKeyID (x_authInfo x)) bucket = Inr (Some c) \<and> NormalizeVBucketConfig (Some c) = Inr cfg
    \<and> r_Method req = r_Method r
    \<and> unescape encodePath (EscapedPath (r_URL req)) =
        Some ((if RealUsePathStyle cfg then ''/'' @ RealBucket cfg @ (if key = [] then [] else ''/'') else ''/'')
              @ (if key = [] then [] else normalizedPrefix cfg @ key))"
proof -
  obtain x cfg where x: "S3Auth res v r = Inr x" and kind: "p_kind (x_plan x) \<noteq> operationListBuckets" "p_kind (x_plan x) \<noteq> operationCreateBucket"
    and sent: "proxyRequest (x_vbConfig x) (x_plan x) now = Inr (cfg, req)"
    using assms(1) by (rule serveS3_sent)
  obtain creds bucket key plan where p: "passed res v r x creds bucket key plan" using x by (rule S3Auth_Inr)
  then obtain plan1 loc where pl: "planS3Operation r bucket key = Inr plan" "completed plan plan1"
    "x_plan x = withAuthorizationContext plan1 loc (v_authorizeTime v)"
    and lookup: "p_kind plan \<noteq> operationListBuckets \<and> p_kind plan \<noteq> operationCreateBucket \<longrightarrow>
      rv_LookupVBucket res (ai_AccessKeyID (x_authInfo x)) bucket = Inr (x_vbConfig x)"
    unfolding passed_def by blast
  note k = completed_keeps [OF pl(2)]
  have kind0: "p_kind plan \<noteq> operationListBuckets" "p_kind plan \<noteq> operationCreateBucket" using kind by (simp_all add: pl(3) k)
  obtain c where c: "x_vbConfig x = Some c"
    using sent by (cases "x_vbConfig x") (simp_all add: proxyRequest_def NormalizeVBucketConfig_def)
  have found: "rv_LookupVBucket res (ai_AccessKeyID (x_authInfo x)) bucket = Inr (Some c)" using lookup kind0 c by simp
  have acc: "accepted_plan (x_plan x)"
    using planned_is_accepted [OF pl(1) assms(2)] by (simp add: pl(3) accepted_withAuthorizationContext k)
  obtain scheme host q h where n: "NormalizeVBucketConfig (Some c) = Inr cfg"
    and req: "req = signRequest (unsigned_request scheme host cfg (x_plan x) (values_Encode q) h) (RealAccessKey cfg) (RealSecretKey cfg) (RealRegion cfg) now"
    using assms(3) [rule_format, OF found] acc sent [unfolded c] by (rule proxyRequest_Inr)
  have obj: "p_objectKey (x_plan x) = key" "p_method (x_plan x) = r_Method r"
    using planned_plan [OF pl(1)] by (simp_all add: pl(3) k)
  have "r_Method req = r_Method r" by (simp add: req unsigned_request_def obj)
  moreover have "unescape encodePath (EscapedPath (r_URL req)) =
      Some ((if RealUsePathStyle cfg then ''/'' @ RealBucket cfg @ (if key = [] then [] else ''/'') else ''/'')
            @ (if key = [] then [] else normalizedPrefix cfg @ key))"
    unfolding unescape_EscapedPath by (simp add: req unsigned_request_def outboundKey_accepted [OF acc] obj outboundPath_def)
  moreover obtain policy where "IAMPolicy creds = Some policy"
    "\<forall>ch \<in> set (p_iamChecks plan). allowed policy (ch\<lparr>Context := authorizationContext plan [] (v_authorizeTime v)\<rparr>)"
    using p kind0 by (rule passed_allows)
  ultimately show ?thesis using p found n base_check_planned [OF pl(1)] by blast
qed

section \<open>Refusals\<close>

text \<open>
  C9. Refusals do not tell buckets apart. To a client whose signature was verified, a bucket that its access key has no mapping for answers exactly
  as a bucket that its policy denies, and nothing is sent to the origin.
\<close>
theorem unknown_buckets_look_denied:
  assumes "authenticate res v r = Inr (stamp, ai, creds)" "planRequest res v r = Inr plan"
    and "p_kind plan \<noteq> operationListBuckets" "p_kind plan \<noteq> operationCreateBucket"
    and "(\<exists>e. rv_LookupVBucket res (ai_AccessKeyID ai) (p_bucket plan) = Inl e \<and> errors_Is e (Category ErrResolverNotFound))
      \<or> (\<exists>vb. rv_LookupVBucket res (ai_AccessKeyID ai) (p_bucket plan) = Inr vb)
        \<and> AuthorizeS3Plan (IAMPolicy creds) (Some (withAuthorizationContext plan [] (v_authorizeTime v))) \<noteq> Inr ()"
  shows "serveS3 res v origin now r = answered (s3Error 403 ''AccessDenied'' ''Access Denied'')"
proof -
  have "S3Auth res v r = Inl (s3Error 403 ''AccessDenied'' ''Access Denied'')"
    using assms(5)
  proof (elim disjE exE conjE)
    fix e
    assume "rv_LookupVBucket res (ai_AccessKeyID ai) (p_bucket plan) = Inl e" "errors_Is e (Category ErrResolverNotFound)"
    then show ?thesis
      using assms(3,4) by (simp add: S3Auth_def assms(1,2) resolveMapping_def of_error_def resolverError_def)
  next
    fix vb
    assume "rv_LookupVBucket res (ai_AccessKeyID ai) (p_bucket plan) = Inr vb"
      "AuthorizeS3Plan (IAMPolicy creds) (Some (withAuthorizationContext plan [] (v_authorizeTime v))) \<noteq> Inr ()"
    then show ?thesis
      using assms(3,4)
      by (cases "AuthorizeS3Plan (IAMPolicy creds) (Some (withAuthorizationContext plan [] (v_authorizeTime v)))")
         (simp_all add: S3Auth_def assms(1,2) resolveMapping_def of_error_def accessDenied_def Let_def)
  qed
  then show ?thesis by (simp add: serveS3_def)
qed

section \<open>Listings\<close>

lemma decodeField_render: "decodeField plan (render plan k) = Some k"
  by (simp add: decodeField_def render_def unescape_awsURIEncode)

text \<open>
  C8. Listed keys can be used. If a listing of the origin names an object and the client is shown a key for it, then a request of
  the client for that key, with the URL encoding of the listing undone, is sent to exactly the listed object.
\<close>
theorem listed_keys_address_their_objects:
  assumes "listing (p_responseProfile plan)" "actualObjectKey path" "decodeField plan raw = Some object" "object \<noteq> []"
    and "applyResponseTextTransform textTransformVirtualKey path raw plan cfg (normalizedPrefix cfg) loc = Some shown"
    and "decodeField plan shown = Some key"
    and "plain_text (RealEndpoint c)" "planS3Operation r bucket key = Inr plan'" "signable_header (r_Header r)"
    and "proxyRequest (Some c) (withAuthorizationContext plan' loc' t) now = Inr (cfg, req)"
  shows "validateVirtualObjectKey key \<and> object = normalizedPrefix cfg @ key
    \<and> unescape encodePath (EscapedPath (r_URL req)) =
        Some ((if RealUsePathStyle cfg then ''/'' @ RealBucket cfg @ ''/'' else ''/'') @ object)"
proof -
  have v: "virtualizeResponseKey path raw plan (normalizedPrefix cfg) = Some shown"
    using assms(5) by (simp add: applyResponseTextTransform_def)
  have profile: "listing (p_responseProfile plan) \<or> singleObject (p_responseProfile plan)" using assms(1) by blast
  obtain k where k: "shown = render plan k"
    "decodeField plan raw = Some (normalizedPrefix cfg @ k) \<or> decodeField plan raw = Some [] \<and> k = []"
    "addressableKeyValue path \<longrightarrow> k = [] \<or> validateVirtualObjectKey k" "actualObjectKey path \<and> k = [] \<longrightarrow> decodeField plan raw = Some []"
    using v profile by (rule virtualizeResponseKey_Some)
  have "key = k" using assms(6) by (simp add: k(1) decodeField_render)
  have addr: "addressableKeyValue path" unfolding addressableKeyValue_def using assms(2) by blast
  have ne: "k \<noteq> []" using k(4) assms(2-4) by (simp only: option.inject) blast
  have key: "object = normalizedPrefix cfg @ key" "key \<noteq> []" "validateVirtualObjectKey key"
    using k(2,3) addr ne assms(3) unfolding \<open>key = k\<close> by (simp_all only: option.inject) blast+
  obtain scheme host q where "r_URL req = \<lparr>u_Scheme = scheme, u_Host = outboundHost cfg host,
       u_Path = outboundPath cfg (if key = [] then [] else normalizedPrefix cfg @ key), u_RawPath = [], u_RawQuery = values_Encode q\<rparr>"
    using assms(7-10) by (rule planned_request_Inr)
  then have "unescape encodePath (EscapedPath (r_URL req)) = Some (outboundPath cfg object)"
    unfolding unescape_EscapedPath using key by simp
  then show ?thesis using key assms(4) by (simp add: outboundPath_def)
qed

section \<open>A run\<close>

definition demo_client :: http_request where
  "demo_client = demo_get\<lparr>r_Header := []\<rparr>"

definition demo_call :: "string \<Rightarrow> http_request" where
  "demo_call auth =
     demo_client\<lparr>r_Header := [(''X-Amz-Date'', [''20260102T030405Z'']), (''X-Amz-Content-Sha256'', [''UNSIGNED-PAYLOAD'']), (''Authorization'', [auth])]\<rparr>"

definition demo_caller :: AuthInfo where
  "demo_caller = signing_info demo_client ''AK'' ''SK'' ''us-east-1'' demo_clock"

definition demo_resolver :: Resolver where
  "demo_resolver =
     \<lparr>rv_BeginResolution = Inr \<lparr>rs_Revision = 1, rs_Epoch = 0\<rparr>, rv_ValidateResolution = \<lambda>_. Inr (),
      rv_LookupCredentials = \<lambda>accessKey.
        if accessKey = ''AK'' then Inr (Some \<lparr>SecretKey = ''SK'', IAMPolicy = Some demo_policy\<rparr>) else Inl [Category ErrResolverNotFound],
      rv_LookupBaseHost = \<lambda>_. Inr ([], False), rv_LookupVBucket = \<lambda>_ _. Inr (Some (tenant ''tenant-a'')),
      rv_CreateVBucket = \<lambda>_ _ _. Inr (), rv_ListVBuckets = \<lambda>_. Inr []\<rparr>"

definition demo_env :: request_env where
  "demo_env =
     \<lparr>v_verifyTime = demo_clock, v_authorizeTime = demo_clock, v_maxSkew = 900000000000, v_body = None,
      v_decode = \<lambda>_. \<lparr>d_tokens = [], d_eof = True\<rparr>, v_parseText = \<lambda>_. [], v_verifyText = \<lambda>_. []\<rparr>"

definition demo_serve :: "VBucketConfig option \<Rightarrow> s3_run" where
  "demo_serve vb =
     serveS3 (demo_resolver\<lparr>rv_LookupVBucket := \<lambda>_ _. Inr vb\<rparr>) demo_env (\<lambda>_ _. None) demo_clock (demo_call (authorization_value demo_caller))"

lemma demo_call_planned:
  "case planS3Operation (demo_call auth) ''media'' ''to'' of Inl _ \<Rightarrow> False
   | Inr p \<Rightarrow> p_kind p = operationGetObject \<and> p_query p = [] \<and> p_bodyKind p \<noteq> bodyCompleteMultipartXML
       \<and> AuthorizeS3Plan (Some demo_policy) (Some (withAuthorizationContext (withRequestMetadata p False []) [] demo_clock)) = Inr ()"
  by code_simp

lemma demo_call_facts: "signable demo_client" "resolveBucket (\<lambda>_. Inr ([], False) :: go_error + string \<times> bool) (demo_call auth) = Inr (''media'', ''to'', False)"
  "isValidBucketName ''media''" "signable_header (r_Header (demo_call auth))"
  "list_all (\<lambda>(name, kind). values_Get [] name = []) tokenFields"
  by code_simp+

lemma demo_call_signed: "signRequest demo_client ''AK'' ''SK'' ''us-east-1'' demo_clock = demo_call (authorization_value demo_caller)"
proof -
  have "signed_at demo_client demo_clock =
    demo_client\<lparr>r_Header := [(''X-Amz-Date'', [''20260102T030405Z'']), (''X-Amz-Content-Sha256'', [''UNSIGNED-PAYLOAD''])]\<rparr>" by code_simp
  then show ?thesis unfolding signRequest_eq demo_caller_def [symmetric] by (simp add: demo_call_def header_Set_def amz_names)
qed

lemma demo_authenticated:
  "authenticate (demo_resolver\<lparr>rv_LookupVBucket := f\<rparr>) demo_env (demo_call (authorization_value demo_caller)) =
     Inr (\<lparr>rs_Revision = 1, rs_Epoch = 0\<rparr>, demo_caller, \<lparr>SecretKey = ''SK'', IAMPolicy = Some demo_policy\<rparr>)"
proof -
  have "accessKeyIDPattern ''AK''" "list_all access_char ''us-east-1''" "''us-east-1'' \<noteq> []" by code_simp+
  from parse_authorization [OF demo_signable(3) this demo_call_facts(1), of "''SK''"]
  have parse: "parseAuthorizationHeader (authorization_value demo_caller) = Some demo_caller" by (simp add: demo_caller_def)
  have hv: "header_Values (r_Header (demo_call (authorization_value demo_caller))) ''Authorization'' = [authorization_value demo_caller]"
    using signed_header_values(6) [OF demo_call_facts(1), of "''AK''" "''SK''" "''us-east-1''" demo_clock]
    unfolding demo_call_signed demo_caller_def .
  have "verifySignatureAtTime (demo_call (authorization_value demo_caller)) (Some demo_caller) ''SK'' demo_clock 900000000000 = Inr ()"
    using verify_signed [OF demo_signable(3) demo_call_facts(1), of "''AK''" "''SK''" "''us-east-1''" demo_clock 900000000000] demo_skew(1)
    unfolding demo_call_signed demo_caller_def by simp
  moreover have "authorization_value demo_caller \<noteq> []" "ai_AccessKeyID demo_caller = ''AK''"
    by (simp_all add: authorization_value_def demo_caller_def signing_info_def Let_def)
  ultimately show ?thesis
    unfolding authenticate_def Let_def hv by (simp add: parse demo_env_def demo_resolver_def of_error_def)
qed

lemma demo_passes:
  obtains plan where "planS3Operation (demo_call (authorization_value demo_caller)) ''media'' ''to'' = Inr plan"
    "p_kind plan = operationGetObject" "p_query plan = []"
    "\<forall>f. planRequest (demo_resolver\<lparr>rv_LookupVBucket := f\<rparr>) demo_env (demo_call (authorization_value demo_caller)) = Inr (withRequestMetadata plan False [])"
    "\<forall>vb. S3Auth (demo_resolver\<lparr>rv_LookupVBucket := \<lambda>_ _. Inr vb\<rparr>) demo_env (demo_call (authorization_value demo_caller)) =
      Inr \<lparr>x_vbConfig = vb, x_authInfo = demo_caller, x_plan = withAuthorizationContext (withRequestMetadata plan False []) [] demo_clock\<rparr>"
proof -
  let ?r = "demo_call (authorization_value demo_caller)"
  obtain plan where p: "planS3Operation ?r ''media'' ''to'' = Inr plan" "p_kind plan = operationGetObject" "p_query plan = []"
    and b: "p_bodyKind plan \<noteq> bodyCompleteMultipartXML"
    and z: "AuthorizeS3Plan (Some demo_policy) (Some (withAuthorizationContext (withRequestMetadata plan False []) [] demo_clock)) = Inr ()"
    using demo_call_planned [of "authorization_value demo_caller"] by (auto split: sum.splits)
  have m: "p_bodyKind (withRequestMetadata plan False []) = p_bodyKind plan" "p_kind (withRequestMetadata plan False []) = p_kind plan"
    by (simp_all add: withRequestMetadata_def)
  have r: "resolveBucket (rv_LookupBaseHost (demo_resolver\<lparr>rv_LookupVBucket := f\<rparr>)) ?r = Inr (''media'', ''to'', False)" for f
    using demo_call_facts(2) by (simp add: demo_resolver_def)
  have plan: "planRequest (demo_resolver\<lparr>rv_LookupVBucket := f\<rparr>) demo_env ?r = Inr (withRequestMetadata plan False [])" for f
    unfolding planRequest_def r using p(1) b demo_call_facts(3) by (simp add: of_error_def m Let_def guardE_def)
  have "S3Auth (demo_resolver\<lparr>rv_LookupVBucket := \<lambda>_ _. Inr vb\<rparr>) demo_env ?r =
      Inr \<lparr>x_vbConfig = vb, x_authInfo = demo_caller, x_plan = withAuthorizationContext (withRequestMetadata plan False []) [] demo_clock\<rparr>" for vb
    unfolding S3Auth_def demo_authenticated plan
    using z by (simp add: resolveMapping_def m p(2) of_error_def Let_def) (simp add: demo_resolver_def demo_env_def)
  with p plan that show thesis by blast
qed

lemma demo_reaches_origin: "\<exists>req. run_sent (demo_serve (Some (tenant ''tenant-a''))) = Some (req, None)"
proof -
  let ?r = "demo_call (authorization_value demo_caller)"
  obtain plan where p: "planS3Operation ?r ''media'' ''to'' = Inr plan" "p_kind plan = operationGetObject" "p_query plan = []"
    and x: "\<forall>vb. S3Auth (demo_resolver\<lparr>rv_LookupVBucket := \<lambda>_ _. Inr vb\<rparr>) demo_env ?r =
      Inr \<lparr>x_vbConfig = vb, x_authInfo = demo_caller, x_plan = withAuthorizationContext (withRequestMetadata plan False []) [] demo_clock\<rparr>"
    by (rule demo_passes)
  let ?plan = "withAuthorizationContext (withRequestMetadata plan False []) [] demo_clock"
  note k = completed_keeps [OF completed_metadata [OF completed_refl, of plan False "[]"]]
  have acc: "accepted_plan ?plan"
    using planned_is_accepted [OF p(1) demo_call_facts(4)] by (simp add: accepted_withAuthorizationContext k)
  have f: "p_query ?plan = []" "p_kind ?plan = operationGetObject" by (simp_all add: k p)
  have "\<not> (\<exists>(name, kind) \<in> set tokenFields. bad_token (tenant_mapping ''tenant-a'') kind (values_Get (p_query ?plan) name))"
    using demo_call_facts(5) unfolding f by (auto simp: bad_token_def list_all_iff)
  then obtain req where "proxyRequest (Some (tenant ''tenant-a'')) ?plan demo_clock = Inr (tenant_mapping ''tenant-a'', req)"
    using proxyRequest_failures [OF tenant_plain acc tenant_normalizes [OF demo_prefixes(1)], of demo_clock] f(2) by auto
  moreover have "p_bodyKind plan \<noteq> bodyCompleteMultipartXML"
    using demo_call_planned [of "authorization_value demo_caller"] p(1) by simp
  then have "outboundBody ?plan (v_body demo_env) = None"
    by (simp add: outboundBody_def withAuthorizationContext_def withRequestMetadata_def Let_def demo_env_def)
  ultimately show ?thesis
    unfolding demo_serve_def serveS3_def x [rule_format] sum.case handleS3Request_def request_context.simps f proxyS3Request_def
    by (simp add: Let_def)
qed

theorem origin_requests_are_authorized_witness:
  "\<exists>req. run_sent (demo_serve (Some (tenant ''tenant-a''))) = Some (req, None)
    \<and> unescape encodePath (EscapedPath (r_URL req)) = Some ''/origin/tenant-a/to''"
proof -
  let ?res = "demo_resolver\<lparr>rv_LookupVBucket := \<lambda>_ _. Inr (Some (tenant ''tenant-a''))\<rparr>"
  obtain req where s: "run_sent (demo_serve (Some (tenant ''tenant-a''))) = Some (req, None)" using demo_reaches_origin by blast
  have "\<forall>accessKey bucket c. rv_LookupVBucket ?res accessKey bucket = Inr (Some c) \<longrightarrow> plain_text (RealEndpoint c)"
    using tenant_plain by force
  from origin_requests_are_authorized [OF s [unfolded demo_serve_def] demo_call_facts(4) this]
  obtain x creds bucket key plan c cfg where
    p: "passed ?res demo_env (demo_call (authorization_value demo_caller)) x creds bucket key plan" and
    c: "rv_LookupVBucket ?res (ai_AccessKeyID (x_authInfo x)) bucket = Inr (Some c)" "NormalizeVBucketConfig (Some c) = Inr cfg" and
    u: "unescape encodePath (EscapedPath (r_URL req)) =
        Some ((if RealUsePathStyle cfg then ''/'' @ RealBucket cfg @ (if key = [] then [] else ''/'') else ''/'')
              @ (if key = [] then [] else normalizedPrefix cfg @ key))" by blast
  have "cfg = tenant_mapping ''tenant-a''" using c tenant_normalizes [OF demo_prefixes(1)] by simp
  moreover have "key = ''to''" using p demo_call_facts(2) unfolding passed_def by (auto simp: demo_resolver_def)
  ultimately show ?thesis using s u by (simp add: tenant_fields demo_prefixes)
qed

theorem unknown_buckets_look_denied_witness:
  "serveS3 (demo_resolver\<lparr>rv_LookupVBucket := \<lambda>_ _. Inl [Category ErrResolverNotFound]\<rparr>) demo_env (\<lambda>_ _. None) demo_clock
     (demo_call (authorization_value demo_caller)) = answered (s3Error 403 ''AccessDenied'' ''Access Denied'')"
proof -
  obtain plan where p: "p_kind plan = operationGetObject"
    "\<forall>f. planRequest (demo_resolver\<lparr>rv_LookupVBucket := f\<rparr>) demo_env (demo_call (authorization_value demo_caller)) = Inr (withRequestMetadata plan False [])"
    by (rule demo_passes)
  show ?thesis
    by (rule unknown_buckets_look_denied [OF demo_authenticated p(2) [rule_format]])
       (simp_all add: withRequestMetadata_def p(1) errors_Is_def)
qed

theorem listed_keys_address_their_objects_witness:
  "validateVirtualObjectKey ''to''
   \<and> unescape encodePath (EscapedPath (r_URL (demo_sent ''tenant-a''))) = Some ''/origin/tenant-a/to''"
proof -
  let ?plan = "demo_plan\<lparr>p_responseProfile := responseListObjects, p_query := []\<rparr>"
  have "values_Get [] ''encoding-type'' = []" by code_simp
  then have plain: "\<not> urlEncoded ?plan" by (simp add: urlEncoded_def)
  have facts: "HasPrefix ''tenant-a/to'' ''tenant-a/''" "TrimPrefix ''tenant-a/to'' ''tenant-a/'' = ''to''" "validateVirtualObjectKey ''to''"
    by code_simp+
  have decoded: "decodeField ?plan s = Some s" for s by (simp add: decodeField_def plain)
  have "virtualizeResponseKey ''ListBucketResult/Contents/Key'' ''tenant-a/to'' ?plan ''tenant-a/'' = Some ''to''"
    unfolding virtualizeResponseKey_def decoded stripListPathPrefix_def by (simp add: plain facts Let_def)
  then have "applyResponseTextTransform textTransformVirtualKey ''ListBucketResult/Contents/Key'' ''tenant-a/to'' ?plan (tenant_mapping ''tenant-a'')
      (normalizedPrefix (tenant_mapping ''tenant-a'')) [] = Some ''to''"
    by (simp add: applyResponseTextTransform_def demo_prefixes)
  from listed_keys_address_their_objects [OF _ _ decoded _ this decoded demo_a]
  show ?thesis by (simp add: listing_def actualObjectKey_def tenant_fields)
qed

end
