(* ===== verification/Sync_System.thy ===== *)
theory Sync_System
  imports Lookup
begin

text \<open>
  The client as a whole: the goroutine of \<^verbatim>\<open>Run\<close> and \<^verbatim>\<open>connect\<close>, which keeps the watch
  open, and any number of lookups and loads, interleaved at their critical sections. The
  invariant of the state, what a resolution stamp guarantees, and the coherence of the
  caches with the control plane.
\<close>

section \<open>The watch goroutine\<close>

text \<open>
  Where the goroutine is: at the head of the loop of \<^verbatim>\<open>Run\<close> with the current backoff; in \<^verbatim>\<open>connect\<close>
  before the transport, with the transport, with the stream requested, receiving (and whether
  it has been ready); returning with an error, after readiness is gone, after the transport is
  closed; and stopped.
\<close>

datatype run_phase =
    RunLoop duration
  | RunConnecting duration
  | RunDial duration
  | RunDialed duration
  | RunOpened duration
  | RunStreaming duration bool
  | RunEnding duration bool watch_end
  | RunClosing duration bool
  | RunClosed duration bool
  | RunStopped

text \<open>A step is labelled with the event it receives from the stream, if it receives one.\<close>

inductive run_step ::
  "(string \<Rightarrow> bool) \<Rightarrow> ClientOptions \<Rightarrow> ('c, 'b) client \<times> run_phase \<Rightarrow> WatchEvent option option
     \<Rightarrow> ('c, 'b) client \<times> run_phase \<Rightarrow> bool"
  for psl opts where
  run_loop: "run_step psl opts (c, RunLoop b) None (markUnsynchronized now c StateConnecting, RunConnecting b)"
| run_stop: "run_step psl opts (c, RunLoop b) None (markUnsynchronized now c StateShutdown, RunStopped)"
| run_begin: "run_step psl opts (c, RunConnecting b) None (connect_begin c, RunDial b)"
| run_dial_fails: "run_step psl opts (c, RunDial b) None (markDisconnected now EndOther c, RunClosed b False)"
| run_dialed: "run_step psl opts (c, RunDial b) None (connect_dialed c, RunDialed b)"
| run_open: "run_step psl opts (c, RunDialed b) None (snd (connect_open now c), RunOpened b)"
| run_open_fails: "run_step psl opts (c, RunOpened b) None (c, RunEnding b False EndOther)"
| run_stream: "run_step psl opts (c, RunOpened b) None (c, RunStreaming b False)"
| run_event: "processWatch psl now c delta = (c', None) \<Longrightarrow>
    run_step psl opts (c, RunStreaming b synced) (Some delta) (c', RunStreaming b (synced \<or> Ready c'))"
| run_event_fails: "processWatch psl now c delta = (c', Some err) \<Longrightarrow>
    run_step psl opts (c, RunStreaming b synced) (Some delta) (c', RunEnding b synced EndOther)"
| run_resync: "c_resync c \<Longrightarrow>
    run_step psl opts (c, RunStreaming b synced) None (c\<lparr>c_resync := False\<rparr>, RunEnding b synced EndRevisionRace)"
| run_state_changed: "c_stateChanged c \<Longrightarrow>
    run_step psl opts (c, RunStreaming b synced) None (c\<lparr>c_stateChanged := False\<rparr>, RunStreaming b synced)"
| run_sync_timeout: "refreshSyncTimer (SynchronizationTimeout opts) now c timer = None \<Longrightarrow>
    run_step psl opts (c, RunStreaming b synced) None (c, RunEnding b synced EndSyncTimeout)"
| run_ends: "run_step psl opts (c, RunStreaming b synced) None (c, RunEnding b synced e)"
| run_disconnect: "run_step psl opts (c, RunEnding b synced e) None (markDisconnected now e c, RunClosing b synced)"
| run_close: "run_step psl opts (c, RunClosing b synced) None (connect_closed c, RunClosed b synced)"
| run_again: "run_step psl opts (c, RunClosed b synced) None
    (bump (\<lambda>m. m\<lparr>m_watchReconnects := m_watchReconnects m + 1\<rparr>) c, RunLoop (next_backoff opts synced b))"
| run_shutdown: "run_step psl opts (c, RunClosed b synced) None (markUnsynchronized now c StateShutdown, RunStopped)"

section \<open>Lookups and loads of an entity\<close>

text \<open>
  A step of the lookups and loads of one kind, on the client, the loads and the lookups, labelled
  with the key and the response of a call when one arrives.
\<close>

inductive lookup_sys_step ::
  "('c, 'b, 'v, 'r) entity \<Rightarrow> ('c, 'b) client \<times> 'v load list \<times> 'v lookup list
     \<Rightarrow> (string \<times> (grpc_code + 'r option)) option
     \<Rightarrow> ('c, 'b) client \<times> 'v load list \<times> 'v lookup list \<Rightarrow> bool"
  for E where
  lk_new: "lookup_sys_step E (c, loads, lks) None (c, loads, lks @ [\<lparr>lk_key = key, lk_pc = LkBegin True\<rparr>])"
| lk_step: "i < length lks \<Longrightarrow> lookup_step E now c loads (lk_key (lks ! i)) (lk_pc (lks ! i)) = (c', loads', pc') \<Longrightarrow>
    lookup_sys_step E (c, loads, lks) None (c', loads', lks[i := (lks ! i)\<lparr>lk_pc := pc'\<rparr>])"
| lk_cancel: "i < length lks \<Longrightarrow> lookup_cancel c (lk_pc (lks ! i)) = (c', pc') \<Longrightarrow>
    lookup_sys_step E (c, loads, lks) None (c', loads, lks[i := (lks ! i)\<lparr>lk_pc := pc'\<rparr>])"
| ld_response: "j < length loads \<Longrightarrow> ld_phase (loads ! j) = LoadCalling \<Longrightarrow>
    load_response E start now code rpc c (loads ! j) = (c', ld') \<Longrightarrow>
    lookup_sys_step E (c, loads, lks) (Some (ld_key (loads ! j), rpc)) (c', loads[j := ld'], lks)"
| ld_publish: "j < length loads \<Longrightarrow> ld_phase (loads ! j) = LoadChecked candidate \<Longrightarrow>
    load_publish E now candidate c (loads ! j) = (c', ld') \<Longrightarrow>
    lookup_sys_step E (c, loads, lks) None (c', loads[j := ld'], lks)"
| ld_close: "j < length loads \<Longrightarrow> ld_phase (loads ! j) = LoadDone r \<Longrightarrow>
    lookup_sys_step E (c, loads, lks) None (c, loads[j := load_close (loads ! j)], lks)"

text \<open>The two kinds, over what they make of a response.\<close>

definition credentials_entity ::
  "('r \<Rightarrow> uint64) \<Rightarrow> ('r \<Rightarrow> 'c cached option) \<Rightarrow> ('c, 'b, 'c, 'r) entity" where
  "credentials_entity revision parse =
     \<lparr>ent_cache = c_credentials, ent_put = (\<lambda>x c. c\<lparr>c_credentials := x\<rparr>),
      ent_admission = c_credentialAdmission, ent_put_admission = (\<lambda>x c. c\<lparr>c_credentialAdmission := x\<rparr>),
      ent_rejected = (\<lambda>m. m\<lparr>m_rejectedMisses := m_rejectedMisses m + 1\<rparr>),
      ent_revision = revision, ent_parse = parse\<rparr>"

definition vbuckets_entity ::
  "('r \<Rightarrow> uint64) \<Rightarrow> ('r \<Rightarrow> 'b cached option) \<Rightarrow> ('c, 'b, 'b, 'r) entity" where
  "vbuckets_entity revision parse =
     \<lparr>ent_cache = c_vbuckets, ent_put = (\<lambda>x c. c\<lparr>c_vbuckets := x\<rparr>),
      ent_admission = c_vbucketAdmission, ent_put_admission = (\<lambda>x c. c\<lparr>c_vbucketAdmission := x\<rparr>),
      ent_rejected = (\<lambda>m. m\<lparr>m_rejectedVBucketMisses := m_rejectedVBucketMisses m + 1\<rparr>),
      ent_revision = revision, ent_parse = parse\<rparr>"

section \<open>The system\<close>

record ('c, 'b) sys =
  s_client :: "('c, 'b) client"
  s_run :: run_phase
  s_cloads :: "'c load list"
  s_clookups :: "'c lookup list"
  s_bloads :: "'b load list"
  s_blookups :: "'b lookup list"

datatype ('p, 'q) sys_label =
    LabelWatch "WatchEvent option option"
  | LabelCredentials "(string \<times> (grpc_code + 'p option)) option"
  | LabelVBuckets "(string \<times> (grpc_code + 'q option)) option"
  | LabelOther

inductive sys_step ::
  "(string \<Rightarrow> bool) \<Rightarrow> ClientOptions \<Rightarrow> ('c, 'b, 'c, 'p) entity \<Rightarrow> ('c, 'b, 'b, 'q) entity
     \<Rightarrow> ('c, 'b) sys \<Rightarrow> ('p, 'q) sys_label \<Rightarrow> ('c, 'b) sys \<Rightarrow> bool"
  for psl opts C B where
  sys_run: "run_step psl opts (s_client s, s_run s) l (c', r') \<Longrightarrow>
    sys_step psl opts C B s (LabelWatch l) (s\<lparr>s_client := c', s_run := r'\<rparr>)"
| sys_credentials: "lookup_sys_step C (s_client s, s_cloads s, s_clookups s) l (c', loads', lks') \<Longrightarrow>
    sys_step psl opts C B s (LabelCredentials l) (s\<lparr>s_client := c', s_cloads := loads', s_clookups := lks'\<rparr>)"
| sys_vbuckets: "lookup_sys_step B (s_client s, s_bloads s, s_blookups s) l (c', loads', lks') \<Longrightarrow>
    sys_step psl opts C B s (LabelVBuckets l) (s\<lparr>s_client := c', s_bloads := loads', s_blookups := lks'\<rparr>)"
| sys_create: "createCommitted now (s_client s) resp revision = (c', e) \<Longrightarrow>
    sys_step psl opts C B s LabelOther (s\<lparr>s_client := c'\<rparr>)"
| sys_list: "checkUnaryRevision now (s_client s) revision expected = (c', e) \<Longrightarrow>
    sys_step psl opts C B s LabelOther (s\<lparr>s_client := c'\<rparr>)"
| sys_list_empty: "sys_step psl opts C B s LabelOther (s\<lparr>s_client := requestResyncLocked now (s_client s)\<rparr>)"
| sys_metrics: "sys_step psl opts C B s LabelOther (s\<lparr>s_client := bump f (s_client s)\<rparr>)"

definition sys_init :: "('c, 'b) client \<Rightarrow> duration \<Rightarrow> ('c, 'b) sys" where
  "sys_init c backoff =
     \<lparr>s_client = c, s_run = RunLoop backoff, s_cloads = [], s_clookups = [], s_bloads = [], s_blookups = []\<rparr>"

section \<open>The invariant of the client\<close>

definition hosts_ok :: "(string \<Rightarrow> bool) \<Rightarrow> int \<Rightarrow> uint64 \<Rightarrow> base_hosts \<Rightarrow> bool" where
  "hosts_ok psl mx revision hs =
     (distinct (keys hs) \<and> int (length hs) \<le> max 0 mx
      \<and> list_all (\<lambda>(d, r). r \<le> revision \<and> (\<exists>v. normalizeBaseDomain psl v = Some d)) hs)"

text \<open>
  Caches that agree with predicates on a revision, a key and a cached value, taken at the revision of the client.
\<close>

definition coherent_caches ::
  "(uint64 \<Rightarrow> string \<Rightarrow> 'c cached \<Rightarrow> bool) \<Rightarrow> (uint64 \<Rightarrow> string \<Rightarrow> 'b cached \<Rightarrow> bool) \<Rightarrow> ('c, 'b) client \<Rightarrow> bool" where
  "coherent_caches P Q c =
     (cache_coherent (P (c_revision c)) (c_credentials c) \<and> cache_coherent (Q (c_revision c)) (c_vbuckets c))"

definition not_newer :: "uint64 \<Rightarrow> string \<Rightarrow> 'v cached \<Rightarrow> bool" where
  "not_newer revision k e = (ce_Revision e \<le> revision)"

definition snapshot_ok :: "(string \<Rightarrow> bool) \<Rightarrow> ('c, 'b) client \<Rightarrow> bool" where
  "snapshot_ok psl c =
     (case c_snapshot c of
        None \<Rightarrow> True
      | Some snap \<Rightarrow>
          c_barrierRequired c \<and> ss_revision snap \<noteq> 0 \<and> c_revision c \<le> ss_revision snap
          \<and> hosts_ok psl (c_baseHostMax c) (ss_revision snap) (ss_baseHosts snap)
          \<and> lc_entries (c_credentials c) = [] \<and> lc_entries (c_vbuckets c) = [])"

text \<open>
  A ready client is connected, past a barrier, with no snapshot in progress and no revision it
  still has to reach. A synchronizing client that is past its barrier waits for a revision. A required
  revision is ahead of the accepted one.
\<close>

definition state_ok :: "('c, 'b) client \<Rightarrow> bool" where
  "state_ok c =
     ((c_state c = StateReady \<longrightarrow>
        \<not> c_barrierRequired c \<and> c_snapshot c = None \<and> c_requiredRevision c = 0
        \<and> c_revision c \<noteq> 0 \<and> c_connected c)
      \<and> (c_state c = StateSynchronizing \<and> \<not> c_barrierRequired c \<longrightarrow> c_requiredRevision c \<noteq> 0)
      \<and> (c_requiredRevision c \<noteq> 0 \<longrightarrow> c_revision c < c_requiredRevision c)
      \<and> (c_revision c \<noteq> 0 \<longrightarrow> c_cursor c \<noteq> []))"

definition wf_client :: "(string \<Rightarrow> bool) \<Rightarrow> ('c, 'b) client \<Rightarrow> bool" where
  "wf_client psl c =
     (state_ok c \<and> snapshot_ok psl c \<and> hosts_ok psl (c_baseHostMax c) (c_revision c) (c_baseHosts c)
      \<and> coherent_caches not_newer not_newer c)"

text \<open>What the position of the watch goroutine says about the client.\<close>

definition idle :: "('c, 'b) client \<Rightarrow> bool" where
  "idle c =
     (c_state c \<noteq> StateReady \<and> c_state c \<noteq> StateSynchronizing \<and> c_barrierRequired c \<and> c_snapshot c = None)"

fun run_ok :: "('c, 'b) client \<Rightarrow> run_phase \<Rightarrow> bool" where
  "run_ok c (RunDialed b) = (idle c \<and> c_connected c)"
| "run_ok c (RunOpened b) =
     (c_connected c \<and> c_state c \<noteq> StateReady \<and> c_barrierRequired c \<and> c_snapshot c = None)"
| "run_ok c (RunStreaming b synced) = c_connected c"
| "run_ok c (RunEnding b synced e) = c_connected c"
| "run_ok c _ = idle c"

lemmas wf_defs = wf_client_def state_ok_def snapshot_ok_def coherent_caches_def

lemma max_word_less: "max x y > (r :: uint64)" if "r < y" for x y r
  using that by (simp add: less_max_iff_disj)

lemma wf_requestResync: "wf_client psl c \<Longrightarrow> wf_client psl (requestResyncLocked now c)"
  by (auto simp: wf_defs requestResyncLocked_def client_simps split: option.splits)

lemma wf_checkUnary:
  "wf_client psl c \<Longrightarrow> wf_client psl (fst (checkUnaryRevision now c revision expected))"
  using wf_requestResync [of psl c now]
  by (auto simp: checkUnaryRevision_def Let_def wf_defs client_simps max_word_less max_def split: option.splits)

lemma wf_createCommitted:
  "wf_client psl c \<Longrightarrow> wf_client psl (fst (createCommitted now c resp revision))"
  using wf_requestResync [of psl c now]
  by (auto simp: createCommitted_def Let_def wf_defs client_simps max_word_less max_def split: option.splits)

lemma list_all_update: "list_all P m \<Longrightarrow> P (k, v) \<Longrightarrow> list_all P (AList.update k v m)"
  by (induction m) auto

lemma list_all_delete: "list_all P m \<Longrightarrow> list_all P (AList.delete k m)"
  by (simp add: AList.delete_eq list_all_iff)

lemma hosts_ok_update:
  assumes "hosts_ok psl mx revision hs" "revision \<le> r" "normalizeBaseDomain psl v = Some d"
    and "map_of hs d = None \<Longrightarrow> int (length hs) < mx"
  shows "hosts_ok psl mx r (AList.update d r hs)"
proof -
  have "list_all (\<lambda>(d, r'). r' \<le> r \<and> (\<exists>v. normalizeBaseDomain psl v = Some d)) hs"
    using assms(1,2) by (auto simp: hosts_ok_def list_all_iff)
  moreover have "int (length (AList.update d r hs)) \<le> max 0 mx"
    using assms(1,4)
    by (cases "map_of hs d") (auto simp: hosts_ok_def length_update_old length_update_new)
  ultimately show ?thesis
    using assms(1,3) by (auto simp: hosts_ok_def distinct_keys_update intro!: list_all_update)
qed

lemma hosts_ok_delete:
  "hosts_ok psl mx revision hs \<Longrightarrow> hosts_ok psl mx revision (AList.delete d hs)"
  using length_delete_le [of d hs] by (auto simp: hosts_ok_def distinct_keys_delete list_all_delete)

lemma hosts_ok_mono: "hosts_ok psl mx revision hs \<Longrightarrow> revision \<le> r \<Longrightarrow> hosts_ok psl mx r hs"
  by (auto simp: hosts_ok_def list_all_iff)

lemma baseHostDeltaDomain_Some:
  "baseHostDeltaDomain psl delta = Some d \<Longrightarrow> \<exists>v. normalizeBaseDomain psl v = Some d"
  by (auto simp: baseHostDeltaDomain_def split: option.splits)

text \<open>A delta changes the caches and the registry of base domains, nothing else.\<close>

lemma applyEntity_fields:
  assumes "applyEntityLocked psl now c event r = (c', e)"
  shows "c_state c' = c_state c" "c_epoch c' = c_epoch c" "c_revision c' = c_revision c"
    "c_cursor c' = c_cursor c" "c_snapshot c' = c_snapshot c" "c_requiredRevision c' = c_requiredRevision c"
    "c_barrierRequired c' = c_barrierRequired c" "c_connected c' = c_connected c"
    "c_baseHostMax c' = c_baseHostMax c"
  using assms
  by (auto simp: applyEntityLocked_def Let_def split: watch_payload.splits option.splits if_splits prod.splits)

lemma applyEntity_hosts:
  assumes "hosts_ok psl (c_baseHostMax c) (c_revision c) (c_baseHosts c)" "c_revision c \<le> r"
    and "applyEntityLocked psl now c event r = (c', e)"
  shows "hosts_ok psl (c_baseHostMax c) r (c_baseHosts c')"
    and "e \<noteq> None \<Longrightarrow> hosts_ok psl (c_baseHostMax c) (c_revision c) (c_baseHosts c')"
  using assms
  by (auto simp: applyEntityLocked_def Let_def intro!: hosts_ok_update hosts_ok_delete
      intro: hosts_ok_mono dest!: baseHostDeltaDomain_Some
      split: watch_payload.splits option.splits if_splits prod.splits)

text \<open>
  What a delta says about the cached values of a kind: the key it names, and whether the
  object of that key is gone. \<open>carried\<close>: the predicate passes from one revision to the next for
  every other key, and holds of a negative entry for an object that is gone.
\<close>

definition touched_credential :: "watch_payload \<Rightarrow> (string \<times> bool) option" where
  "touched_credential event =
     (case event of WatchEvent_Credentials (Some d) \<Rightarrow> Some (cd_AccessKeyId d, cd_Remove d) | _ \<Rightarrow> None)"

definition touched_vbucket :: "watch_payload \<Rightarrow> (string \<times> bool) option" where
  "touched_vbucket event =
     (case event of
        WatchEvent_Vbucket (Some d) \<Rightarrow> Some (vbucketCacheKey (vd_AccessKeyId d) (vd_BucketName d), vd_Remove d)
      | _ \<Rightarrow> None)"

definition carried :: "(uint64 \<Rightarrow> string \<Rightarrow> 'v cached \<Rightarrow> bool) \<Rightarrow> uint64 \<Rightarrow> uint64 \<Rightarrow> (string \<times> bool) option \<Rightarrow> bool" where
  "carried P r0 r touched =
     ((\<forall>k e. map_option fst touched \<noteq> Some k \<and> P r0 k e \<longrightarrow> P r k e)
      \<and> (\<forall>k ttl. touched = Some (k, True) \<longrightarrow>
           P r k \<lparr>ce_value = None, ce_Found = False, ce_Revision = r, ce_TTL = ttl\<rparr>))"

lemma carried_not_newer: "r0 \<le> r \<Longrightarrow> carried not_newer r0 r touched"
  by (auto simp: carried_def not_newer_def)

lemma applyCacheDelta_carried:
  assumes "cache_coherent (P r0) cache" "carried P r0 r (Some (key, remove))"
    and "applyCacheDelta now cache key remove negativeTtl r = (cache', None)"
  shows "cache_coherent (P r) cache'"
  using assms(1,3) by (rule applyCacheDelta_accepted) (use assms(2) in \<open>auto simp: carried_def\<close>)

lemma coherent_carried:
  "cache_coherent (P r0) cache \<Longrightarrow> carried P r0 r None \<Longrightarrow> cache_coherent (P r) cache"
  by (auto simp: carried_def intro: coherent_weaken)

lemma applyEntity_coherent:
  assumes "coherent_caches P Q c" "applyEntityLocked psl now c event r = (c', None)"
    and "carried P (c_revision c) r (touched_credential event)"
    and "carried Q (c_revision c) r (touched_vbucket event)"
  shows "cache_coherent (P r) (c_credentials c') \<and> cache_coherent (Q r) (c_vbuckets c')"
  using assms
  by (auto simp: coherent_caches_def applyEntityLocked_def Let_def touched_credential_def touched_vbucket_def
      intro: applyCacheDelta_carried coherent_carried
      split: watch_payload.splits option.splits if_splits prod.splits)

lemma applyEntity_rejected:
  assumes "coherent_caches P Q c" "applyEntityLocked psl now c event r = (c', Some err)"
  shows "coherent_caches P Q c'"
  using assms
  by (auto simp: coherent_caches_def applyEntityLocked_def Let_def intro: applyCacheDelta_rejected
      split: watch_payload.splits option.splits if_splits prod.splits)

lemma coherent_caches_transition [simp]:
  "coherent_caches P Q (transitionLocked now c st) = coherent_caches P Q c"
  by (simp add: coherent_caches_def)

text \<open>
  The event that is next in line: no snapshot is in progress and the revision follows the accepted one.
\<close>

definition next_event :: "('c, 'b) client \<Rightarrow> WatchEvent option \<Rightarrow> watch_payload option" where
  "next_event c delta =
     (case delta of
        None \<Rightarrow> None
      | Some w \<Rightarrow> if c_snapshot c = None \<and> we_Revision w = c_revision c + 1 \<and> c_revision c < we_Revision w
                 then we_Event w else None)"

text \<open>The two ways of a live mutation: refused by its envelope, or handed to its entity.\<close>

definition envelope_ok :: "('c, 'b) client \<Rightarrow> uint64 \<Rightarrow> string \<Rightarrow> bool" where
  "envelope_ok c r cursor =
     (c_revision c \<noteq> 0 \<and> c_cursor c \<noteq> [] \<and> c_revision c < r \<and> r = c_revision c + 1
      \<and> cursor \<noteq> [] \<and> cursor \<noteq> c_cursor c)"

lemma liveMutation_envelope:
  "envelope_ok c r cursor \<Longrightarrow>
   liveMutation psl now c event r cursor =
     (case applyEntityLocked psl now c event r of
        (c1, Some err) \<Rightarrow> (transitionLocked now c1 StateDisconnected, Some err)
      | (c1, None) \<Rightarrow> (acceptMutation now c1 r cursor, None))"
  unfolding liveMutation_def envelope_ok_def by (auto simp: not_le)

lemma liveMutation_refused:
  assumes "\<not> envelope_ok c r cursor" "liveMutation psl now c event r cursor = (c', e)"
  shows "c' = c \<or> c' = transitionLocked now c StateDisconnected
    \<or> (\<exists>m g. c' = transitionLocked now (c\<lparr>c_metrics := m, c_lastGap := g\<rparr>) StateDisconnected)"
    and "e \<noteq> None"
  using assms unfolding liveMutation_def envelope_ok_def by (auto simp: not_le split: if_splits)

lemma acceptMutation_fields [simp]:
  "c_revision (acceptMutation now c r cursor) = r"
  "c_connected (acceptMutation now c r cursor) = c_connected c"
  "c_credentials (acceptMutation now c r cursor) = c_credentials c"
  "c_vbuckets (acceptMutation now c r cursor) = c_vbuckets c"
  by (simp_all add: acceptMutation_def Let_def)

lemma liveMutation_coherent:
  assumes "coherent_caches P Q c" "liveMutation psl now c event r cursor = (c', e)"
    and "r = c_revision c + 1 \<and> c_revision c < r \<Longrightarrow>
      carried P (c_revision c) r (touched_credential event) \<and> carried Q (c_revision c) r (touched_vbucket event)"
  shows "coherent_caches P Q c'"
proof (cases "envelope_ok c r cursor")
  case False
  from liveMutation_refused(1) [OF False assms(2)] assms(1) show ?thesis
    by (auto simp: coherent_caches_def)
next
  case True
  obtain c1 x where a: "applyEntityLocked psl now c event r = (c1, x)" by fastforce
  show ?thesis
  proof (cases x)
    case None
    have "carried P (c_revision c) r (touched_credential event)" "carried Q (c_revision c) r (touched_vbucket event)"
      using assms(3) True unfolding envelope_ok_def by blast+
    with assms(1) a None have "cache_coherent (P r) (c_credentials c1) \<and> cache_coherent (Q r) (c_vbuckets c1)"
      by (intro applyEntity_coherent) simp_all
    with a None assms(2) show ?thesis
      by (auto simp: liveMutation_envelope [OF True] coherent_caches_def)
  next
    case (Some err)
    have "coherent_caches P Q c1" using assms(1) a Some by (auto intro: applyEntity_rejected)
    with a Some assms(2) show ?thesis
      by (auto simp: liveMutation_envelope [OF True])
  qed
qed

lemma processWatch_coherent:
  assumes "coherent_caches P Q c" "snapshot_ok psl c" "processWatch psl now c delta = (c', e)"
    and "\<And>event. next_event c delta = Some event \<Longrightarrow>
      carried P (c_revision c) (c_revision c + 1) (touched_credential event)
      \<and> carried Q (c_revision c) (c_revision c + 1) (touched_vbucket event)"
  shows "coherent_caches P Q c'"
proof -
  have ok: "coherent_caches P Q c1"
    if pl: "processLocked psl now c event (we_Revision w) (we_Cursor w) = (c1, x)"
      and d: "delta = Some w" "we_Event w = Some event" for w event c1 x
  proof -
    have bar: "coherent_caches P Q c1" if "synchronizationBarrier now c (we_Revision w) (we_Cursor w) = (c1, x)"
      using that assms(1,2)
      by (auto simp: synchronizationBarrier_def Let_def clearRequired_def coherent_caches_def snapshot_ok_def
          local_cache.coherent_def entry_live_def split: if_splits option.splits)
    have beg: "coherent_caches P Q c1" if "beginSnapshot now c (we_Revision w) (we_Cursor w) = (c1, x)"
      using that assms(1)
      by (auto simp: beginSnapshot_def Let_def coherent_caches_def split: if_splits
          intro: coherent_InvalidateAll [where P = "P (c_revision c)"] coherent_InvalidateAll [where P = "Q (c_revision c)"])
    have ent: "coherent_caches P Q c1" if "snapshotEntry psl c snap event (we_Revision w) (we_Cursor w) = (c1, x)" for snap
      using that assms(1)
      by (auto simp: snapshotEntry_def coherent_caches_def split: if_splits option.splits watch_payload.splits)
    have live: "coherent_caches P Q c1"
      if "liveMutation psl now c event (we_Revision w) (we_Cursor w) = (c1, x)" "c_snapshot c = None"
      using assms(1) that(1) by (rule liveMutation_coherent) (use assms(4) d that(2) in \<open>auto simp: next_event_def\<close>)
    show ?thesis
      using pl assms(1) bar beg ent live
      by (auto simp: processLocked_def split: if_splits watch_payload.splits option.splits)
  qed
  show ?thesis
    using assms(1,3) ok
    by (auto simp: processWatch_def coherent_caches_def split: option.splits prod.splits)
qed

text \<open>The parts of the invariant other than the caches.\<close>

definition core_ok :: "(string \<Rightarrow> bool) \<Rightarrow> ('c, 'b) client \<Rightarrow> bool" where
  "core_ok psl c =
     (state_ok c \<and> snapshot_ok psl c \<and> hosts_ok psl (c_baseHostMax c) (c_revision c) (c_baseHosts c))"

lemmas core_defs = core_ok_def state_ok_def snapshot_ok_def

lemma wf_client_iff: "wf_client psl c \<longleftrightarrow> core_ok psl c \<and> coherent_caches not_newer not_newer c"
  by (auto simp: wf_client_def core_ok_def)

lemma core_begin:
  assumes "core_ok psl c" "beginSnapshot now c r cursor = (c', e)"
  shows "core_ok psl c' \<and> c_connected c' = c_connected c"
  using assms
  by (auto simp: beginSnapshot_def Let_def core_defs client_simps hosts_ok_def not_less split: if_splits)

lemma core_barrier_snapshot:
  assumes "core_ok psl c" "c_connected c" "c_state c \<noteq> StateShutdown" "c_snapshot c = Some snap" "cursor \<noteq> []"
  shows "core_ok psl (let c1 = c\<lparr>c_baseHosts := ss_baseHosts snap, c_snapshot := None,
                           c_revision := ss_revision snap, c_cursor := cursor, c_barrierRequired := False\<rparr>;
                    c2 = clearRequired c1
                in if c_requiredRevision c2 = 0 then transitionLocked now c2 StateReady
                    else transitionLocked now c2 StateSynchronizing)"
  using assms
  by (cases "c_requiredRevision c = 0"; cases "c_requiredRevision c \<le> ss_revision snap")
    (simp_all add: core_defs Let_def clearRequired_def client_simps)

lemma core_barrier_resume:
  assumes "core_ok psl c" "c_connected c" "c_state c \<noteq> StateShutdown" "c_snapshot c = None" "c_revision c \<noteq> 0"
  shows "core_ok psl (let c1 = c\<lparr>c_barrierRequired := False\<rparr>
                in if c_requiredRevision c1 = 0 \<or> c_revision c1 \<ge> c_requiredRevision c1
                    then transitionLocked now (c1\<lparr>c_requiredRevision := 0\<rparr>) StateReady
                    else transitionLocked now c1 StateSynchronizing)"
  using assms
  by (cases "c_requiredRevision c = 0"; cases "c_requiredRevision c \<le> c_revision c")
    (simp_all add: core_defs Let_def client_simps)

lemma core_barrier:
  assumes "core_ok psl c" "c_connected c" "c_state c = StateReady \<or> c_state c = StateSynchronizing"
    and "synchronizationBarrier now c r cursor = (c', e)"
  shows "core_ok psl c' \<and> c_connected c'"
proof -
  have s: "c_state c \<noteq> StateShutdown" using assms(3) by auto
  have "core_ok psl c'"
  proof (cases "c_snapshot c")
    case None
    show ?thesis
      using assms(1,4) None core_barrier_resume [OF assms(1,2) s None, of now]
      by (auto simp: synchronizationBarrier_def Let_def split: if_splits)
  next
    case (Some snap)
    show ?thesis
      using assms(1,4) Some core_barrier_snapshot [OF assms(1,2) s Some, of cursor now]
      by (auto simp: synchronizationBarrier_def Let_def split: if_splits)
  qed
  moreover have "c_connected c'"
    using assms(2,4) by (auto simp: synchronizationBarrier_def Let_def clearRequired_def split: if_splits option.splits)
  ultimately show ?thesis ..
qed

lemma core_entry:
  assumes "core_ok psl c" "c_snapshot c = Some snap" "snapshotEntry psl c snap event r cursor = (c', e)"
  shows "core_ok psl c' \<and> c_connected c' = c_connected c"
proof -
  have "hosts_ok psl (c_baseHostMax c) (ss_revision snap) (AList.update d r (ss_baseHosts snap))"
    if "normalizeBaseDomain psl v = Some d" "map_of (ss_baseHosts snap) d = None"
      "int (length (ss_baseHosts snap)) < c_baseHostMax c" "r \<le> ss_revision snap" for v d
  proof -
    have "list_all (\<lambda>(d, r'). r' \<le> ss_revision snap \<and> (\<exists>v. normalizeBaseDomain psl v = Some d)) (ss_baseHosts snap)"
      "distinct (keys (ss_baseHosts snap))"
      using assms(1,2) by (auto simp: core_defs hosts_ok_def)
    with that show ?thesis
      by (auto simp: hosts_ok_def distinct_keys_update length_update_new intro!: list_all_update)
  qed
  with assms show ?thesis
    by (auto simp: snapshotEntry_def core_defs not_le not_less
        dest!: baseHostDeltaDomain_Some split: if_splits option.splits watch_payload.splits)
qed

lemma core_disconnect:
  "core_ok psl c \<Longrightarrow> core_ok psl (transitionLocked now c StateDisconnected)"
  by (auto simp: core_defs client_simps split: option.splits)

lemma core_accept:
  assumes "state_ok c" "c_connected c" "c_state c = StateReady \<or> c_state c = StateSynchronizing"
    and "c_snapshot c = None" "hosts_ok psl (c_baseHostMax c) r (c_baseHosts c)"
    and "c_revision c < r" "r = c_revision c + 1" "cursor \<noteq> []"
  shows "core_ok psl (acceptMutation now c r cursor)"
proof -
  have r: "r \<noteq> 0" using assms(6) by (metis word_not_simps(1))
  from assms(3) show ?thesis
  proof
    assume "c_state c = StateReady"
    with assms r show ?thesis by (simp add: core_defs acceptMutation_def)
  next
    assume "c_state c = StateSynchronizing"
    with assms r show ?thesis
      by (cases "c_requiredRevision c = 0"; cases "c_requiredRevision c \<le> r"; cases "c_barrierRequired c")
        (simp_all add: core_defs acceptMutation_def Let_def client_simps not_le)
  qed
qed

lemma core_live:
  assumes "core_ok psl c" "c_connected c" "c_state c = StateReady \<or> c_state c = StateSynchronizing"
    and "c_snapshot c = None" "liveMutation psl now c event r cursor = (c', e)"
  shows "core_ok psl c' \<and> c_connected c'"
proof (cases "envelope_ok c r cursor")
  case False
  have "core_ok psl (c\<lparr>c_metrics := m, c_lastGap := g\<rparr>)" for m g
    using assms(1,4) by (simp add: core_defs)
  with liveMutation_refused(1) [OF False assms(5)] assms(1,2) show ?thesis
    by (auto intro: core_disconnect)
next
  case True
  note env = True [unfolded envelope_ok_def]
  obtain c1 x where a: "applyEntityLocked psl now c event r = (c1, x)" by fastforce
  note f = applyEntity_fields [OF a]
  show ?thesis
  proof (cases x)
    case None
    have "hosts_ok psl (c_baseHostMax c1) r (c_baseHosts c1)"
      using assms(1) a env f by (auto simp: core_ok_def intro: applyEntity_hosts(1))
    moreover have "state_ok c1" using assms(1) f by (simp add: core_ok_def state_ok_def)
    ultimately have "core_ok psl (acceptMutation now c1 r cursor)"
      using assms(2-4) f env by (intro core_accept) auto
    with assms(2,5) a None f show ?thesis
      by (auto simp: liveMutation_envelope [OF True])
  next
    case (Some err)
    have "core_ok psl c1"
      using assms(1,4) f applyEntity_hosts(2) [OF _ _ a] less_imp_le [of "c_revision c" r] env Some
      by (auto simp: core_defs)
    with assms(2,5) a Some f show ?thesis
      by (auto simp: liveMutation_envelope [OF True] intro: core_disconnect)
  qed
qed

lemma core_processWatch:
  assumes "core_ok psl c" "c_connected c" "processWatch psl now c delta = (c', e)"
  shows "core_ok psl c' \<and> c_connected c'"
proof -
  have "core_ok psl c1 \<and> c_connected c1" if "processLocked psl now c event r cursor = (c1, x)" for event r cursor c1 x
    using that assms(1,2) core_begin [OF assms(1)] core_barrier [OF assms(1,2)] core_entry [OF assms(1)]
      core_live [OF assms(1,2)]
    by (auto simp: processLocked_def split: if_splits watch_payload.splits option.splits)
  moreover have "core_ok psl (transitionLocked now (c1\<lparr>c_barrierRequired := True\<rparr>) StateDisconnected)"
    if "core_ok psl c1" for c1 :: "('a, 'b) client"
    using that by (auto simp: core_defs client_simps split: option.splits)
  ultimately show ?thesis
    using assms by (fastforce simp: processWatch_def split: option.splits prod.splits)
qed

lemma wf_processWatch:
  assumes "wf_client psl c" "c_connected c" "processWatch psl now c delta = (c', e)"
  shows "wf_client psl c' \<and> c_connected c'"
proof -
  have "core_ok psl c' \<and> c_connected c'"
    using core_processWatch [OF _ assms(2,3)] assms(1) by (simp add: wf_client_iff)
  moreover have "coherent_caches not_newer not_newer c'"
  proof (rule processWatch_coherent [OF _ _ assms(3)])
    fix event assume "next_event c delta = Some event"
    then have "c_revision c \<le> c_revision c + 1"
      by (auto simp: next_event_def split: option.splits if_splits)
    then show "carried not_newer (c_revision c) (c_revision c + 1) (touched_credential event)
        \<and> carried not_newer (c_revision c) (c_revision c + 1) (touched_vbucket event)"
      by (simp add: carried_not_newer)
  qed (use assms(1) in \<open>simp_all add: wf_client_def\<close>)
  ultimately show ?thesis by (simp add: wf_client_iff)
qed

lemma wf_unsynchronized:
  assumes "wf_client psl c" "st \<noteq> StateReady" "st \<noteq> StateSynchronizing"
  shows "wf_client psl (markUnsynchronized now c st) \<and> idle (markUnsynchronized now c st)"
  using assms by (simp add: markUnsynchronized_def wf_defs client_simps idle_def)

lemma wf_disconnected:
  assumes "wf_client psl c"
  shows "wf_client psl (markDisconnected now e c) \<and> idle (markDisconnected now e c)"
  using assms by (simp add: markDisconnected_def wf_defs client_simps idle_def)

lemma wf_bump: "wf_client psl (bump f c) = wf_client psl c"
  by (simp add: bump_def wf_defs split: option.split)

lemma wf_signals:
  "wf_client psl (c\<lparr>c_resync := x\<rparr>) = wf_client psl c"
  "wf_client psl (c\<lparr>c_stateChanged := x\<rparr>) = wf_client psl c"
  by (simp_all add: wf_defs split: option.split)

lemma wf_connected:
  "wf_client psl c \<Longrightarrow> idle c \<Longrightarrow> wf_client psl (c\<lparr>c_connected := x\<rparr>) \<and> idle (c\<lparr>c_connected := x\<rparr>)"
  by (simp add: wf_defs idle_def)

lemma idle_fields [simp]:
  "idle (c\<lparr>c_resync := x\<rparr>) = idle c" "idle (bump f c) = idle c"
  by (simp_all add: idle_def bump_def)

lemma wf_connect_open:
  assumes "wf_client psl c" "idle c" "c_connected c"
  shows "wf_client psl (snd (connect_open now c)) \<and> run_ok (snd (connect_open now c)) (RunOpened b)"
  using assms by (simp add: connect_open_def Let_def wf_defs client_simps idle_def)

text \<open>Every step of the watch goroutine keeps the invariant.\<close>

lemma wf_run_step:
  assumes "run_step psl opts (c, r) l (c', r')" "wf_client psl c" "run_ok c r"
  shows "wf_client psl c' \<and> run_ok c' r'"
  using assms
proof (cases rule: run_step.cases)
  case (run_event now delta b synced)
  with assms(2,3) wf_processWatch [of psl c now delta c' None] show ?thesis by simp
next
  case (run_event_fails now delta err b synced)
  with assms(2,3) wf_processWatch [of psl c now delta c' "Some err"] show ?thesis by simp
qed (use assms(2,3) in \<open>simp_all add: wf_unsynchronized wf_disconnected wf_signals wf_bump
    connect_begin_def connect_dialed_def connect_closed_def wf_connected wf_connect_open [simplified]\<close>)

end
