(* ===== verification/Sync_Coherence.thy ===== *)
theory Sync_Coherence
  imports Sync_System
begin

text \<open>
  The steps of the lookups as seen by the rest of the client.  A lookup changes its own cache and
  admission state, and of the fields that decide about readiness only through a resynchronization
  request; what its cache, its loads and its pending answers hold stays true at the revision of
  the client.  The laws are proved once over an interface of the entity's accessors and hold for
  credentials and for buckets.
\<close>

section \<open>The fields that decide about readiness\<close>

definition core :: "('c, 'b) client \<Rightarrow> State \<times> uint64 \<times> string \<times> uint64 \<times> snapshotState option \<times> uint64 \<times> base_hosts \<times> int \<times> bool \<times> bool" where
  "core c =
     (c_state c, c_revision c, c_cursor c, c_epoch c, c_snapshot c, c_requiredRevision c,
      c_baseHosts c, c_baseHostMax c, c_barrierRequired c, c_connected c)"

lemma core_eq:
  "core c = core c' \<longleftrightarrow>
     c_state c = c_state c' \<and> c_revision c = c_revision c' \<and> c_cursor c = c_cursor c'
     \<and> c_epoch c = c_epoch c' \<and> c_snapshot c = c_snapshot c' \<and> c_requiredRevision c = c_requiredRevision c'
     \<and> c_baseHosts c = c_baseHosts c' \<and> c_baseHostMax c = c_baseHostMax c'
     \<and> c_barrierRequired c = c_barrierRequired c' \<and> c_connected c = c_connected c'"
  by (simp add: core_def)

lemma core_bump [simp]: "core (bump f c) = core c"
  by (simp add: core_def bump_def)

lemma core_observeRPC [simp]: "core (observeRPC start now failed code c) = core c"
  by (simp add: observeRPC_def)

lemma core_coalesced [simp]: "core (coalesced shared c) = core c"
  by (simp add: coalesced_def)

lemma core_resync_cong: "core c = core c' \<Longrightarrow> core (requestResyncLocked now c) = core (requestResyncLocked now c')"
  by (auto simp: core_eq requestResyncLocked_def client_simps)

lemma core_check_cong:
  "core c = core c' \<Longrightarrow>
   core (fst (checkUnaryRevision now c r x)) = core (fst (checkUnaryRevision now c' r x))
   \<and> snd (checkUnaryRevision now c r x) = snd (checkUnaryRevision now c' r x)"
  using core_resync_cong [of c c' now]
  by (auto simp: core_eq checkUnaryRevision_def Let_def client_simps)

text \<open>What lookups and loads can do to these fields: nothing, ask for a resynchronization, or require a revision.\<close>

definition background :: "('c, 'b) client \<Rightarrow> ('c, 'b) client \<Rightarrow> bool" where
  "background c c' =
     (core c' = core c
      \<or> (\<exists>now. core c' = core (requestResyncLocked now c))
      \<or> (\<exists>now r x. core c' = core (fst (checkUnaryRevision now c r x))))"

lemma background_refl: "core c' = core c \<Longrightarrow> background c c'"
  by (simp add: background_def)

lemma background_resync: "core c' = core (requestResyncLocked now c) \<Longrightarrow> background c c'"
  by (auto simp: background_def)

lemma background_check: "core c' = core (fst (checkUnaryRevision now c r x)) \<Longrightarrow> background c c'"
  unfolding background_def by blast

lemma background_core: "background c c1 \<Longrightarrow> core c' = core c1 \<Longrightarrow> background c c'"
  by (simp add: background_def)

lemma background_revision: "background c c' \<Longrightarrow> c_revision c' = c_revision c"
  by (auto simp: background_def core_eq requestResyncLocked_def checkUnaryRevision_def Let_def split: if_splits)

section \<open>What loads and lookups carry\<close>

text \<open>
  A predicate on revisions, keys and values that implies that the value is not newer than the
  revision. It holds of what the loads and lookups carry, at the revision of the value itself;
  a lookup that has read the cache relies on it only while the revision stays the same.
\<close>

definition load_inv :: "(uint64 \<Rightarrow> string \<Rightarrow> 'v cached \<Rightarrow> bool) \<Rightarrow> 'v load \<Rightarrow> bool" where
  "load_inv P ld =
     (case ld_phase ld of
        LoadCalling \<Rightarrow> True
      | LoadChecked e \<Rightarrow> P (ce_Revision e) (ld_key ld) e
      | LoadDone (Inl err) \<Rightarrow> err \<noteq> ErrNotFound
      | LoadDone (Inr e) \<Rightarrow> P (ce_Revision e) (ld_key ld) e)"

definition lookup_inv ::
  "(uint64 \<Rightarrow> string \<Rightarrow> 'v cached \<Rightarrow> bool) \<Rightarrow> uint64 \<Rightarrow> 'v load list \<Rightarrow> string \<Rightarrow> 'v lookup_pc \<Rightarrow> bool" where
  "lookup_inv P r loads key pc =
     (case pc of
        LkCache retry r0 epoch \<Rightarrow> r0 \<le> r
      | LkHit retry r0 epoch e \<Rightarrow> r0 \<le> r \<and> (r = r0 \<longrightarrow> P r0 key e)
      | LkWait retry shared epoch i \<Rightarrow> i < length loads \<and> ld_key (loads ! i) = key
      | LkCheck retry epoch e \<Rightarrow> P (ce_Revision e) key e
      | _ \<Rightarrow> True)"

text \<open>The loads of a key stay the loads of that key.\<close>

definition loads_grow :: "'v load list \<Rightarrow> 'v load list \<Rightarrow> bool" where
  "loads_grow loads loads' =
     (length loads \<le> length loads' \<and> (\<forall>i < length loads. ld_key (loads' ! i) = ld_key (loads ! i)))"

lemma lookup_inv_grow:
  "lookup_inv P r loads key pc \<Longrightarrow> loads_grow loads loads' \<Longrightarrow> lookup_inv P r loads' key pc"
  by (auto simp: lookup_inv_def loads_grow_def split: lookup_pc.splits)

lemma lookup_inv_later:
  "lookup_inv P r loads key pc \<Longrightarrow> r \<le> r' \<Longrightarrow> lookup_inv P r' loads key pc"
  by (auto simp: lookup_inv_def split: lookup_pc.splits)

lemma find_open_Some: "find_open loads key = Some i \<Longrightarrow> i < length loads \<and> ld_key (loads ! i) = key"
  by (auto simp: find_open_def find_Some_iff)

section \<open>The interface of a kind of lookup\<close>

text \<open>
  The fields of the client that a kind of lookup reads and writes: its cache and its admission
  control; \<open>other\<close> is the cache of the other kind.
\<close>

locale entity_access =
  fixes E :: "('c, 'b, 'v, 'r) entity"
    and other :: "('c, 'b) client \<Rightarrow> (string, 'w cached) localCache"
  assumes cache_put: "ent_cache E (ent_put E x c) = x"
    and core_put: "core (ent_put E x c) = core c"
    and other_put: "other (ent_put E x c) = other c"
    and cache_admission: "ent_cache E (ent_put_admission E a c) = ent_cache E c"
    and core_admission: "core (ent_put_admission E a c) = core c"
    and other_admission: "other (ent_put_admission E a c) = other c"
    and cache_bump: "ent_cache E (bump f c) = ent_cache E c"
    and other_bump: "other (bump f c) = other c"
    and cache_resync: "ent_cache E (requestResyncLocked now c) = ent_cache E c"
    and other_resync: "other (requestResyncLocked now c) = other c"
    and cache_check: "ent_cache E (fst (checkUnaryRevision now c r y)) = ent_cache E c"
    and other_check: "other (fst (checkUnaryRevision now c r y)) = other c"
begin

lemmas access = cache_put core_put other_put cache_admission core_admission other_admission
  cache_bump other_bump cache_resync other_resync cache_check other_check

lemma release_access:
  "ent_cache E (load_release E c) = ent_cache E c" "core (load_release E c) = core c"
  "other (load_release E c) = other c"
  by (simp_all add: load_release_def access)

lemma background_release: "background c (load_release E c1) = background c c1"
  by (simp add: background_def release_access)

lemma coalesced_access:
  "ent_cache E (coalesced shared c) = ent_cache E c" "other (coalesced shared c) = other c"
  by (simp_all add: coalesced_def access)

lemma observe_access:
  "ent_cache E (observeRPC start now failed code c) = ent_cache E c"
  "other (observeRPC start now failed code c) = other c"
  by (simp_all add: observeRPC_def access)

text \<open>A lookup changes nothing but its cache, its admission control and the counters.\<close>

lemma lookup_step_core:
  assumes "lookup_step E now c loads key pc = (c', loads', pc')"
  shows "core c' = core c \<and> other c' = other c"
  using assms
  by (auto simp: lookup_step_def access coalesced_access split: lookup_pc.splits sum.splits prod.splits
      option.splits if_splits bool.splits load_phase.splits)

lemma publish_core:
  assumes "publish E now c key revision epoch candidate = (c', r)"
  shows "background c c' \<and> other c' = other c"
proof -
  obtain n1 k1 where g1: "GetIfPresent now (ent_cache E c) key = (n1, k1)" by fastforce
  obtain n2 k2 where g2: "GetIfPresent now (ent_cache E (ent_put E k1 c)) key = (n2, k2)" by fastforce
  have "core (requestResyncLocked now (ent_put E k1 c)) = core (requestResyncLocked now c)"
    by (rule core_resync_cong) (simp add: access)
  then show ?thesis
    using assms g1 g2
    by (auto simp: publish_def Let_def access background_def split: if_splits)
qed

lemma response_core:
  assumes "load_response E start now code rpc c ld = (c', ld')"
  shows "background c c' \<and> other c' = other c"
proof -
  let ?o = "observeRPC start now (isl rpc) code c"
  have cong: "core (fst (checkUnaryRevision now ?o r x)) = core (fst (checkUnaryRevision now c r x))" for r x
    using core_check_cong [of ?o c] by simp
  have fst_eq: "fst (checkUnaryRevision now ?o r x) = c1" if "checkUnaryRevision now ?o r x = (c1, e)" for r x c1 e
    using that by simp
  have "background c c1 \<and> other c1 = other c" if "checkUnaryRevision now ?o r x = (c1, e)" for r x c1 e
    using cong [of r x] fst_eq [OF that] other_check [of now ?o r x] observe_access(2) background_check
    by metis
  then show ?thesis
    using assms
    by (auto simp: load_response_def Let_def release_access observe_access background_release
        intro: background_core background_refl split: sum.splits option.splits prod.splits)
qed

lemma lookup_sys_core:
  assumes "lookup_sys_step E (c, loads, lks) l (c', loads', lks')"
  shows "background c c' \<and> other c' = other c"
  using assms
proof (cases rule: lookup_sys_step.cases)
  case (lk_step i now pc')
  with lookup_step_core show ?thesis by (auto intro: background_refl)
next
  case (lk_cancel i pc')
  then show ?thesis
    by (auto simp: lookup_cancel_def background_def coalesced_access split: lookup_pc.splits)
next
  case (ld_response j start now code rpc ld')
  with response_core show ?thesis by blast
next
  case (ld_publish j candidate now ld')
  obtain c1 r where p: "publish E now c (ld_key (loads ! j)) (ld_revision (loads ! j)) (ld_epoch (loads ! j)) candidate = (c1, r)"
    by fastforce
  with ld_publish have "c' = load_release E c1" by (simp add: load_publish_def)
  with publish_core [OF p] show ?thesis
    by (auto simp: release_access intro: background_core)
qed (auto intro: background_refl)

definition entity_inv ::
  "(uint64 \<Rightarrow> string \<Rightarrow> 'v cached \<Rightarrow> bool) \<Rightarrow> ('c, 'b) client \<Rightarrow> 'v load list \<Rightarrow> 'v lookup list \<Rightarrow> bool" where
  "entity_inv P c loads lks =
     (cache_coherent (P (c_revision c)) (ent_cache E c)
      \<and> (\<forall>ld \<in> set loads. load_inv P ld)
      \<and> (\<forall>lk \<in> set lks. lookup_inv P (c_revision c) loads (lk_key lk) (lk_pc lk)))"

lemma own_lookup_step:
  assumes "cache_coherent (P (c_revision c)) (ent_cache E c)" "\<forall>ld \<in> set loads. load_inv P ld"
    and "lookup_inv P (c_revision c) loads key pc"
    and "lookup_step E now c loads key pc = (c', loads', pc')"
  shows "cache_coherent (P (c_revision c)) (ent_cache E c') \<and> (\<forall>ld \<in> set loads'. load_inv P ld)
    \<and> loads_grow loads loads' \<and> lookup_inv P (c_revision c) loads' key pc'"
proof (cases pc)
  case (LkCache retry revision epoch)
  obtain r k where g: "GetIfPresent now (ent_cache E c) key = (r, k)" by fastforce
  have "cache_coherent (P (c_revision c)) k \<and> (\<forall>e. r = Some e \<longrightarrow> P (c_revision c) key e)"
    using assms(1) g by (rule coherent_GetIfPresent)
  with assms LkCache g show ?thesis
    by (auto simp: lookup_step_def access lookup_inv_def loads_grow_def split: option.splits if_splits)
next
  case (LkMiss retry revision epoch)
  with assms show ?thesis
    by (auto simp: lookup_step_def access lookup_inv_def loads_grow_def load_inv_def nth_append
        dest: find_open_Some split: option.splits prod.splits bool.splits)
next
  case (LkWait retry shared epoch i)
  then have "i < length loads" "ld_key (loads ! i) = key" using assms(3) by (simp_all add: lookup_inv_def)
  moreover from this have "load_inv P (loads ! i)" using assms(2) by simp
  ultimately show ?thesis
    using assms LkWait
    by (auto simp: lookup_step_def coalesced_access lookup_inv_def loads_grow_def load_inv_def
        split: load_phase.splits sum.splits if_splits)
qed (use assms in \<open>auto simp: lookup_step_def lookupSnapshot_def race_def access lookup_inv_def loads_grow_def
    split: sum.splits prod.splits if_splits\<close>)

text \<open>
  A lookup that now returns a value, or that there is none, does so while the client is ready,
  and the predicate holds of its answer at the revision of the client.
\<close>

lemma own_return:
  assumes "\<forall>ld \<in> set loads. load_inv P ld" "lookup_inv P (c_revision c) loads key pc"
    and "lookup_step E now c loads key pc = (c', loads', LkReturn res)" "\<And>x. pc \<noteq> LkReturn x"
    and "res = Inr v \<or> res = Inl ErrNotFound"
  shows "c_state c = StateReady \<and> (\<exists>e. P (c_revision c) key e \<and> answer e = res)"
proof (cases pc)
  case (LkHit retry revision epoch e)
  with assms show ?thesis
    by (auto simp: lookup_step_def stillCurrent_def race_def lookup_inv_def split: if_splits)
next
  case (LkCheck retry epoch e)
  with assms show ?thesis
    by (auto simp: lookup_step_def stillCurrent_def race_def lookup_inv_def split: if_splits)
next
  case (LkWait retry shared epoch i)
  then have "i < length loads" using assms(2) by (simp add: lookup_inv_def)
  then have "load_inv P (loads ! i)" using assms(1) by simp
  with LkWait assms(3,5) show ?thesis
    by (auto simp: lookup_step_def load_inv_def split: load_phase.splits sum.splits if_splits)
qed (use assms(3-5) in \<open>auto simp: lookup_step_def lookupSnapshot_def
    split: sum.splits prod.splits if_splits option.splits bool.splits\<close>)

lemma own_publish:
  assumes "cache_coherent (P (c_revision c)) (ent_cache E c)" "P (ce_Revision candidate) key candidate"
    and newer: "\<And>r k e. P r k e \<Longrightarrow> ce_Revision e \<le> r"
    and "publish E now c key revision epoch candidate = (c', res)"
  shows "cache_coherent (P (c_revision c)) (ent_cache E c')
    \<and> (case res of Inl err \<Rightarrow> err \<noteq> ErrNotFound | Inr e \<Rightarrow> P (ce_Revision e) key e)"
proof -
  obtain n1 k1 where g1: "GetIfPresent now (ent_cache E c) key = (n1, k1)" by fastforce
  have k1: "cache_coherent (P (c_revision c)) k1" and n1: "\<And>e. n1 = Some e \<Longrightarrow> P (c_revision c) key e"
    using coherent_GetIfPresent [OF assms(1) g1] by auto
  obtain n2 k2 where g2: "GetIfPresent now k1 key = (n2, k2)" by fastforce
  have k2: "cache_coherent (P (c_revision c)) k2" and n2: "\<And>e. n2 = Some e \<Longrightarrow> P (c_revision c) key e"
    using coherent_GetIfPresent [OF k1 g2] by auto
  have put: "cache_coherent (P (c_revision c)) (cache_Set now k2 key candidate (ce_TTL candidate))"
    if "ce_Revision candidate = c_revision c"
    using k2 assms(2) that by (auto intro: local_cache.coherent_put)
  have eq: "P (ce_Revision e) key e"
    if "n2 = Some e" "ce_Revision e \<ge> ce_Revision candidate" "ce_Revision candidate = c_revision c" for e
  proof -
    have "ce_Revision e = c_revision c" using that newer [OF n2 [OF that(1)]] by simp
    with n2 [OF that(1)] show ?thesis by simp
  qed
  show ?thesis
    using assms(1,2,4) g1 g2 k1 n1 k2 n2 put eq
    by (auto simp: publish_def Let_def access split: if_splits option.splits)
qed

lemma own_response:
  assumes "cache_coherent (P (c_revision c)) (ent_cache E c)"
    and "\<And>resp e. rpc = Inr (Some resp) \<Longrightarrow> ent_parse E resp = Some e \<Longrightarrow> P (ce_Revision e) (ld_key ld) e"
    and "load_response E start now code rpc c ld = (c', ld')"
  shows "cache_coherent (P (c_revision c)) (ent_cache E c') \<and> load_inv P ld' \<and> ld_key ld' = ld_key ld"
proof -
  let ?o = "observeRPC start now (isl rpc) code c"
  have chk: "ent_cache E c1 = ent_cache E c" if "checkUnaryRevision now ?o r x = (c1, e)" for r x c1 e
    using that cache_check [of now ?o r x] observe_access by simp
  have err: "err \<noteq> ErrNotFound" if "checkUnaryRevision now ?o r x = (c1, Some err)" for r x c1 err
    using that by (auto simp: checkUnaryRevision_def Let_def split: if_splits)
  show ?thesis
    using assms chk err
    by (auto simp: load_response_def Let_def release_access observe_access load_inv_def
        split: sum.splits option.splits prod.splits)
qed

lemma loads_grow_update: "ld_key ld' = ld_key (loads ! j) \<Longrightarrow> loads_grow loads (loads[j := ld'])"
  by (cases "j < length loads") (auto simp: loads_grow_def nth_list_update list_update_beyond)

lemma in_list_update: "x \<in> set (xs[i := y]) \<Longrightarrow> x = y \<or> x \<in> set xs"
  using set_update_subset_insert by fastforce

text \<open>Every step of a kind of lookup keeps its invariant, if the responses it receives satisfy the predicate.\<close>

lemma own_sys_step:
  assumes inv: "entity_inv P c loads lks"
    and newer: "\<And>r k e. P r k e \<Longrightarrow> ce_Revision e \<le> r"
    and step: "lookup_sys_step E (c, loads, lks) l (c', loads', lks')"
    and honest: "\<And>key resp e. l = Some (key, Inr (Some resp)) \<Longrightarrow> ent_parse E resp = Some e \<Longrightarrow> P (ce_Revision e) key e"
  shows "entity_inv P c' loads' lks'"
proof -
  note coh = inv [unfolded entity_inv_def, THEN conjunct1]
  have lds: "\<forall>ld \<in> set loads. load_inv P ld" using inv by (simp add: entity_inv_def)
  have lkinv: "\<forall>lk \<in> set lks. lookup_inv P (c_revision c) loads (lk_key lk) (lk_pc lk)"
    using inv by (simp add: entity_inv_def)
  have rev: "c_revision c' = c_revision c"
    using lookup_sys_core [OF step] by (blast intro: background_revision)
  have upd: "entity_inv P c' (loads[j := ld']) lks"
    if "cache_coherent (P (c_revision c)) (ent_cache E c')" "load_inv P ld'" "ld_key ld' = ld_key (loads ! j)" for j ld'
  proof -
    have "loads_grow loads (loads[j := ld'])" using that(3) by (rule loads_grow_update)
    then show ?thesis
      using that lds lkinv rev by (auto simp: entity_inv_def intro: lookup_inv_grow dest!: in_list_update)
  qed
  from step show ?thesis
  proof (cases rule: lookup_sys_step.cases)
    case (lk_new key)
    with inv show ?thesis by (auto simp: entity_inv_def lookup_inv_def)
  next
    case (lk_step i now pc')
    have "lookup_inv P (c_revision c) loads (lk_key (lks ! i)) (lk_pc (lks ! i))"
      using lkinv lk_step(3) by simp
    from own_lookup_step [OF coh lds this lk_step(4)] lk_step rev lkinv show ?thesis
      by (auto simp: entity_inv_def intro: lookup_inv_grow dest!: in_list_update)
  next
    case (lk_cancel i pc')
    have "lookup_inv P (c_revision c) loads (lk_key (lks ! i)) (lk_pc (lks ! i))"
      using lkinv lk_cancel(4) by simp
    then have "lookup_inv P (c_revision c) loads (lk_key (lks ! i)) pc'" "ent_cache E c' = ent_cache E c"
      using lk_cancel(5) by (auto simp: lookup_cancel_def lookup_inv_def coalesced_access split: lookup_pc.splits)
    with lk_cancel coh lds lkinv rev show ?thesis
      by (auto simp: entity_inv_def dest!: in_list_update)
  next
    case (ld_response j start now code rpc ld')
    have "cache_coherent (P (c_revision c)) (ent_cache E c') \<and> load_inv P ld' \<and> ld_key ld' = ld_key (loads ! j)"
      using coh _ ld_response(6) by (rule own_response) (use honest ld_response(1) in auto)
    with ld_response(2,3) upd show ?thesis by blast
  next
    case (ld_publish j candidate now ld')
    obtain c1 r where p: "publish E now c (ld_key (loads ! j)) (ld_revision (loads ! j)) (ld_epoch (loads ! j)) candidate = (c1, r)"
      by fastforce
    have "load_inv P (loads ! j)" using lds ld_publish(4) by simp
    then have "P (ce_Revision candidate) (ld_key (loads ! j)) candidate"
      using ld_publish(5) by (simp add: load_inv_def)
    from own_publish [OF coh this newer p] have
      "cache_coherent (P (c_revision c)) (ent_cache E c')" "load_inv P ld'" "ld_key ld' = ld_key (loads ! j)"
      using ld_publish(6) p by (auto simp: load_publish_def release_access load_inv_def split: sum.splits)
    with ld_publish(2,3) upd show ?thesis by blast
  next
    case (ld_close j r)
    have "load_inv P (loads ! j)" using lds ld_close(5) by simp
    then have "load_inv P (load_close (loads ! j))" by (auto simp: load_close_def load_inv_def split: load_phase.splits sum.splits)
    with ld_close coh upd show ?thesis by (simp add: load_close_def)
  qed
qed

text \<open>While the client is not ready an empty cache stays empty.\<close>

lemma own_empty:
  assumes "lc_entries (ent_cache E c) = []" "c_state c \<noteq> StateReady"
    and "lookup_sys_step E (c, loads, lks) l (c', loads', lks')"
  shows "lc_entries (ent_cache E c') = []"
proof -
  have get: "GetIfPresent now (ent_cache E c) key = (None, ent_cache E c)" for now key
    using assms(1) by (simp add: GetIfPresent_def)
  have chk: "ent_cache E c1 = ent_cache E (observeRPC start now failed code c)"
    if "checkUnaryRevision now (observeRPC start now failed code c) r x = (c1, e)" for start now failed code r x c1 e
    using that cache_check [of now "observeRPC start now failed code c" r x] by simp
  from assms(3) show ?thesis
  proof (cases rule: lookup_sys_step.cases)
    case (lk_step i now pc')
    with assms(1) get show ?thesis
      by (auto simp: lookup_step_def access coalesced_access split: lookup_pc.splits sum.splits prod.splits
          option.splits if_splits bool.splits load_phase.splits)
  next
    case (lk_cancel i pc')
    with assms(1) show ?thesis
      by (auto simp: lookup_cancel_def coalesced_access split: lookup_pc.splits)
  next
    case (ld_response j start now code rpc ld')
    with assms(1) chk show ?thesis
      by (auto simp: load_response_def Let_def release_access observe_access
          split: sum.splits option.splits prod.splits)
  next
    case (ld_publish j candidate now ld')
    with assms(1,2) show ?thesis
      by (auto simp: load_publish_def publish_def release_access)
  qed (use assms(1) in simp_all)
qed

lemma entity_inv_advance:
  assumes "entity_inv P c loads lks" "c_revision c \<le> c_revision c'"
    and "cache_coherent (P (c_revision c')) (ent_cache E c')"
  shows "entity_inv P c' loads lks"
  using assms by (auto simp: entity_inv_def intro: lookup_inv_later)

end

interpretation credentials_lookup: entity_access "credentials_entity revision parse" c_vbuckets
  for revision :: "'r \<Rightarrow> uint64" and parse :: "'r \<Rightarrow> 'c cached option"
  by unfold_locales (auto simp: credentials_entity_def core_eq bump_def requestResyncLocked_def
      checkUnaryRevision_def Let_def)

interpretation vbuckets_lookup: entity_access "vbuckets_entity revision parse" c_credentials
  for revision :: "'r \<Rightarrow> uint64" and parse :: "'r \<Rightarrow> 'b cached option"
  by unfold_locales (auto simp: vbuckets_entity_def core_eq bump_def requestResyncLocked_def
      checkUnaryRevision_def Let_def)

lemma credentials_cache [simp]: "ent_cache (credentials_entity revision parse) = c_credentials"
  by (simp add: credentials_entity_def)

lemma vbuckets_cache [simp]: "ent_cache (vbuckets_entity revision parse) = c_vbuckets"
  by (simp add: vbuckets_entity_def)

lemma entity_parse [simp]:
  "ent_parse (credentials_entity revision parse) = parse" "ent_parse (vbuckets_entity revision parse) = parse"
  by (simp_all add: credentials_entity_def vbuckets_entity_def)

end
