(* ===== verification/Sync_Invariant.thy ===== *)
theory Sync_Invariant
  imports Sync_Coherence
begin

text \<open>
  The invariant of the client together with its watch goroutine, its lookups and its loads, kept
  by every step of the system, and how revisions and epochs grow along a run.
\<close>

section \<open>Revisions and epochs along steps\<close>

lemma processWatch_revision:
  assumes "snapshot_ok psl c" "processWatch psl now c delta = (c', e)"
  shows "c_revision c \<le> c_revision c'"
proof -
  have live: "c_revision c \<le> c_revision c1" if "liveMutation psl now c event r cursor = (c1, x)" for event r cursor c1 x
  proof (cases "envelope_ok c r cursor")
    case True
    obtain c2 y where a: "applyEntityLocked psl now c event r = (c2, y)" by fastforce
    note f = applyEntity_fields(3) [OF a]
    have "c_revision c < r" using True unfolding envelope_ok_def by blast
    with that a f show ?thesis
      by (auto simp: liveMutation_envelope [OF True] split: option.splits)
  next
    case False
    from liveMutation_refused(1) [OF False that] show ?thesis by auto
  qed
  have bar: "c_revision c \<le> c_revision c1" if "synchronizationBarrier now c r cursor = (c1, x)" for r cursor c1 x
    using that assms(1)
    by (auto simp: synchronizationBarrier_def Let_def clearRequired_def snapshot_ok_def split: if_splits option.splits)
  have "c_revision c \<le> c_revision c1" if "processLocked psl now c event r cursor = (c1, x)" for event r cursor c1 x
    using that live bar
    by (auto simp: processLocked_def beginSnapshot_def snapshotEntry_def Let_def
        split: if_splits watch_payload.splits option.splits)
  with assms(2) show ?thesis
    by (auto simp: processWatch_def split: option.splits prod.splits)
qed

lemma run_step_revision:
  assumes "run_step psl opts (c, r) l (c', r')" "snapshot_ok psl c"
  shows "c_revision c \<le> c_revision c'"
  using assms(1)
proof (cases rule: run_step.cases)
  case (run_event now delta b synced)
  with assms(2) processWatch_revision show ?thesis by blast
next
  case (run_event_fails now delta err b synced)
  with assms(2) processWatch_revision show ?thesis by blast
qed (simp_all add: markUnsynchronized_def markDisconnected_def connect_begin_def connect_dialed_def
    connect_open_def connect_closed_def bump_def Let_def)

section \<open>The invariant of the system\<close>

text \<open>
  What the control plane sends: the events that are next in line carry the predicates over, and the
  responses satisfy them.
\<close>

definition honest ::
  "(uint64 \<Rightarrow> string \<Rightarrow> 'c cached \<Rightarrow> bool) \<Rightarrow> (uint64 \<Rightarrow> string \<Rightarrow> 'b cached \<Rightarrow> bool)
     \<Rightarrow> ('c, 'b, 'c, 'p) entity \<Rightarrow> ('c, 'b, 'b, 'q) entity \<Rightarrow> ('c, 'b) sys \<Rightarrow> ('p, 'q) sys_label \<Rightarrow> bool" where
  "honest P Q C B s l =
     (case l of
        LabelWatch (Some delta) \<Rightarrow>
          (\<forall>event. next_event (s_client s) delta = Some event \<longrightarrow>
             carried P (c_revision (s_client s)) (c_revision (s_client s) + 1) (touched_credential event)
             \<and> carried Q (c_revision (s_client s)) (c_revision (s_client s) + 1) (touched_vbucket event))
      | LabelCredentials (Some (key, Inr (Some resp))) \<Rightarrow>
          (\<forall>e. ent_parse C resp = Some e \<longrightarrow> P (ce_Revision e) key e)
      | LabelVBuckets (Some (key, Inr (Some resp))) \<Rightarrow>
          (\<forall>e. ent_parse B resp = Some e \<longrightarrow> Q (ce_Revision e) key e)
      | _ \<Rightarrow> True)"

definition sys_ok ::
  "(string \<Rightarrow> bool) \<Rightarrow> (uint64 \<Rightarrow> string \<Rightarrow> 'c cached \<Rightarrow> bool) \<Rightarrow> (uint64 \<Rightarrow> string \<Rightarrow> 'b cached \<Rightarrow> bool)
     \<Rightarrow> ('c, 'b, 'c, 'p) entity \<Rightarrow> ('c, 'b, 'b, 'q) entity \<Rightarrow> ('c, 'b) sys \<Rightarrow> bool" where
  "sys_ok psl P Q C B s =
     (core_ok psl (s_client s) \<and> run_ok (s_client s) (s_run s)
      \<and> entity_access.entity_inv C P (s_client s) (s_cloads s) (s_clookups s)
      \<and> entity_access.entity_inv B Q (s_client s) (s_bloads s) (s_blookups s))"

lemma core_ok_cong:
  assumes "core c' = core c" "core_ok psl c"
    and "c_snapshot c \<noteq> None \<Longrightarrow> lc_entries (c_credentials c') = [] \<and> lc_entries (c_vbuckets c') = []"
  shows "core_ok psl c'"
  using assms by (auto simp: core_eq core_defs split: option.splits)

lemma core_resync: "core_ok psl c \<Longrightarrow> core_ok psl (requestResyncLocked now c)"
  by (auto simp: core_defs requestResyncLocked_def client_simps split: option.splits)

lemma core_check: "core_ok psl c \<Longrightarrow> core_ok psl (fst (checkUnaryRevision now c revision expected))"
  using core_resync [of psl c now]
  by (auto simp: checkUnaryRevision_def Let_def core_defs client_simps max_word_less max_def split: option.splits)

lemma core_create: "core_ok psl c \<Longrightarrow> core_ok psl (fst (createCommitted now c resp revision))"
  using core_resync [of psl c now]
  by (auto simp: createCommitted_def Let_def core_defs client_simps max_word_less max_def split: option.splits)

lemma snapshot_resync [simp]: "c_snapshot (requestResyncLocked now c) = c_snapshot c"
  by (simp add: requestResyncLocked_def)

lemma snapshot_check [simp]: "c_snapshot (fst (checkUnaryRevision now c r x)) = c_snapshot c"
  by (simp add: checkUnaryRevision_def Let_def)

lemma core_background:
  assumes "background c c'" "core_ok psl c"
    and "c_snapshot c \<noteq> None \<Longrightarrow> lc_entries (c_credentials c') = [] \<and> lc_entries (c_vbuckets c') = []"
  shows "core_ok psl c'"
  using assms unfolding background_def
  by (elim disjE exE) (auto intro: core_ok_cong core_ok_cong [OF _ core_resync] core_ok_cong [OF _ core_check])

lemma run_ok_cong: "core c' = core c \<Longrightarrow> run_ok c' r = run_ok c r"
  by (cases r) (auto simp: core_eq idle_def)

lemma run_ok_resync: "run_ok c r \<Longrightarrow> run_ok (requestResyncLocked now c) r"
  by (cases r) (auto simp: requestResyncLocked_def idle_def client_simps)

lemma run_ok_check: "run_ok c r \<Longrightarrow> run_ok (fst (checkUnaryRevision now c revision expected)) r"
  using run_ok_resync [of c r now]
  by (cases r) (auto simp: checkUnaryRevision_def Let_def idle_def client_simps)

lemma run_ok_create: "run_ok c r \<Longrightarrow> run_ok (fst (createCommitted now c resp revision)) r"
  using run_ok_resync [of c r now]
  by (cases r) (auto simp: createCommitted_def Let_def idle_def client_simps split: option.splits)

lemma run_ok_background: "background c c' \<Longrightarrow> run_ok c r \<Longrightarrow> run_ok c' r"
  unfolding background_def
  by (elim disjE exE) (auto intro: run_ok_cong [THEN iffD2] run_ok_resync run_ok_check)

lemma snapshot_not_ready: "core_ok psl c \<Longrightarrow> c_snapshot c \<noteq> None \<Longrightarrow> c_state c \<noteq> StateReady"
  by (auto simp: core_ok_def state_ok_def)

lemma snapshot_empty:
  "core_ok psl c \<Longrightarrow> c_snapshot c \<noteq> None \<Longrightarrow> lc_entries (c_credentials c) = [] \<and> lc_entries (c_vbuckets c) = []"
  by (auto simp: core_ok_def snapshot_ok_def)

lemma run_step_coherent:
  assumes "run_step psl opts (c, r) l (c', r')" "coherent_caches P Q c" "snapshot_ok psl c"
    and "\<And>delta event. l = Some delta \<Longrightarrow> next_event c delta = Some event \<Longrightarrow>
      carried P (c_revision c) (c_revision c + 1) (touched_credential event)
      \<and> carried Q (c_revision c) (c_revision c + 1) (touched_vbucket event)"
  shows "coherent_caches P Q c'"
  using assms(1)
proof (cases rule: run_step.cases)
  case (run_event now delta b synced)
  from assms(4) [OF run_event(2)] show ?thesis
    by (rule processWatch_coherent [OF assms(2,3) run_event(4)])
next
  case (run_event_fails now delta err b synced)
  from assms(4) [OF run_event_fails(2)] show ?thesis
    by (rule processWatch_coherent [OF assms(2,3) run_event_fails(4)])
qed (use assms(2) in \<open>simp_all add: coherent_caches_def markUnsynchronized_def markDisconnected_def
    connect_begin_def connect_dialed_def connect_open_def connect_closed_def bump_def Let_def\<close>)

lemma entity_inv_caches:
  assumes "sys_ok psl P Q (credentials_entity crev cparse) (vbuckets_entity brev bparse) s"
  shows "coherent_caches P Q (s_client s)"
  using assms
  by (simp add: sys_ok_def credentials_lookup.entity_inv_def vbuckets_lookup.entity_inv_def coherent_caches_def)

lemma sys_ok_wf:
  assumes "sys_ok psl P Q (credentials_entity crev cparse) (vbuckets_entity brev bparse) s"
    and "\<And>r k e. P r k e \<Longrightarrow> ce_Revision e \<le> r" "\<And>r k e. Q r k e \<Longrightarrow> ce_Revision e \<le> r"
  shows "wf_client psl (s_client s)"
proof -
  have "coherent_caches not_newer not_newer (s_client s)"
    using entity_inv_caches [OF assms(1)] assms(2,3)
    by (auto simp: coherent_caches_def not_newer_def intro: coherent_weaken)
  with assms(1) show ?thesis by (simp add: wf_client_iff sys_ok_def)
qed

lemma honest_watch:
  "honest P Q C B s (LabelWatch l) \<Longrightarrow> l = Some delta \<Longrightarrow> next_event (s_client s) delta = Some event \<Longrightarrow>
   carried P (c_revision (s_client s)) (c_revision (s_client s) + 1) (touched_credential event)
   \<and> carried Q (c_revision (s_client s)) (c_revision (s_client s) + 1) (touched_vbucket event)"
  by (simp add: honest_def)

lemma sys_ok_iff:
  "sys_ok psl P Q (credentials_entity crev cparse) (vbuckets_entity brev bparse) s \<longleftrightarrow>
     core_ok psl (s_client s) \<and> run_ok (s_client s) (s_run s)
     \<and> entity_access.entity_inv (credentials_entity crev cparse) P (s_client s) (s_cloads s) (s_clookups s)
     \<and> entity_access.entity_inv (vbuckets_entity brev bparse) Q (s_client s) (s_bloads s) (s_blookups s)"
  by (simp add: sys_ok_def)

lemma sys_ok_run:
  assumes ok: "sys_ok psl P Q (credentials_entity crev cparse) (vbuckets_entity brev bparse) s"
    and newer: "\<And>r k e. P r k e \<Longrightarrow> ce_Revision e \<le> r" "\<And>r k e. Q r k e \<Longrightarrow> ce_Revision e \<le> r"
    and step: "run_step psl opts (s_client s, s_run s) l (c', r')"
    and hon: "honest P Q C B s (LabelWatch l)"
  shows "sys_ok psl P Q (credentials_entity crev cparse) (vbuckets_entity brev bparse) (s\<lparr>s_client := c', s_run := r'\<rparr>)"
proof -
  have core: "snapshot_ok psl (s_client s)" and run: "run_ok (s_client s) (s_run s)"
    using ok by (simp_all add: sys_ok_iff core_ok_def)
  have "wf_client psl c' \<and> run_ok c' r'"
    using step sys_ok_wf [OF ok newer] run by (rule wf_run_step)
  moreover have "coherent_caches P Q c'"
    using honest_watch [OF hon] by (rule run_step_coherent [OF step entity_inv_caches [OF ok] core])
  moreover note run_step_revision [OF step core]
  ultimately show ?thesis
    using ok
    by (auto simp: sys_ok_iff wf_client_iff coherent_caches_def
        intro: credentials_lookup.entity_inv_advance vbuckets_lookup.entity_inv_advance)
qed

lemma sys_ok_credentials:
  assumes ok: "sys_ok psl P Q (credentials_entity crev cparse) (vbuckets_entity brev bparse) s"
    and newer: "\<And>r k e. P r k e \<Longrightarrow> ce_Revision e \<le> r"
    and st: "lookup_sys_step (credentials_entity crev cparse) (s_client s, s_cloads s, s_clookups s) l (c', loads', lks')"
    and hon: "honest P Q (credentials_entity crev cparse) B s (LabelCredentials l)"
  shows "sys_ok psl P Q (credentials_entity crev cparse) (vbuckets_entity brev bparse)
    (s\<lparr>s_client := c', s_cloads := loads', s_clookups := lks'\<rparr>)"
proof -
  have core: "core_ok psl (s_client s)" using ok by (simp add: sys_ok_iff)
  note bg = credentials_lookup.lookup_sys_core [OF st]
  have "entity_access.entity_inv (credentials_entity crev cparse) P c' loads' lks'"
    using ok hon unfolding sys_ok_iff
    by (intro credentials_lookup.own_sys_step [OF _ newer st]) (auto simp: honest_def)
  moreover have "core_ok psl c'"
    using bg snapshot_empty [OF core] credentials_lookup.own_empty [OF _ snapshot_not_ready [OF core] st]
    by (intro core_background [OF _ core]) auto
  ultimately show ?thesis
    using ok bg run_ok_background background_revision [of "s_client s" c']
    by (auto simp: sys_ok_iff vbuckets_lookup.entity_inv_def)
qed

lemma sys_ok_vbuckets:
  assumes ok: "sys_ok psl P Q (credentials_entity crev cparse) (vbuckets_entity brev bparse) s"
    and newer: "\<And>r k e. Q r k e \<Longrightarrow> ce_Revision e \<le> r"
    and st: "lookup_sys_step (vbuckets_entity brev bparse) (s_client s, s_bloads s, s_blookups s) l (c', loads', lks')"
    and hon: "honest P Q C (vbuckets_entity brev bparse) s (LabelVBuckets l)"
  shows "sys_ok psl P Q (credentials_entity crev cparse) (vbuckets_entity brev bparse)
    (s\<lparr>s_client := c', s_bloads := loads', s_blookups := lks'\<rparr>)"
proof -
  have core: "core_ok psl (s_client s)" using ok by (simp add: sys_ok_iff)
  note bg = vbuckets_lookup.lookup_sys_core [OF st]
  have "entity_access.entity_inv (vbuckets_entity brev bparse) Q c' loads' lks'"
    using ok hon unfolding sys_ok_iff
    by (intro vbuckets_lookup.own_sys_step [OF _ newer st]) (auto simp: honest_def)
  moreover have "core_ok psl c'"
    using bg snapshot_empty [OF core] vbuckets_lookup.own_empty [OF _ snapshot_not_ready [OF core] st]
    by (intro core_background [OF _ core]) auto
  ultimately show ?thesis
    using ok bg run_ok_background background_revision [of "s_client s" c']
    by (auto simp: sys_ok_iff credentials_lookup.entity_inv_def)
qed

lemma sys_ok_client:
  assumes ok: "sys_ok psl P Q (credentials_entity crev cparse) (vbuckets_entity brev bparse) s"
    and "core_ok psl c'" "run_ok c' (s_run s)" "c_revision c' = c_revision (s_client s)"
    and "c_credentials c' = c_credentials (s_client s)" "c_vbuckets c' = c_vbuckets (s_client s)"
  shows "sys_ok psl P Q (credentials_entity crev cparse) (vbuckets_entity brev bparse) (s\<lparr>s_client := c'\<rparr>)"
  using assms by (simp add: sys_ok_iff credentials_lookup.entity_inv_def vbuckets_lookup.entity_inv_def)

lemma caches_resync [simp]:
  "c_revision (requestResyncLocked now c) = c_revision c"
  "c_credentials (requestResyncLocked now c) = c_credentials c"
  "c_vbuckets (requestResyncLocked now c) = c_vbuckets c"
  by (simp_all add: requestResyncLocked_def)

lemma caches_unary [simp]:
  "c_revision (fst (checkUnaryRevision now c r x)) = c_revision c"
  "c_credentials (fst (checkUnaryRevision now c r x)) = c_credentials c"
  "c_vbuckets (fst (checkUnaryRevision now c r x)) = c_vbuckets c"
  "c_revision (fst (createCommitted now c resp r)) = c_revision c"
  "c_credentials (fst (createCommitted now c resp r)) = c_credentials c"
  "c_vbuckets (fst (createCommitted now c resp r)) = c_vbuckets c"
  by (simp_all add: checkUnaryRevision_def createCommitted_def Let_def split: option.split)

lemma sys_ok_step:
  assumes ok: "sys_ok psl P Q (credentials_entity crev cparse) (vbuckets_entity brev bparse) s"
    and newer: "\<And>r k e. P r k e \<Longrightarrow> ce_Revision e \<le> r" "\<And>r k e. Q r k e \<Longrightarrow> ce_Revision e \<le> r"
    and step: "sys_step psl opts (credentials_entity crev cparse) (vbuckets_entity brev bparse) s l s'"
    and hon: "honest P Q (credentials_entity crev cparse) (vbuckets_entity brev bparse) s l"
  shows "sys_ok psl P Q (credentials_entity crev cparse) (vbuckets_entity brev bparse) s'"
proof -
  have core: "core_ok psl (s_client s)" and run: "run_ok (s_client s) (s_run s)"
    using ok by (simp_all add: sys_ok_iff)
  from step hon show ?thesis
  proof (induction rule: sys_step.cases)
    case (sys_run s1 l1 c' r')
    then show ?case using sys_ok_run [OF ok newer] by simp
  next
    case (sys_credentials s1 l1 c' loads' lks')
    then show ?case using sys_ok_credentials [OF ok newer(1)] by simp
  next
    case (sys_vbuckets s1 l1 c' loads' lks')
    then show ?case using sys_ok_vbuckets [OF ok newer(2)] by simp
  next
    case (sys_create now s1 resp revision c' e)
    then show ?case
      using sys_ok_client [OF ok core_create [OF core] run_ok_create [OF run]] by (metis fst_conv caches_unary)
  next
    case (sys_list now s1 revision expected c' e)
    then show ?case
      using sys_ok_client [OF ok core_check [OF core] run_ok_check [OF run]] by (metis fst_conv caches_unary)
  next
    case (sys_list_empty s1 now)
    then show ?case using sys_ok_client [OF ok core_resync [OF core] run_ok_resync [OF run]] by simp
  next
    case (sys_metrics s1 f)
    have "core_ok psl (bump f (s_client s))"
      using core snapshot_empty [OF core] by (intro core_ok_cong [OF _ core]) (simp_all add: bump_def core_eq)
    moreover have "run_ok (bump f (s_client s)) (s_run s)"
      using run by (rule run_ok_cong [THEN iffD2, rotated]) (simp add: bump_def core_eq)
    ultimately show ?case using sys_metrics sys_ok_client [OF ok, of "bump f (s_client s)"] by (simp add: bump_def)
  qed
qed

section \<open>Runs of the system\<close>

text \<open>A run, with the states it leaves behind, whose labels satisfy a condition.\<close>

inductive sys_path ::
  "(string \<Rightarrow> bool) \<Rightarrow> ClientOptions \<Rightarrow> ('c, 'b, 'c, 'p) entity \<Rightarrow> ('c, 'b, 'b, 'q) entity
     \<Rightarrow> (('c, 'b) sys \<Rightarrow> ('p, 'q) sys_label \<Rightarrow> bool) \<Rightarrow> ('c, 'b) sys \<Rightarrow> ('c, 'b) sys list \<Rightarrow> ('c, 'b) sys \<Rightarrow> bool"
  for psl opts C B ok s where
  path_start: "sys_path psl opts C B ok s [] s"
| path_step: "sys_path psl opts C B ok s path s1 \<Longrightarrow> sys_step psl opts C B s1 l s2 \<Longrightarrow> ok s1 l \<Longrightarrow>
    sys_path psl opts C B ok s (path @ [s1]) s2"

lemma sys_path_ok:
  assumes "sys_path psl opts (credentials_entity crev cparse) (vbuckets_entity brev bparse) cond s path s'"
    and newer: "\<And>r k e. P r k e \<Longrightarrow> ce_Revision e \<le> r" "\<And>r k e. Q r k e \<Longrightarrow> ce_Revision e \<le> r"
    and cond: "\<And>s l. cond s l \<Longrightarrow> honest P Q (credentials_entity crev cparse) (vbuckets_entity brev bparse) s l"
    and "sys_ok psl P Q (credentials_entity crev cparse) (vbuckets_entity brev bparse) s"
  shows "sys_ok psl P Q (credentials_entity crev cparse) (vbuckets_entity brev bparse) s'
    \<and> (\<forall>s1 \<in> set path. sys_ok psl P Q (credentials_entity crev cparse) (vbuckets_entity brev bparse) s1)"
  using assms(1,5)
proof (induction rule: sys_path.induct)
  case (path_step path s1 l s2)
  then show ?case using sys_ok_step [OF _ newer path_step.hyps(2) cond] by auto
qed simp

text \<open>Versions that are not newer than the client are kept by every run.\<close>

lemma honest_not_newer: "honest not_newer not_newer C B s l"
proof -
  have "r \<le> r + 1" if "r < r + 1" for r :: uint64 using that by simp
  then show ?thesis
    by (auto simp: honest_def not_newer_def next_event_def
        intro!: carried_not_newer split: sys_label.splits option.splits sum.splits if_splits)
qed

lemma coherent_entries:
  "cache_coherent P cache \<longleftrightarrow> wf_cache cache \<and> (\<forall>k e. map_of (lc_entries cache) k = Some e \<longrightarrow> P k (te_value e))"
proof
  assume c: "cache_coherent P cache"
  have "P k (te_value e)" if "map_of (lc_entries cache) k = Some e" for k e
    using c that local_cache.coherentD [OF c, of "te_expiresAt e - 1" k "te_value e"] by (simp add: entry_live_def)
  with c show "wf_cache cache \<and> (\<forall>k e. map_of (lc_entries cache) k = Some e \<longrightarrow> P k (te_value e))"
    by (simp add: local_cache.coherent_def)
next
  assume "wf_cache cache \<and> (\<forall>k e. map_of (lc_entries cache) k = Some e \<longrightarrow> P k (te_value e))"
  then show "cache_coherent P cache"
    by (auto simp: local_cache.coherent_def entry_live_def split: option.splits if_splits)
qed

lemma coherent_new: "cache_coherent P (newLocalCache mx)"
  by (simp add: coherent_entries wf_new) (simp add: newLocalCache_def)

lemma sys_init_ok:
  "sys_ok psl P Q (credentials_entity crev cparse) (vbuckets_entity brev bparse)
     (sys_init (NewClientWithOptions cfg now opts) backoff)"
  by (simp add: sys_ok_iff sys_init_def NewClientWithOptions_def Let_def core_defs hosts_ok_def idle_def
      credentials_lookup.entity_inv_def vbuckets_lookup.entity_inv_def coherent_new)

text \<open>What the invariant of the client says, in the terms of its users.\<close>

definition client_guarantee :: "(string \<Rightarrow> bool) \<Rightarrow> ('c, 'b) client \<Rightarrow> bool" where
  "client_guarantee psl c =
     ((Ready c \<longrightarrow> c_connected c \<and> \<not> c_barrierRequired c \<and> c_snapshot c = None
         \<and> c_requiredRevision c = 0 \<and> c_revision c \<noteq> 0 \<and> c_cursor c \<noteq> [])
      \<and> distinct (keys (c_baseHosts c)) \<and> int (length (c_baseHosts c)) \<le> max 0 (c_baseHostMax c)
      \<and> list_all (\<lambda>(d, r). r \<le> c_revision c) (c_baseHosts c)
      \<and> list_all (\<lambda>(k, e). ce_Revision (te_value e) \<le> c_revision c) (lc_entries (c_credentials c))
      \<and> list_all (\<lambda>(k, e). ce_Revision (te_value e) \<le> c_revision c) (lc_entries (c_vbuckets c)))"

lemma coherent_all:
  assumes "cache_coherent (not_newer r) cache"
  shows "list_all (\<lambda>(k, e). ce_Revision (te_value e) \<le> r) (lc_entries cache)"
proof -
  have "distinct (keys (lc_entries cache))" using assms by (simp add: coherent_entries wf_cache_def)
  then have "map_of (lc_entries cache) k = Some e" if "(k, e) \<in> set (lc_entries cache)" for k e
    using that by (simp add: keys_def)
  with assms show ?thesis by (auto simp: coherent_entries not_newer_def list_all_iff)
qed

lemma hosts_not_newer: "hosts_ok psl mx r hs \<Longrightarrow> list_all (\<lambda>(d, x). x \<le> r) hs"
  by (auto simp: hosts_ok_def list_all_iff)

lemma wf_guarantee:
  assumes "wf_client psl c"
  shows "client_guarantee psl c"
proof -
  have h: "hosts_ok psl (c_baseHostMax c) (c_revision c) (c_baseHosts c)" and st: "state_ok c"
    and co: "coherent_caches not_newer not_newer c"
    using assms by (simp_all add: wf_client_def)
  from st show ?thesis
    unfolding client_guarantee_def state_ok_def Ready_def
    using hosts_not_newer [OF h] co by (simp add: coherent_all coherent_caches_def h [unfolded hosts_ok_def])
qed

section \<open>Epochs\<close>

text \<open>A step keeps the epoch, and then a client that was ready is ready, or it counts the epoch up and is not ready.\<close>

definition epoch_step :: "('c, 'b) client \<Rightarrow> ('c, 'b) client \<Rightarrow> bool" where
  "epoch_step c c' =
     (c_epoch c' = c_epoch c \<and> (Ready c \<longrightarrow> Ready c') \<or> c_epoch c' = c_epoch c + 1 \<and> \<not> Ready c')"

lemma epoch_transition: "epoch_step c (transitionLocked now c st)"
  by (auto simp: epoch_step_def transitionLocked_def Ready_def Let_def)

lemma epoch_core:
  assumes "core c1 = core c" "core c1' = core c'"
  shows "epoch_step c c' = epoch_step c1 c1'"
  using assms by (simp add: core_eq epoch_step_def Ready_def)

lemma epoch_same: "core c' = core c \<Longrightarrow> epoch_step c c'"
  by (simp add: core_eq epoch_step_def Ready_def)

lemmas epoch_defs = epoch_step_def Ready_def client_simps

lemma epoch_resync: "epoch_step c (requestResyncLocked now c)"
  by (simp add: requestResyncLocked_def epoch_defs)

lemma epoch_check: "epoch_step c (fst (checkUnaryRevision now c r x))"
  using epoch_resync [of c now] by (auto simp: checkUnaryRevision_def Let_def epoch_defs)

lemma epoch_create: "epoch_step c (fst (createCommitted now c resp r))"
  using epoch_resync [of c now] by (auto simp: createCommitted_def Let_def epoch_defs split: option.splits)

lemma epoch_background: "background c c' \<Longrightarrow> epoch_step c c'"
  unfolding background_def
  using epoch_same epoch_core [OF refl, of c'] epoch_resync epoch_check by metis

lemma epoch_begin: "beginSnapshot now c r cursor = (c', e) \<Longrightarrow> epoch_step c c'"
  by (auto simp: beginSnapshot_def Let_def epoch_defs split: if_splits)

lemma epoch_barrier: "synchronizationBarrier now c r cursor = (c', e) \<Longrightarrow> epoch_step c c'"
  by (auto simp: synchronizationBarrier_def clearRequired_def Let_def epoch_defs split: if_splits option.splits)

lemma epoch_entry: "snapshotEntry psl c snap event r cursor = (c', e) \<Longrightarrow> epoch_step c c'"
  by (auto simp: snapshotEntry_def epoch_defs split: if_splits option.splits watch_payload.splits)

lemma epoch_live:
  assumes "liveMutation psl now c event r cursor = (c', e)"
  shows "epoch_step c c'"
proof (cases "applyEntityLocked psl now c event r")
  case (Pair c1 x)
  with applyEntity_fields [OF Pair] assms show ?thesis
    by (auto simp: liveMutation_def acceptMutation_def Let_def epoch_defs split: if_splits option.splits)
qed

lemma epoch_processWatch:
  assumes "processWatch psl now c delta = (c', e)"
  shows "epoch_step c c'"
proof -
  have locked: "epoch_step c c1" if "processLocked psl now c event r cursor = (c1, x)" for event r cursor c1 x
    using that epoch_same [of c c]
    by (auto simp: processLocked_def epoch_begin epoch_barrier epoch_entry epoch_live
        split: if_splits watch_payload.splits option.splits)
  have failed: "epoch_step c (transitionLocked now (c1\<lparr>c_barrierRequired := True\<rparr>) StateDisconnected)"
    if "epoch_step c c1" for c1
    using that by (auto simp: epoch_defs)
  from assms epoch_same [of c c] locked failed show ?thesis
    by (auto simp: processWatch_def split: option.splits prod.splits)
qed

lemma epoch_run:
  assumes "run_step psl opts (c, r) l (c', r')"
  shows "epoch_step c c'"
  using assms
proof (cases rule: run_step.cases)
  case (run_event now delta b synced)
  then show ?thesis by (simp add: epoch_processWatch)
next
  case (run_event_fails now delta err b synced)
  then show ?thesis by (simp add: epoch_processWatch)
qed (simp_all add: epoch_defs markUnsynchronized_def markDisconnected_def connect_begin_def connect_dialed_def
    connect_open_def connect_closed_def bump_def Let_def)

lemma epoch_sys:
  assumes "sys_step psl opts (credentials_entity crev cparse) (vbuckets_entity brev bparse) s l s'"
  shows "epoch_step (s_client s) (s_client s')"
  using assms
proof (cases rule: sys_step.cases)
  case (sys_run l c' r')
  then show ?thesis by (simp add: epoch_run)
next
  case (sys_credentials l c' loads' lks')
  with credentials_lookup.lookup_sys_core [OF sys_credentials(3)] show ?thesis by (simp add: epoch_background)
next
  case (sys_vbuckets l c' loads' lks')
  with vbuckets_lookup.lookup_sys_core [OF sys_vbuckets(3)] show ?thesis by (simp add: epoch_background)
next
  case (sys_create now resp revision c' e)
  with epoch_create [of "s_client s" now resp revision] show ?thesis by simp
next
  case (sys_list now revision expected c' e)
  with epoch_check [of "s_client s" now revision expected] show ?thesis by simp
next
  case (sys_list_empty now)
  then show ?thesis by (simp add: epoch_resync)
next
  case (sys_metrics f)
  then show ?thesis by (simp add: epoch_same)
qed

lemma revision_sys:
  assumes "sys_step psl opts (credentials_entity crev cparse) (vbuckets_entity brev bparse) s l s'"
    and "snapshot_ok psl (s_client s)"
  shows "c_revision (s_client s) \<le> c_revision (s_client s')"
  using assms(1)
proof (cases rule: sys_step.cases)
  case (sys_run l c' r')
  with assms(2) show ?thesis by (simp add: run_step_revision)
next
  case (sys_credentials l c' loads' lks')
  with credentials_lookup.lookup_sys_core [OF sys_credentials(3)] show ?thesis
    using background_revision [of "s_client s" c'] by simp
next
  case (sys_vbuckets l c' loads' lks')
  with vbuckets_lookup.lookup_sys_core [OF sys_vbuckets(3)] show ?thesis
    using background_revision [of "s_client s" c'] by simp
next
  case (sys_create now resp revision c' e)
  with caches_unary(4) [of now "s_client s" resp revision] show ?thesis by simp
next
  case (sys_list now revision expected c' e)
  with caches_unary(1) [of now "s_client s" revision expected] show ?thesis by simp
next
  case (sys_metrics f)
  then show ?thesis by (simp add: bump_def)
qed simp

text \<open>
  Along a run from a ready state: the epoch has been counted up at most once per step, and as
  long as it has not been, the client has been ready throughout.
\<close>

lemma epoch_path:
  assumes "sys_path psl opts (credentials_entity crev cparse) (vbuckets_entity brev bparse) cond s path s'"
    and "Ready (s_client s)"
  shows "\<exists>n \<le> length path. c_epoch (s_client s') = c_epoch (s_client s) + of_nat n
    \<and> (n = 0 \<longrightarrow> Ready (s_client s') \<and> (\<forall>s1 \<in> set path. Ready (s_client s1) \<and> c_epoch (s_client s1) = c_epoch (s_client s)))"
  using assms(1)
proof (induction rule: sys_path.induct)
  case path_start
  then show ?case using assms(2) by simp
next
  case (path_step path s1 l s2)
  then obtain n where n: "n \<le> length path" "c_epoch (s_client s1) = c_epoch (s_client s) + of_nat n"
    "n = 0 \<longrightarrow> Ready (s_client s1) \<and> (\<forall>s1 \<in> set path. Ready (s_client s1) \<and> c_epoch (s_client s1) = c_epoch (s_client s))"
    by blast
  from epoch_sys [OF path_step.hyps(2)] consider
    (same) "c_epoch (s_client s2) = c_epoch (s_client s1)" "Ready (s_client s1) \<longrightarrow> Ready (s_client s2)"
    | (up) "c_epoch (s_client s2) = c_epoch (s_client s1) + 1"
    by (auto simp: epoch_step_def)
  then show ?case
  proof cases
    case same
    with n show ?thesis by (intro exI [of _ n]) auto
  next
    case up
    with n show ?thesis by (intro exI [of _ "Suc n"]) (auto simp: algebra_simps)
  qed
qed

lemma revision_path:
  assumes "sys_path psl opts (credentials_entity crev cparse) (vbuckets_entity brev bparse) cond s path s'"
    and "sys_ok psl not_newer not_newer (credentials_entity crev cparse) (vbuckets_entity brev bparse) s"
  shows "c_revision (s_client s) \<le> c_revision (s_client s')
    \<and> (\<forall>s1 \<in> set path. c_revision (s_client s) \<le> c_revision (s_client s1) \<and> c_revision (s_client s1) \<le> c_revision (s_client s'))"
  using assms
proof (induction rule: sys_path.induct)
  case (path_step path s1 l s2)
  have "sys_ok psl not_newer not_newer (credentials_entity crev cparse) (vbuckets_entity brev bparse) s1"
    using sys_path_ok [OF path_step.hyps(1), of not_newer not_newer] path_step.prems
    by (simp add: not_newer_def honest_not_newer)
  then have "c_revision (s_client s1) \<le> c_revision (s_client s2)"
    using path_step.hyps(2) by (intro revision_sys) (auto simp: sys_ok_iff core_ok_def)
  with path_step.IH [OF path_step.prems] show ?case by (auto intro: order_trans)
qed simp

end
