(* ===== verification/Sync_Guarantees.thy ===== *)
theory Sync_Guarantees
  imports Sync_Invariant
begin

text \<open>
  What the client guarantees to its callers, whatever the interleaving of its goroutines: the
  invariant of the state, the meaning of a resolution stamp, that an answer of a lookup is
  what the control plane holds at the revision at which the lookup returns, and that a complete
  snapshot makes the client ready.
\<close>

section \<open>A control plane that tells the truth\<close>

text \<open>
  The control plane holds a value or none under each key at each revision. A cached value agrees
  with it at a revision; an event announces every key whose value changes with it.
\<close>

definition entry_true :: "(uint64 \<Rightarrow> string \<Rightarrow> 'v option) \<Rightarrow> uint64 \<Rightarrow> string \<Rightarrow> 'v cached \<Rightarrow> bool" where
  "entry_true T r k e =
     (ce_Revision e \<le> r \<and> (if ce_Found e then ce_value e \<noteq> None \<and> T r k = ce_value e else T r k = None))"

definition announces :: "(uint64 \<Rightarrow> string \<Rightarrow> 'v option) \<Rightarrow> uint64 \<Rightarrow> (string \<times> bool) option \<Rightarrow> bool" where
  "announces T r touched =
     ((\<forall>k. T (r + 1) k \<noteq> T r k \<longrightarrow> map_option fst touched = Some k)
      \<and> (\<forall>k. touched = Some (k, True) \<longrightarrow> T (r + 1) k = None))"

definition faithful ::
  "(uint64 \<Rightarrow> string \<Rightarrow> 'c option) \<Rightarrow> (uint64 \<Rightarrow> string \<Rightarrow> 'b option)
     \<Rightarrow> ('p \<Rightarrow> 'c cached option) \<Rightarrow> ('q \<Rightarrow> 'b cached option) \<Rightarrow> ('c, 'b) sys \<Rightarrow> ('p, 'q) sys_label \<Rightarrow> bool" where
  "faithful TC TB cparse bparse s l =
     (case l of
        LabelWatch (Some delta) \<Rightarrow>
          (\<forall>event. next_event (s_client s) delta = Some event \<longrightarrow>
             announces TC (c_revision (s_client s)) (touched_credential event)
             \<and> announces TB (c_revision (s_client s)) (touched_vbucket event))
      | LabelCredentials (Some (key, Inr (Some resp))) \<Rightarrow>
          (\<forall>e. cparse resp = Some e \<longrightarrow> entry_true TC (ce_Revision e) key e)
      | LabelVBuckets (Some (key, Inr (Some resp))) \<Rightarrow>
          (\<forall>e. bparse resp = Some e \<longrightarrow> entry_true TB (ce_Revision e) key e)
      | _ \<Rightarrow> True)"

lemma announces_carried:
  assumes "announces T r touched" "r < r + 1"
  shows "carried (entry_true T) r (r + 1) touched"
proof -
  have "T (r + 1) k = T r k" if "map_option fst touched \<noteq> Some k" for k
    using assms(1) that unfolding announces_def by blast
  moreover have "x \<le> r + 1" if "x \<le> r" for x using that assms(2) by simp
  ultimately have "entry_true T (r + 1) k e" if "map_option fst touched \<noteq> Some k" "entry_true T r k e" for k e
    using that by (simp add: entry_true_def)
  moreover have "T (r + 1) k = None" if "touched = Some (k, True)" for k
    using assms(1) that unfolding announces_def by blast
  ultimately show ?thesis by (simp add: carried_def entry_true_def [of _ _ _ "\<lparr>ce_value = _, ce_Found = _, ce_Revision = _, ce_TTL = _\<rparr>"])
qed

lemma faithful_honest:
  assumes "faithful TC TB cparse bparse s l"
  shows "honest (entry_true TC) (entry_true TB) (credentials_entity crev cparse) (vbuckets_entity brev bparse) s l"
proof (cases "\<exists>delta. l = LabelWatch (Some delta)")
  case True
  then obtain delta where l: "l = LabelWatch (Some delta)" by blast
  have "c_revision (s_client s) < c_revision (s_client s) + 1" if "next_event (s_client s) delta = Some event" for event
    using that by (auto simp: next_event_def split: option.splits if_splits)
  with assms show ?thesis by (simp add: l faithful_def honest_def announces_carried)
next
  case False
  with assms show ?thesis
    by (simp add: faithful_def honest_def split: sys_label.splits option.splits sum.splits prod.splits)
qed

lemma entry_true_newer: "entry_true T r k e \<Longrightarrow> ce_Revision e \<le> r"
  by (simp add: entry_true_def)

lemma entry_true_answer:
  "entry_true T r k e \<Longrightarrow> answer e = res \<Longrightarrow> (\<forall>v. res = Inr v \<longrightarrow> T r k = Some v) \<and> (res = Inl ErrNotFound \<longrightarrow> T r k = None)"
  by (auto simp: entry_true_def answer_def split: if_splits option.splits)

lemma faithful_path_ok:
  assumes "sys_path psl opts (credentials_entity crev cparse) (vbuckets_entity brev bparse)
    (faithful TC TB cparse bparse) (sys_init (NewClientWithOptions cfg now0 opts0) backoff) path s"
  shows "sys_ok psl (entry_true TC) (entry_true TB) (credentials_entity crev cparse) (vbuckets_entity brev bparse) s"
  using sys_path_ok [OF assms entry_true_newer entry_true_newer faithful_honest sys_init_ok] by simp

section \<open>Runs that are computed\<close>

text \<open>A schedule of a few kinds of steps, and the run that it describes.\<close>

datatype 'r action =
    ActWatch
  | ActEvent WatchEvent
  | ActBegin string
  | ActLookup nat
  | ActResponse 'r
  | ActPublish
  | ActClose

definition watch_action :: "('c, 'b) client \<Rightarrow> run_phase \<Rightarrow> (('c, 'b) client \<times> run_phase) option" where
  "watch_action c r =
     (case r of
        RunLoop b \<Rightarrow> Some (markUnsynchronized 0 c StateConnecting, RunConnecting b)
      | RunConnecting b \<Rightarrow> Some (connect_begin c, RunDial b)
      | RunDial b \<Rightarrow> Some (connect_dialed c, RunDialed b)
      | RunDialed b \<Rightarrow> Some (snd (connect_open 0 c), RunOpened b)
      | RunOpened b \<Rightarrow> Some (c, RunStreaming b False)
      | _ \<Rightarrow> None)"

definition act ::
  "(string \<Rightarrow> bool) \<Rightarrow> ('c, 'b, 'c, 'p) entity \<Rightarrow> 'p action \<Rightarrow> ('c, 'b) sys \<Rightarrow> ('c, 'b) sys option" where
  "act psl C a s =
     (case a of
        ActWatch \<Rightarrow>
          map_option (\<lambda>(c, r). s\<lparr>s_client := c, s_run := r\<rparr>) (watch_action (s_client s) (s_run s))
      | ActEvent w \<Rightarrow>
          (case (s_run s, processWatch psl 0 (s_client s) (Some w)) of
             (RunStreaming b synced, (c, None)) \<Rightarrow>
               Some (s\<lparr>s_client := c, s_run := RunStreaming b (synced \<or> Ready c)\<rparr>)
           | _ \<Rightarrow> None)
      | ActBegin key \<Rightarrow>
          Some (s\<lparr>s_clookups := s_clookups s @ [\<lparr>lk_key = key, lk_pc = LkBegin True\<rparr>]\<rparr>)
      | ActLookup i \<Rightarrow>
          (if i < length (s_clookups s)
           then (case lookup_step C 0 (s_client s) (s_cloads s) (lk_key (s_clookups s ! i)) (lk_pc (s_clookups s ! i)) of
                   (c, loads, pc) \<Rightarrow>
                     Some (s\<lparr>s_client := c, s_cloads := loads, s_clookups := (s_clookups s)[i := (s_clookups s ! i)\<lparr>lk_pc := pc\<rparr>]\<rparr>))
           else None)
      | ActResponse resp \<Rightarrow>
          (case s_cloads s of
             [ld] \<Rightarrow>
               if ld_phase ld = LoadCalling
               then (case load_response C 0 0 ''OK'' (Inr (Some resp)) (s_client s) ld of
                       (c, ld') \<Rightarrow> Some (s\<lparr>s_client := c, s_cloads := [ld']\<rparr>))
               else None
           | _ \<Rightarrow> None)
      | ActPublish \<Rightarrow>
          (case s_cloads s of
             [ld] \<Rightarrow>
               (case ld_phase ld of
                  LoadChecked e \<Rightarrow>
                    (case load_publish C 0 e (s_client s) ld of
                       (c, ld') \<Rightarrow> Some (s\<lparr>s_client := c, s_cloads := [ld']\<rparr>))
                | _ \<Rightarrow> None)
           | _ \<Rightarrow> None)
      | ActClose \<Rightarrow>
          (case s_cloads s of
             [ld] \<Rightarrow>
               (case ld_phase ld of
                  LoadDone r \<Rightarrow> Some (s\<lparr>s_cloads := [load_close ld]\<rparr>)
                | _ \<Rightarrow> None)
           | _ \<Rightarrow> None))"

lemma watch_action_step:
  "watch_action c r = Some (c', r') \<Longrightarrow> run_step psl opts (c, r) None (c', r')"
  by (auto simp: watch_action_def intro: run_step.intros split: run_phase.splits)

definition action_label :: "'p action \<Rightarrow> ('p, 'q) sys_label \<Rightarrow> bool" where
  "action_label a l =
     (case l of
        LabelWatch (Some delta) \<Rightarrow> (case delta of Some w \<Rightarrow> a = ActEvent w | None \<Rightarrow> False)
      | LabelCredentials (Some (key, rpc)) \<Rightarrow> (case rpc of Inr (Some resp) \<Rightarrow> a = ActResponse resp | _ \<Rightarrow> False)
      | LabelVBuckets (Some _) \<Rightarrow> False
      | _ \<Rightarrow> True)"

lemma act_credentials:
  "lookup_sys_step C (s_client s, s_cloads s, s_clookups s) l (c', loads', lks') \<Longrightarrow>
   s' = s\<lparr>s_client := c', s_cloads := loads', s_clookups := lks'\<rparr> \<Longrightarrow>
   sys_step psl opts C B s (LabelCredentials l) s'"
  by (simp add: sys_credentials)

lemma act_sound:
  assumes "act psl C a s = Some s'"
  shows "\<exists>l. sys_step psl opts C B s l s' \<and> action_label a l"
proof (cases a)
  case ActWatch
  with assms obtain c r where "watch_action (s_client s) (s_run s) = Some (c, r)" "s' = s\<lparr>s_client := c, s_run := r\<rparr>"
    by (auto simp: act_def)
  with ActWatch show ?thesis
    by (intro exI [of _ "LabelWatch None"]) (auto simp: action_label_def intro: sys_run watch_action_step)
next
  case (ActEvent w)
  with assms obtain b synced c where "s_run s = RunStreaming b synced" "processWatch psl 0 (s_client s) (Some w) = (c, None)"
    "s' = s\<lparr>s_client := c, s_run := RunStreaming b (synced \<or> Ready c)\<rparr>"
    by (auto simp: act_def split: run_phase.splits prod.splits option.splits)
  note e = this
  have "run_step psl opts (s_client s, s_run s) (Some (Some w)) (c, RunStreaming b (synced \<or> Ready c))"
    using run_event [OF e(2)] e(1) by simp
  from sys_run [OF this] e(3) ActEvent show ?thesis
    by (intro exI [of _ "LabelWatch (Some (Some w))"]) (simp add: action_label_def)
next
  case (ActBegin key)
  with assms show ?thesis
    by (intro exI [of _ "LabelCredentials None"]) (auto simp: act_def action_label_def intro: act_credentials [OF lk_new])
next
  case (ActLookup i)
  with assms show ?thesis
    by (intro exI [of _ "LabelCredentials None"])
      (auto simp: act_def action_label_def intro: act_credentials [OF lk_step] split: if_splits prod.splits)
next
  case (ActResponse resp)
  with assms obtain ld c ld' where l: "s_cloads s = [ld]" "ld_phase ld = LoadCalling"
    "load_response C 0 0 ''OK'' (Inr (Some resp)) (s_client s) ld = (c, ld')" "s' = s\<lparr>s_client := c, s_cloads := [ld']\<rparr>"
    by (auto simp: act_def split: list.splits if_splits prod.splits)
  have "lookup_sys_step C (s_client s, s_cloads s, s_clookups s) (Some (ld_key ld, Inr (Some resp))) (c, [ld'], s_clookups s)"
    using ld_response [of 0 "s_cloads s" C 0 0 "''OK''" "Inr (Some resp)" "s_client s" c ld' "s_clookups s"] l by simp
  from act_credentials [OF this] l(4) ActResponse show ?thesis
    by (intro exI [of _ "LabelCredentials (Some (ld_key ld, Inr (Some resp)))"]) (simp add: action_label_def)
next
  case ActPublish
  with assms obtain ld e c ld' where l: "s_cloads s = [ld]" "ld_phase ld = LoadChecked e"
    "load_publish C 0 e (s_client s) ld = (c, ld')" "s' = s\<lparr>s_client := c, s_cloads := [ld']\<rparr>"
    by (auto simp: act_def split: list.splits load_phase.splits prod.splits)
  have "lookup_sys_step C (s_client s, s_cloads s, s_clookups s) None (c, [ld'], s_clookups s)"
    using ld_publish [of 0 "s_cloads s" e C 0 "s_client s" c ld' "s_clookups s"] l by simp
  from act_credentials [OF this] l(4) show ?thesis
    by (intro exI [of _ "LabelCredentials None"]) (simp add: action_label_def)
next
  case ActClose
  with assms obtain ld r where l: "s_cloads s = [ld]" "ld_phase ld = LoadDone r" "s' = s\<lparr>s_cloads := [load_close ld]\<rparr>"
    by (auto simp: act_def split: list.splits load_phase.splits)
  have "lookup_sys_step C (s_client s, s_cloads s, s_clookups s) None (s_client s, [load_close ld], s_clookups s)"
    using ld_close [of 0 "s_cloads s" r C "s_client s" "s_clookups s"] l by simp
  from act_credentials [OF this] l(3) show ?thesis
    by (intro exI [of _ "LabelCredentials None"]) (simp add: action_label_def)
qed

fun acts :: "(string \<Rightarrow> bool) \<Rightarrow> ('c, 'b, 'c, 'p) entity \<Rightarrow> 'p action list \<Rightarrow> ('c, 'b) sys \<Rightarrow> ('c, 'b) sys option" where
  "acts psl C [] s = Some s"
| "acts psl C (a # as) s = (case act psl C a s of None \<Rightarrow> None | Some s' \<Rightarrow> acts psl C as s')"

lemma acts_path:
  assumes "acts psl C as s = Some s'" "sys_path psl opts C B cond s0 path s"
    and "\<And>a s l. a \<in> set as \<Longrightarrow> action_label a l \<Longrightarrow> cond s l"
  shows "\<exists>path'. sys_path psl opts C B cond s0 path' s' \<and> length path' = length path + length as"
  using assms
proof (induction as arbitrary: s path)
  case (Cons a as)
  then obtain s1 where s1: "act psl C a s = Some s1" "acts psl C as s1 = Some s'" by (auto split: option.splits)
  from act_sound [OF s1(1)] obtain l where "sys_step psl opts C B s l s1" "action_label a l" by blast
  with Cons.prems have "sys_path psl opts C B cond s0 (path @ [s]) s1" by (auto intro: path_step)
  from Cons.IH [OF s1(2) this] Cons.prems(3) show ?case by (metis add_Suc_shift length_Cons length_append_singleton list.set_intros(2))
qed auto

section \<open>The guarantees\<close>

text \<open>
  C3. Whatever the control plane sends and however the goroutines interleave, a client that
  reports ready holds an open stream, is past its barrier with no snapshot in progress and no
  outstanding revision; its base hosts are distinct and within the configured bound, and no base
  host, cached credential or cached bucket carries a revision that the client has not accepted.
\<close>

theorem client_guarantee_reachable:
  assumes "sys_path psl opts (credentials_entity crev cparse) (vbuckets_entity brev bparse) (\<lambda>_ _. True)
    (sys_init (NewClientWithOptions cfg now opts0) backoff) path s"
  shows "client_guarantee psl (s_client s)"
proof -
  have "sys_ok psl not_newer not_newer (credentials_entity crev cparse) (vbuckets_entity brev bparse) s"
    using sys_path_ok [OF assms _ _ honest_not_newer sys_init_ok] by (simp add: not_newer_def)
  then show ?thesis by (rule sys_ok_wf [THEN wf_guarantee]) (simp_all add: not_newer_def)
qed

lemma stamp_uninterrupted:
  assumes "sys_path psl opts (credentials_entity crev cparse) (vbuckets_entity brev bparse) (\<lambda>_ _. True)
      (sys_init (NewClientWithOptions cfg now opts0) backoff) path0 s"
    and "BeginResolution (s_client s) = Inr stamp"
    and "sys_path psl opts (credentials_entity crev cparse) (vbuckets_entity brev bparse) (\<lambda>_ _. True) s path s'"
    and "length path < 2 ^ 64"
    and "ValidateResolution (s_client s') stamp = Inr ()"
  shows "\<forall>s1 \<in> set path. BeginResolution (s_client s1) = Inr stamp"
proof -
  have ok: "sys_ok psl not_newer not_newer (credentials_entity crev cparse) (vbuckets_entity brev bparse) s"
    using sys_path_ok [OF assms(1) _ _ honest_not_newer sys_init_ok] by (simp add: not_newer_def)
  have ok1: "sys_ok psl not_newer not_newer (credentials_entity crev cparse) (vbuckets_entity brev bparse) s1"
    if "s1 \<in> set path" for s1
    using that sys_path_ok [OF assms(3) _ _ honest_not_newer ok] by (simp add: not_newer_def)
  from assms(2) have ready: "Ready (s_client s)" and
    st: "rs_Revision stamp = c_revision (s_client s)" "rs_Epoch stamp = c_epoch (s_client s)"
    by (auto simp: BeginResolution_def lookupSnapshot_def Ready_def split: if_splits)
  obtain n where n: "n \<le> length path" "c_epoch (s_client s') = c_epoch (s_client s) + of_nat n"
    "n = 0 \<longrightarrow> Ready (s_client s') \<and> (\<forall>s1 \<in> set path. Ready (s_client s1) \<and> c_epoch (s_client s1) = c_epoch (s_client s))"
    using epoch_path [OF assms(3) ready] by blast
  from assms(5) have end_state: "c_epoch (s_client s') = c_epoch (s_client s)" "c_revision (s_client s') = c_revision (s_client s)"
    by (auto simp: ValidateResolution_def stillCurrent_def st split: if_splits)
  have "of_nat n = (0 :: uint64)" using n(2) end_state(1) by simp
  then have "2 ^ 64 dvd n" by (simp add: word_of_nat_eq_0_iff)
  then have "n = 0" using n(1) assms(4) by (auto dest!: dvd_imp_le)
  have "BeginResolution (s_client s1) = Inr stamp" if s1: "s1 \<in> set path" for s1
  proof -
    have "c_revision (s_client s1) = c_revision (s_client s)"
      using revision_path [OF assms(3) ok] s1 end_state(2) by (auto intro: antisym)
    moreover have "Ready (s_client s1)" "c_epoch (s_client s1) = c_epoch (s_client s)"
      using n(3) \<open>n = 0\<close> s1 by simp_all
    moreover have "state_ok (s_client s1)" using ok1 [OF s1] by (simp add: sys_ok_iff core_ok_def)
    ultimately show ?thesis
      by (cases stamp) (use st in \<open>simp add: BeginResolution_def lookupSnapshot_def Ready_def state_ok_def\<close>)
  qed
  then show ?thesis by blast
qed

text \<open>
  C2. A resolution stamp that is still valid at the end of fewer than \<open>2 ^ 64\<close> steps: at every
  moment between the two calls the client was ready, at the revision and in the epoch of the stamp.
\<close>

theorem resolution_stamp_uninterrupted:
  assumes "sys_path psl opts (credentials_entity crev cparse) (vbuckets_entity brev bparse) (\<lambda>_ _. True)
      (sys_init (NewClientWithOptions cfg now opts0) backoff) path0 s"
    and "BeginResolution (s_client s) = Inr stamp"
    and "sys_path psl opts (credentials_entity crev cparse) (vbuckets_entity brev bparse) (\<lambda>_ _. True) s path s'"
    and "length path < 2 ^ 64"
    and "ValidateResolution (s_client s') stamp = Inr ()"
  shows "\<forall>s1 \<in> set path. BeginResolution (s_client s1) = Inr stamp"
  using assms by (rule stamp_uninterrupted)

definition definite :: "client_error + 'v \<Rightarrow> bool" where
  "definite res = ((\<exists>v. res = Inr v) \<or> res = Inl ErrNotFound)"

definition answer_current :: "(uint64 \<Rightarrow> string \<Rightarrow> 'v option) \<Rightarrow> ('c, 'b) client \<Rightarrow> string \<Rightarrow> client_error + 'v \<Rightarrow> bool" where
  "answer_current T c key res =
     (Ready c \<and> (\<forall>v. res = Inr v \<longrightarrow> T (c_revision c) key = Some v)
      \<and> (res = Inl ErrNotFound \<longrightarrow> T (c_revision c) key = None))"

lemma credential_answers:
  assumes "sys_path psl opts (credentials_entity crev cparse) (vbuckets_entity brev bparse)
      (faithful TC TB cparse bparse) (sys_init (NewClientWithOptions cfg now0 opts0) backoff) path s"
    and "lk \<in> set (s_clookups s)" "\<forall>x. lk_pc lk \<noteq> LkReturn x"
    and "lookup_step (credentials_entity crev cparse) now (s_client s) (s_cloads s) (lk_key lk) (lk_pc lk) = (c', loads', LkReturn res)"
    and "definite res"
  shows "answer_current TC (s_client s) (lk_key lk) res"
proof -
  have "entity_access.entity_inv (credentials_entity crev cparse) (entry_true TC) (s_client s) (s_cloads s) (s_clookups s)"
    using faithful_path_ok [OF assms(1)] by (simp add: sys_ok_iff)
  then have inv: "\<forall>ld \<in> set (s_cloads s). load_inv (entry_true TC) ld"
    "lookup_inv (entry_true TC) (c_revision (s_client s)) (s_cloads s) (lk_key lk) (lk_pc lk)"
    using assms(2) by (simp_all add: credentials_lookup.entity_inv_def)
  obtain e where "c_state (s_client s) = StateReady" "entry_true TC (c_revision (s_client s)) (lk_key lk) e" "answer e = res"
    using credentials_lookup.own_return [OF inv assms(4)] assms(3,5) unfolding definite_def by blast
  then show ?thesis using entry_true_answer by (simp add: answer_current_def Ready_def) blast
qed

lemma vbucket_answers:
  assumes "sys_path psl opts (credentials_entity crev cparse) (vbuckets_entity brev bparse)
      (faithful TC TB cparse bparse) (sys_init (NewClientWithOptions cfg now0 opts0) backoff) path s"
    and "lk \<in> set (s_blookups s)" "\<forall>x. lk_pc lk \<noteq> LkReturn x"
    and "lookup_step (vbuckets_entity brev bparse) now (s_client s) (s_bloads s) (lk_key lk) (lk_pc lk) = (c', loads', LkReturn res)"
    and "definite res"
  shows "answer_current TB (s_client s) (lk_key lk) res"
proof -
  have "entity_access.entity_inv (vbuckets_entity brev bparse) (entry_true TB) (s_client s) (s_bloads s) (s_blookups s)"
    using faithful_path_ok [OF assms(1)] by (simp add: sys_ok_iff)
  then have inv: "\<forall>ld \<in> set (s_bloads s). load_inv (entry_true TB) ld"
    "lookup_inv (entry_true TB) (c_revision (s_client s)) (s_bloads s) (lk_key lk) (lk_pc lk)"
    using assms(2) by (simp_all add: vbuckets_lookup.entity_inv_def)
  obtain e where "c_state (s_client s) = StateReady" "entry_true TB (c_revision (s_client s)) (lk_key lk) e" "answer e = res"
    using vbuckets_lookup.own_return [OF inv assms(4)] assms(3,5) unfolding definite_def by blast
  then show ?thesis using entry_true_answer by (simp add: answer_current_def Ready_def) blast
qed

text \<open>
  C1. If the control plane announces every change in the event of its revision and its responses
  are true at their revision, then a lookup of a credential or of a bucket that returns a value, or
  that there is none, returns what the control plane holds at the revision that the client has at
  that moment, and the client is ready.
\<close>

theorem lookup_answers_are_current:
  assumes "sys_path psl opts (credentials_entity crev cparse) (vbuckets_entity brev bparse)
      (faithful TC TB cparse bparse) (sys_init (NewClientWithOptions cfg now0 opts0) backoff) path s"
  shows "(\<forall>lk \<in> set (s_clookups s). \<forall>now c' loads' res. (\<forall>x. lk_pc lk \<noteq> LkReturn x) \<longrightarrow> definite res \<longrightarrow>
      lookup_step (credentials_entity crev cparse) now (s_client s) (s_cloads s) (lk_key lk) (lk_pc lk) = (c', loads', LkReturn res)
      \<longrightarrow> answer_current TC (s_client s) (lk_key lk) res)
    \<and> (\<forall>lk \<in> set (s_blookups s). \<forall>now c' loads' res. (\<forall>x. lk_pc lk \<noteq> LkReturn x) \<longrightarrow> definite res \<longrightarrow>
      lookup_step (vbuckets_entity brev bparse) now (s_client s) (s_bloads s) (lk_key lk) (lk_pc lk) = (c', loads', LkReturn res)
      \<longrightarrow> answer_current TB (s_client s) (lk_key lk) res)"
  using credential_answers [OF assms] vbucket_answers [OF assms] by blast

section \<open>A snapshot makes the client ready\<close>

text \<open>The events of a stream in turn, up to the first that is an error.\<close>

fun processAll :: "(string \<Rightarrow> bool) \<Rightarrow> time \<Rightarrow> ('c, 'b) client \<Rightarrow> WatchEvent list \<Rightarrow> ('c, 'b) client \<times> watch_error option" where
  "processAll psl now c [] = (c, None)"
| "processAll psl now c (w # ws) =
     (case processWatch psl now c (Some w) of (c', None) \<Rightarrow> processAll psl now c' ws | (c', Some err) \<Rightarrow> (c', Some err))"

definition host_event :: "string \<times> uint64 \<Rightarrow> WatchEvent" where
  "host_event h =
     \<lparr>we_Event = Some (WatchEvent_BaseHost (Some \<lparr>bd_Remove = False, bd_BaseHost = fst h\<rparr>)), we_Revision = snd h, we_Cursor = []\<rparr>"

definition snapshot_events :: "uint64 \<Rightarrow> string \<Rightarrow> (string \<times> uint64) list \<Rightarrow> WatchEvent list" where
  "snapshot_events r cursor hosts =
     \<lparr>we_Event = Some WatchEvent_SnapshotBegin, we_Revision = r, we_Cursor = []\<rparr>
     # map host_event hosts
     @ [\<lparr>we_Event = Some WatchEvent_SynchronizationBarrier, we_Revision = r, we_Cursor = cursor\<rparr>]"

definition host_entry :: "(string \<Rightarrow> bool) \<Rightarrow> string \<times> uint64 \<Rightarrow> string \<times> uint64" where
  "host_entry psl h = (the (normalizeBaseDomain psl (fst h)), snd h)"

lemma processAll_append:
  "processAll psl now c (xs @ ys) =
     (case processAll psl now c xs of (c', None) \<Rightarrow> processAll psl now c' ys | (c', Some err) \<Rightarrow> (c', Some err))"
  by (induction xs arbitrary: c) (auto split: prod.splits option.splits)

lemma update_fresh: "k \<notin> set (keys m) \<Longrightarrow> AList.update k v m = m @ [(k, v)]"
  by (induction m) (auto simp: keys_def)

lemma processAll_hosts:
  assumes "c_state c = StateReady \<or> c_state c = StateSynchronizing" "c_snapshot c = Some snap"
    and "\<forall>h \<in> set hosts. normalizeBaseDomain psl (fst h) \<noteq> None \<and> snd h \<noteq> 0 \<and> snd h \<le> ss_revision snap"
    and "distinct (keys (ss_baseHosts snap) @ map (fst \<circ> host_entry psl) hosts)"
    and "int (length (ss_baseHosts snap) + length hosts) \<le> c_baseHostMax c"
  shows "processAll psl now c (map host_event hosts) =
    (c\<lparr>c_snapshot := Some (snap\<lparr>ss_baseHosts := ss_baseHosts snap @ map (host_entry psl) hosts\<rparr>)\<rparr>, None)"
  using assms
proof (induction hosts arbitrary: c snap)
  case (Cons h hosts)
  obtain d where d: "normalizeBaseDomain psl (fst h) = Some d" using Cons.prems(3) by auto
  then have he: "host_entry psl h = (d, snd h)" by (simp add: host_entry_def)
  have fresh: "d \<notin> set (keys (ss_baseHosts snap))" using Cons.prems(4) he by auto
  then have "map_of (ss_baseHosts snap) d = None" by (simp add: keys_def map_of_eq_None_iff)
  then have step: "processWatch psl now c (Some (host_event h)) =
      (c\<lparr>c_snapshot := Some (snap\<lparr>ss_baseHosts := ss_baseHosts snap @ [host_entry psl h]\<rparr>)\<rparr>, None)"
    using Cons.prems d fresh
    by (auto simp: processWatch_def processLocked_def snapshotEntry_def host_event_def baseHostDeltaDomain_def he update_fresh)
  let ?snap = "snap\<lparr>ss_baseHosts := ss_baseHosts snap @ [host_entry psl h]\<rparr>"
  have "processAll psl now (c\<lparr>c_snapshot := Some ?snap\<rparr>) (map host_event hosts) =
      ((c\<lparr>c_snapshot := Some ?snap\<rparr>)\<lparr>c_snapshot := Some (?snap\<lparr>ss_baseHosts := ss_baseHosts ?snap @ map (host_entry psl) hosts\<rparr>)\<rparr>, None)"
    using Cons.prems by (intro Cons.IH) (auto simp: keys_def he)
  with step show ?case by simp
qed simp

text \<open>
  C35. A stream that carries a whole snapshot makes a synchronizing client ready: if the revision
  has reached what the client requires and has not gone back, the cursor fits, and the base domains
  are valid, different and within the bound, then every event is accepted, and the client is ready
  at that revision and cursor with exactly these base hosts and empty caches.
\<close>

theorem snapshot_makes_ready:
  assumes "c_state c = StateSynchronizing" "c_snapshot c = None"
    and "r \<noteq> 0" "c_revision c \<le> r" "c_requiredRevision c \<le> r" "cursor \<noteq> []"
    and "c_cursor c \<noteq> [] \<longrightarrow> (cursor = c_cursor c \<longleftrightarrow> r = c_revision c)"
    and "\<forall>h \<in> set hosts. normalizeBaseDomain psl (fst h) \<noteq> None \<and> snd h \<noteq> 0 \<and> snd h \<le> r"
    and "distinct (map (fst \<circ> host_entry psl) hosts)" "int (length hosts) \<le> c_baseHostMax c"
  shows "\<exists>c'. processAll psl now c (snapshot_events r cursor hosts) = (c', None)
    \<and> Ready c' \<and> c_revision c' = r \<and> c_cursor c' = cursor \<and> c_requiredRevision c' = 0
    \<and> c_baseHosts c' = map (host_entry psl) hosts
    \<and> cache_Len (c_credentials c') = 0 \<and> cache_Len (c_vbuckets c') = 0"
proof -
  obtain c1 where c1: "beginSnapshot now c r [] = (c1, None)" "c_state c1 = StateSynchronizing"
    "c_snapshot c1 = Some \<lparr>ss_revision = r, ss_expectedCursor = (if r = c_revision c then c_cursor c else []),
       ss_previousCursor = c_cursor c, ss_baseHosts = []\<rparr>"
    "c_revision c1 = c_revision c" "c_requiredRevision c1 = c_requiredRevision c" "c_baseHostMax c1 = c_baseHostMax c"
    "lc_entries (c_credentials c1) = []" "lc_entries (c_vbuckets c1) = []"
    using assms(1-4) by (simp add: beginSnapshot_def Let_def client_simps InvalidateAll_def not_less)
  define snap where "snap = the (c_snapshot c1)"
  have "processAll psl now c1 (map host_event hosts) =
      (c1\<lparr>c_snapshot := Some (snap\<lparr>ss_baseHosts := ss_baseHosts snap @ map (host_entry psl) hosts\<rparr>)\<rparr>, None)"
    using c1 assms(8-10) by (intro processAll_hosts) (auto simp: snap_def keys_def)
  moreover have "processWatch psl now c (Some \<lparr>we_Event = Some WatchEvent_SnapshotBegin, we_Revision = r, we_Cursor = []\<rparr>) = (c1, None)"
    using c1(1) assms(1) by (simp add: processWatch_def processLocked_def)
  ultimately show ?thesis
    using assms c1
    by (auto simp: snapshot_events_def processAll_append snap_def processWatch_def processLocked_def
        synchronizationBarrier_def Let_def clearRequired_def client_simps Ready_def cache_Len_def)
qed

section \<open>A run of the client\<close>

text \<open>
  The client connects, takes an empty snapshot at revision 1, and looks up a key, for which the
  control plane answers 7.
\<close>

definition demo_parse :: "nat \<Rightarrow> nat cached option" where
  "demo_parse v = Some \<lparr>ce_value = Some v, ce_Found = True, ce_Revision = 1, ce_TTL = 60\<rparr>"

definition demo_start :: "(nat, nat) sys" where
  "demo_start =
     sys_init (NewClientWithOptions \<lparr>MaxCredentials = 4, MaxBaseHosts = 4, MaxVBuckets = 4\<rparr> 0
       (defaultClientOptions\<lparr>CredentialMissBurst := 1, VBucketMissBurst := 1\<rparr>)) 1"

definition demo_ready :: "nat action list" where
  "demo_ready =
     [ActWatch, ActWatch, ActWatch, ActWatch, ActWatch,
      ActEvent \<lparr>we_Event = Some WatchEvent_SnapshotBegin, we_Revision = 1, we_Cursor = []\<rparr>,
      ActEvent \<lparr>we_Event = Some WatchEvent_SynchronizationBarrier, we_Revision = 1, we_Cursor = ''a''\<rparr>]"

definition demo_lookup :: "nat action list" where
  "demo_lookup =
     [ActBegin ''AK'', ActLookup 0, ActLookup 0, ActLookup 0, ActResponse 7, ActPublish, ActClose, ActLookup 0]"

abbreviation "demo_credentials \<equiv> credentials_entity (\<lambda>_. 1) demo_parse"
abbreviation "demo_vbuckets \<equiv> vbuckets_entity (\<lambda>_. 1) demo_parse"

lemma fl_0: "fl 0 = 0"
  by (simp add: fl_def round_float64_def)

lemma fl_1: "fl 1 = 1"
proof -
  have "round_half_even (2 ^ 52) = 2 ^ 52" by (simp add: round_half_even_def)
  moreover have "floor_log2 1 = 0" by code_simp
  ultimately show ?thesis by (simp add: fl_def round_float64_def pow2_def Let_def)
qed

lemma fl_code [code]:
  "fl q = (if q = 0 then 0 else if q = 1 then 1
     else let r = (case round_float64 \<bar>q\<bar> of None \<Rightarrow> pow2 1024 | Some x \<Rightarrow> x) in if q < 0 then - r else r)"
  by (simp add: fl_0 fl_1) (simp add: fl_def)

lemma demo_run:
  "map_option (\<lambda>s. (Ready (s_client s), c_revision (s_client s), s_clookups s,
      snd (snd (lookup_step demo_credentials 0 (s_client s) (s_cloads s) ''AK'' (LkCheck True 0 (the (demo_parse 7)))))))
    (acts (\<lambda>_. False) demo_credentials (demo_ready @ demo_lookup) demo_start) =
   Some (True, 1, [\<lparr>lk_key = ''AK'', lk_pc = LkCheck True 0 (the (demo_parse 7))\<rparr>], LkReturn (Inr 7))"
  by code_simp

lemma demo_ready_run:
  "map_option (\<lambda>s. BeginResolution (s_client s)) (acts (\<lambda>_. False) demo_credentials demo_ready demo_start) =
   Some (Inr \<lparr>rs_Revision = 1, rs_Epoch = 0\<rparr>)"
  by code_simp

lemma demo_faithful:
  assumes "a \<in> set (demo_ready @ demo_lookup)" "action_label a l"
  shows "faithful (\<lambda>_ _. Some 7) (\<lambda>_ _. None :: nat option) demo_parse bparse s l"
proof (cases l)
  case (LabelWatch d)
  have "announces (\<lambda>_ _. Some (7 :: nat)) r (touched_credential event)"
    "announces (\<lambda>_ _. None :: nat option) r (touched_vbucket event)"
    if "event \<in> {WatchEvent_SnapshotBegin, WatchEvent_SynchronizationBarrier}" for r event
    using that by (auto simp: announces_def touched_credential_def touched_vbucket_def)
  moreover have "event \<in> {WatchEvent_SnapshotBegin, WatchEvent_SynchronizationBarrier}"
    if "d = Some delta" "next_event c delta = Some event" for delta event and c :: "(nat, nat) client"
    using assms that LabelWatch
    by (auto simp: action_label_def demo_ready_def demo_lookup_def next_event_def split: option.splits if_splits)
  ultimately show ?thesis by (simp add: LabelWatch faithful_def split: option.split)
next
  case (LabelCredentials r)
  have "resp = 7" if "r = Some (key, Inr (Some resp))" for key resp
    using assms that by (auto simp: LabelCredentials action_label_def demo_ready_def demo_lookup_def)
  then show ?thesis
    by (auto simp: LabelCredentials faithful_def demo_parse_def entry_true_def split: option.split sum.split)
next
  case (LabelVBuckets r)
  with assms show ?thesis by (simp add: action_label_def faithful_def split: option.splits)
qed (simp add: faithful_def)

lemma demo_path:
  assumes "acts (\<lambda>_. False) demo_credentials as demo_start = Some s"
    and "set as \<subseteq> set (demo_ready @ demo_lookup)"
  shows "\<exists>path. sys_path (\<lambda>_. False) defaultClientOptions demo_credentials demo_vbuckets
      (faithful (\<lambda>_ _. Some 7) (\<lambda>_ _. None) demo_parse demo_parse) demo_start path s"
  using acts_path [OF assms(1) path_start, of
      "faithful (\<lambda>_ _. Some 7) (\<lambda>_ _. None) demo_parse demo_parse" defaultClientOptions demo_vbuckets]
    demo_faithful assms(2) by blast

lemma demo_start_unfold:
  "demo_start = sys_init (NewClientWithOptions \<lparr>MaxCredentials = 4, MaxBaseHosts = 4, MaxVBuckets = 4\<rparr> 0
     (defaultClientOptions\<lparr>CredentialMissBurst := 1, VBucketMissBurst := 1\<rparr>)) 1"
  by (simp add: demo_start_def)

lemma sys_path_any: "sys_path psl opts C B cond s path s' \<Longrightarrow> sys_path psl opts C B (\<lambda>_ _. True) s path s'"
  by (induction rule: sys_path.induct) (auto intro: sys_path.intros)

lemma sys_path_trans: "sys_path psl opts C B cond s1 path' s2 \<Longrightarrow> sys_path psl opts C B cond s path s1 \<Longrightarrow> \<exists>p. sys_path psl opts C B cond s p s2"
  by (induction rule: sys_path.induct) (auto intro: sys_path.intros)

lemma sys_path_visits: "sys_path psl opts C B cond s path s' \<Longrightarrow> s1 \<in> set path \<Longrightarrow> \<exists>p. sys_path psl opts C B cond s p s1"
  by (induction rule: sys_path.induct) (auto intro: sys_path.intros)

lemma demo_reaches:
  "\<exists>s path. sys_path (\<lambda>_. False) defaultClientOptions demo_credentials demo_vbuckets
      (faithful (\<lambda>_ _. Some 7) (\<lambda>_ _. None) demo_parse demo_parse) demo_start path s
    \<and> s_clookups s = [\<lparr>lk_key = ''AK'', lk_pc = LkCheck True 0 (the (demo_parse 7))\<rparr>]
    \<and> snd (snd (lookup_step demo_credentials 0 (s_client s) (s_cloads s) ''AK'' (LkCheck True 0 (the (demo_parse 7))))) = LkReturn (Inr 7)"
  using demo_run demo_path [of "demo_ready @ demo_lookup"] by (auto simp: map_option_eq_Some)

lemma demo_reaches_ready:
  "\<exists>s path. sys_path (\<lambda>_. False) defaultClientOptions demo_credentials demo_vbuckets (\<lambda>_ _. True) demo_start path s
    \<and> BeginResolution (s_client s) = Inr \<lparr>rs_Revision = 1, rs_Epoch = 0\<rparr>"
proof -
  obtain s where "acts (\<lambda>_. False) demo_credentials demo_ready demo_start = Some s"
    "BeginResolution (s_client s) = Inr \<lparr>rs_Revision = 1, rs_Epoch = 0\<rparr>"
    using demo_ready_run by (auto simp: map_option_eq_Some)
  with demo_path [of demo_ready s] show ?thesis by (auto intro: sys_path_any)
qed

theorem client_guarantee_reachable_witness:
  "\<exists>s path. sys_path (\<lambda>_. False) defaultClientOptions demo_credentials demo_vbuckets (\<lambda>_ _. True) demo_start path s
    \<and> BeginResolution (s_client s) = Inr \<lparr>rs_Revision = 1, rs_Epoch = 0\<rparr> \<and> client_guarantee (\<lambda>_. False) (s_client s)"
  using demo_reaches_ready
    client_guarantee_reachable [of "\<lambda>_. False" defaultClientOptions "\<lambda>_. 1" demo_parse "\<lambda>_. 1" demo_parse
      "\<lparr>MaxCredentials = 4, MaxBaseHosts = 4, MaxVBuckets = 4\<rparr>" 0
      "defaultClientOptions\<lparr>CredentialMissBurst := 1, VBucketMissBurst := 1\<rparr>" 1]
  unfolding demo_start_unfold by blast

theorem resolution_stamp_uninterrupted_witness:
  "\<exists>s s'. BeginResolution (s_client s) = Inr \<lparr>rs_Revision = 1, rs_Epoch = 0\<rparr>
    \<and> sys_path (\<lambda>_. False) defaultClientOptions demo_credentials demo_vbuckets (\<lambda>_ _. True) s [s, s] s'
    \<and> ValidateResolution (s_client s') \<lparr>rs_Revision = 1, rs_Epoch = 0\<rparr> = Inr ()
    \<and> (\<forall>s1 \<in> set [s, s]. BeginResolution (s_client s1) = Inr \<lparr>rs_Revision = 1, rs_Epoch = 0\<rparr>)"
proof -
  obtain s path0 where p: "sys_path (\<lambda>_. False) defaultClientOptions demo_credentials demo_vbuckets (\<lambda>_ _. True) demo_start path0 s"
    and b: "BeginResolution (s_client s) = Inr \<lparr>rs_Revision = 1, rs_Epoch = 0\<rparr>"
    using demo_reaches_ready by blast
  have "s\<lparr>s_client := bump id (s_client s)\<rparr> = s" by (simp add: bump_def)
  then have st: "sys_step (\<lambda>_. False) defaultClientOptions demo_credentials demo_vbuckets s LabelOther s"
    using sys_metrics [of "\<lambda>_. False" defaultClientOptions demo_credentials demo_vbuckets s id] by simp
  have q: "sys_path (\<lambda>_. False) defaultClientOptions demo_credentials demo_vbuckets (\<lambda>_ _. True) s [s, s] s"
    using path_step [OF path_step [OF path_start st] st] by simp
  have v: "ValidateResolution (s_client s) \<lparr>rs_Revision = 1, rs_Epoch = 0\<rparr> = Inr ()"
    using b by (auto simp: BeginResolution_def ValidateResolution_def lookupSnapshot_def stillCurrent_def split: if_splits)
  show ?thesis
    using resolution_stamp_uninterrupted [OF p [unfolded demo_start_unfold] b q _ v] b q v by auto
qed

theorem lookup_answers_are_current_witness:
  "\<exists>s path. sys_path (\<lambda>_. False) defaultClientOptions demo_credentials demo_vbuckets
      (faithful (\<lambda>_ _. Some 7) (\<lambda>_ _. None) demo_parse demo_parse) demo_start path s
    \<and> answer_current (\<lambda>_ _. Some (7 :: nat)) (s_client s) ''AK'' (Inr 7)"
proof -
  obtain s path where p: "sys_path (\<lambda>_. False) defaultClientOptions demo_credentials demo_vbuckets
      (faithful (\<lambda>_ _. Some 7) (\<lambda>_ _. None) demo_parse demo_parse) demo_start path s"
    and lk: "s_clookups s = [\<lparr>lk_key = ''AK'', lk_pc = LkCheck True 0 (the (demo_parse 7))\<rparr>]"
    and r: "snd (snd (lookup_step demo_credentials 0 (s_client s) (s_cloads s) ''AK'' (LkCheck True 0 (the (demo_parse 7))))) = LkReturn (Inr 7)"
    using demo_reaches by blast
  let ?lk = "\<lparr>lk_key = ''AK'', lk_pc = LkCheck True 0 (the (demo_parse 7))\<rparr>"
  have "?lk \<in> set (s_clookups s)" "\<forall>x. lk_pc ?lk \<noteq> LkReturn x" "definite (Inr 7 :: client_error + nat)"
    by (simp_all add: lk definite_def)
  moreover obtain c' loads' where
    "lookup_step demo_credentials 0 (s_client s) (s_cloads s) (lk_key ?lk) (lk_pc ?lk) = (c', loads', LkReturn (Inr 7))"
    using r by (metis lookup.select_convs(1,2) prod.collapse)
  ultimately have "answer_current (\<lambda>_ _. Some (7 :: nat)) (s_client s) (lk_key ?lk) (Inr 7)"
    using lookup_answers_are_current [OF p [unfolded demo_start_unfold]] by blast
  then have "answer_current (\<lambda>_ _. Some (7 :: nat)) (s_client s) ''AK'' (Inr 7)" by simp
  with p show ?thesis by blast
qed

definition demo_synchronizing :: "(nat, nat) client" where
  "demo_synchronizing = snd (connect_open 0 (connect_dialed (s_client demo_start)))"

theorem snapshot_makes_ready_witness:
  "\<exists>c'. processAll (\<lambda>d. d \<noteq> ''com'') 0 demo_synchronizing (snapshot_events 5 ''c1'' [(''S3.Example.com'', 3)]) = (c', None)
    \<and> Ready c' \<and> c_revision c' = 5 \<and> c_cursor c' = ''c1'' \<and> c_requiredRevision c' = 0
    \<and> c_baseHosts c' = map (host_entry (\<lambda>d. d \<noteq> ''com'')) [(''S3.Example.com'', 3)]
    \<and> cache_Len (c_credentials c') = 0 \<and> cache_Len (c_vbuckets c') = 0"
proof (rule snapshot_makes_ready)
  show "\<forall>h \<in> set [(''S3.Example.com'', 3 :: uint64)]. normalizeBaseDomain (\<lambda>d. d \<noteq> ''com'') (fst h) \<noteq> None \<and> snd h \<noteq> 0 \<and> snd h \<le> 5"
    by code_simp
qed (simp_all add: demo_synchronizing_def demo_start_def sys_init_def NewClientWithOptions_def connect_open_def
    connect_dialed_def Let_def client_simps)

end
