(* ===== verification/Control_Plane.thy ===== *)
theory Control_Plane
  imports S3_Server Sync_Guarantees
begin

text \<open>
  The responses of the control plane (\<^verbatim>\<open>controlplane/lookup.go\<close>): what a response must be to enter a cache, the listing of buckets, and
  the client as the resolver of the S3 server. The messages are records with the fields of the protocol; of a time stamp
  the program uses whether it is valid and the time it stands for.
\<close>

section \<open>Messages\<close>

record LookupCredentialsResponse =
  lc_SecretKey :: string
  lc_IamPolicyJson :: string
  lc_Ttl :: "pb_Duration option"
  lc_Found :: bool
  lc_NegativeTtl :: "pb_Duration option"
  lc_Revision :: uint64

record LookupVBucketResponse =
  lv_RealEndpoint :: string
  lv_RealBucket :: string
  lv_RealAccessKey :: string
  lv_RealSecretKey :: string
  lv_RealRegion :: string
  lv_PathPrefix :: string
  lv_RealUsePathStyle :: bool
  lv_Ttl :: "pb_Duration option"
  lv_RoutingTokenKey :: string
  lv_Found :: bool
  lv_NegativeTtl :: "pb_Duration option"
  lv_Revision :: uint64

record pb_Timestamp =
  ts_CheckValid :: bool
  ts_AsTime :: "civil option"

record VBucketSummary =
  vs_BucketName :: string
  vs_CreationDate :: "pb_Timestamp option"

record ListVBucketsResponse =
  ls_Buckets :: "VBucketSummary option list"
  ls_Revision :: uint64

section \<open>Entries of the caches\<close>

definition credentialResponseEntry :: "LookupCredentialsResponse option \<Rightarrow> VirtualCredentials cached option" where
  "credentialResponseEntry response =
     (case response of
        None \<Rightarrow> None
      | Some resp \<Rightarrow>
          if lc_Revision resp = 0 then None
          else if \<not> lc_Found resp then
            (if lc_SecretKey resp \<noteq> [] \<or> lc_IamPolicyJson resp \<noteq> [] \<or> lc_Ttl resp \<noteq> None then None
             else case cacheTTL (lc_NegativeTtl resp) of
               None \<Rightarrow> None
             | Some ttl \<Rightarrow> Some \<lparr>ce_value = None, ce_Found = False, ce_Revision = lc_Revision resp, ce_TTL = ttl\<rparr>)
          else if lc_NegativeTtl resp \<noteq> None then None
          else case cacheTTL (lc_Ttl resp) of
            None \<Rightarrow> None
          | Some ttl \<Rightarrow>
              (case ParseS3IAMPolicyJSON (lc_IamPolicyJson resp) of
                 Inl _ \<Rightarrow> None
               | Inr policy \<Rightarrow>
                   if lc_SecretKey resp = [] then None
                   else Some \<lparr>ce_value = Some \<lparr>SecretKey = lc_SecretKey resp, IAMPolicy = Some policy\<rparr>, ce_Found = True,
                              ce_Revision = lc_Revision resp, ce_TTL = ttl\<rparr>))"

definition responseMapping :: "LookupVBucketResponse \<Rightarrow> VBucketConfig" where
  "responseMapping resp =
     \<lparr>RealEndpoint = lv_RealEndpoint resp, RealBucket = lv_RealBucket resp, RealAccessKey = lv_RealAccessKey resp,
      RealSecretKey = lv_RealSecretKey resp, RealRegion = lv_RealRegion resp, PathPrefix = lv_PathPrefix resp,
      RealUsePathStyle = lv_RealUsePathStyle resp, RoutingTokenKey = lv_RoutingTokenKey resp, routingTokenCodec = None\<rparr>"

definition vbucketResponseEntry :: "LookupVBucketResponse option \<Rightarrow> VBucketConfig cached option" where
  "vbucketResponseEntry response =
     (case response of
        None \<Rightarrow> None
      | Some resp \<Rightarrow>
          if lv_Revision resp = 0 then None
          else if \<not> lv_Found resp then
            (if lv_RealEndpoint resp \<noteq> [] \<or> lv_RealBucket resp \<noteq> [] \<or> lv_RealAccessKey resp \<noteq> [] \<or> lv_RealSecretKey resp \<noteq> []
                \<or> lv_RealRegion resp \<noteq> [] \<or> lv_PathPrefix resp \<noteq> [] \<or> lv_RealUsePathStyle resp
                \<or> length (lv_RoutingTokenKey resp) \<noteq> 0 \<or> lv_Ttl resp \<noteq> None then None
             else case cacheTTL (lv_NegativeTtl resp) of
               None \<Rightarrow> None
             | Some ttl \<Rightarrow> Some \<lparr>ce_value = None, ce_Found = False, ce_Revision = lv_Revision resp, ce_TTL = ttl\<rparr>)
          else if lv_NegativeTtl resp \<noteq> None then None
          else case cacheTTL (lv_Ttl resp) of
            None \<Rightarrow> None
          | Some ttl \<Rightarrow>
              (case NormalizeVBucketConfig (Some (responseMapping resp)) of
                 Inl _ \<Rightarrow> None
               | Inr cfg \<Rightarrow> Some \<lparr>ce_value = Some cfg, ce_Found = True, ce_Revision = lv_Revision resp, ce_TTL = ttl\<rparr>))"

section \<open>Listings\<close>

text \<open>
  \<^verbatim>\<open>ListVBuckets\<close> looks at the client four times: for a snapshot, when the response is there, before the buckets are
  converted, and after. \<open>listResponse\<close> is the second, and its result the client and the revision error if any.
\<close>

fun listSummaries :: "VBucketSummary option list \<Rightarrow> ListedVBucket list option" where
  "listSummaries [] = Some []"
| "listSummaries (summary # rest) =
     (case summary of
        None \<Rightarrow> None
      | Some b \<Rightarrow>
          (case vs_CreationDate b of
             None \<Rightarrow> None
           | Some t \<Rightarrow>
               if \<not> ts_CheckValid t then None
               else map_option (Cons \<lparr>lb_Name = vs_BucketName b, lb_CreationDate = ts_AsTime t\<rparr>) (listSummaries rest)))"

definition listResponse ::
  "time \<Rightarrow> ('c, 'b) client \<Rightarrow> uint64 \<Rightarrow> ListVBucketsResponse option \<Rightarrow> ('c, 'b) client \<times> client_error option" where
  "listResponse now c revision response =
     (case response of
        None \<Rightarrow> (requestResyncLocked now c, Some ErrRevisionRace)
      | Some resp \<Rightarrow> checkUnaryRevision now c (ls_Revision resp) revision)"

definition listResult ::
  "('c, 'b) client \<Rightarrow> ('c, 'b) client \<Rightarrow> uint64 \<Rightarrow> uint64 \<Rightarrow> ListVBucketsResponse \<Rightarrow> client_error + ListedVBucket list" where
  "listResult before after revision epoch resp =
     (if \<not> stillCurrent before revision epoch then Inl ErrRevisionRace
      else bindE (of_option ErrOther (listSummaries (ls_Buckets resp))) (\<lambda>buckets.
        if \<not> stillCurrent after revision epoch then Inl ErrRevisionRace else Inr buckets))"

definition ListVBuckets ::
  "time \<Rightarrow> ('c, 'b) client \<Rightarrow> grpc_code + ListVBucketsResponse option \<Rightarrow> ('c, 'b) client \<Rightarrow> ('c, 'b) client \<Rightarrow> ('c, 'b) client
     \<Rightarrow> resolver_error + ListedVBucket list" where
  "ListVBuckets now c reply atResponse before after =
     of_error mapResolverError
       (bindE (lookupSnapshot c) (\<lambda>(revision, epoch).
          case reply of
            Inl code \<Rightarrow> Inl (mapListVBucketsError code)
          | Inr response \<Rightarrow>
              (case (snd (listResponse now atResponse revision response), response) of
                 (None, Some resp) \<Rightarrow> listResult before after revision epoch resp
               | (Some err, _) \<Rightarrow> Inl err
               | (None, None) \<Rightarrow> Inl ErrRevisionRace)))"

section \<open>What the caches hold\<close>

lemma credentialResponseEntry_Some:
  assumes "credentialResponseEntry response = Some e"
  obtains (negative) resp where "response = Some resp" "ce_Revision e = lc_Revision resp" "lc_Revision resp \<noteq> 0" "0 < ce_TTL e"
      "\<not> lc_Found resp" "\<not> ce_Found e" "ce_value e = None"
  | (positive) resp policy where "response = Some resp" "ce_Revision e = lc_Revision resp" "lc_Revision resp \<noteq> 0" "0 < ce_TTL e"
      "lc_Found resp" "ce_Found e" "ce_value e = Some \<lparr>SecretKey = lc_SecretKey resp, IAMPolicy = Some policy\<rparr>"
      "lc_SecretKey resp \<noteq> []" "ParseS3IAMPolicyJSON (lc_IamPolicyJson resp) = Inr policy"
  using assms
  by (auto simp: credentialResponseEntry_def dest: cacheTTL_positive split: option.splits if_splits sum.splits)

lemma vbucketResponseEntry_Some:
  assumes "vbucketResponseEntry response = Some e"
  obtains (negative) resp where "response = Some resp" "ce_Revision e = lv_Revision resp" "lv_Revision resp \<noteq> 0" "0 < ce_TTL e"
      "\<not> lv_Found resp" "\<not> ce_Found e" "ce_value e = None"
  | (positive) resp cfg where "response = Some resp" "ce_Revision e = lv_Revision resp" "lv_Revision resp \<noteq> 0" "0 < ce_TTL e"
      "lv_Found resp" "ce_Found e" "ce_value e = Some cfg" "NormalizeVBucketConfig (Some (responseMapping resp)) = Inr cfg"
  using assms
  by (auto simp: vbucketResponseEntry_def dest: cacheTTL_positive split: option.splits if_splits sum.splits)

lemma normalized_fields:
  assumes "NormalizeVBucketConfig (Some cfg) = Inr n" "codec_ok cfg"
  shows "wf_mapping n" "routingTokenCodec n = Some (codec_of n)" "RoutingTokenKey n = RoutingTokenKey cfg"
proof -
  obtain endpoint prefix c where p: "normalizePrefix (PathPrefix cfg) = Inr prefix" "length (RoutingTokenKey cfg) = 32"
    and n: "n = cfg\<lparr>RealEndpoint := endpoint, RealBucket := TrimSpace (RealBucket cfg), RealRegion := TrimSpace (RealRegion cfg),
             PathPrefix := prefix, routingTokenCodec := Some c\<rparr>"
    and v: "isValidBucketName (RealBucket n)" "accessKeyIDPattern (RealAccessKey n)" "printableASCII (RealSecretKey n)"
      "backendRegionPattern (RealRegion n)" "codec_matches c n" "codec_ok cfg \<longrightarrow> c = codec_of n"
    using assms(1) by (rule NormalizeVBucketConfig_Inr)
  show "wf_mapping n" using v p by (auto simp: wf_mapping_def normalizePrefix_Inr n)
  have "routingTokenCodec n = Some c" by (simp add: n)
  then show "routingTokenCodec n = Some (codec_of n)" using v(6) assms(2) by simp
  show "RoutingTokenKey n = RoutingTokenKey cfg" by (simp add: n)
qed

text \<open>
  C40. What responses put into the caches. An entry that is made from a response of the control plane has the revision of the
  response, which is not zero, and a positive lifetime. It is positive exactly if the response says that the entity was found. A positive entry for a credential
  has a secret and a policy that was parsed from the response; one for a bucket has a normalized mapping with the codec of its own key, whose
  bucket name, prefix, region and access key are valid. A negative entry holds nothing.
\<close>
theorem cached_entries_are_complete:
  assumes "credentialResponseEntry cresp = Some ce" "vbucketResponseEntry bresp = Some be"
  shows "(\<exists>resp. cresp = Some resp \<and> ce_Revision ce = lc_Revision resp \<and> lc_Revision resp \<noteq> 0 \<and> 0 < ce_TTL ce \<and> ce_Found ce = lc_Found resp
      \<and> (if lc_Found resp then \<exists>policy. ParseS3IAMPolicyJSON (lc_IamPolicyJson resp) = Inr policy \<and> lc_SecretKey resp \<noteq> []
           \<and> ce_value ce = Some \<lparr>SecretKey = lc_SecretKey resp, IAMPolicy = Some policy\<rparr>
         else ce_value ce = None))
    \<and> (\<exists>resp. bresp = Some resp \<and> ce_Revision be = lv_Revision resp \<and> lv_Revision resp \<noteq> 0 \<and> 0 < ce_TTL be \<and> ce_Found be = lv_Found resp
      \<and> (if lv_Found resp then \<exists>cfg. ce_value be = Some cfg \<and> wf_mapping cfg \<and> routingTokenCodec cfg = Some (codec_of cfg)
           \<and> RoutingTokenKey cfg = lv_RoutingTokenKey resp
         else ce_value be = None))"
proof (rule conjI)
  show "\<exists>resp. cresp = Some resp \<and> ce_Revision ce = lc_Revision resp \<and> lc_Revision resp \<noteq> 0 \<and> 0 < ce_TTL ce \<and> ce_Found ce = lc_Found resp
      \<and> (if lc_Found resp then \<exists>policy. ParseS3IAMPolicyJSON (lc_IamPolicyJson resp) = Inr policy \<and> lc_SecretKey resp \<noteq> []
           \<and> ce_value ce = Some \<lparr>SecretKey = lc_SecretKey resp, IAMPolicy = Some policy\<rparr>
         else ce_value ce = None)"
    using assms(1) by (cases rule: credentialResponseEntry_Some) simp_all
next
  show "\<exists>resp. bresp = Some resp \<and> ce_Revision be = lv_Revision resp \<and> lv_Revision resp \<noteq> 0 \<and> 0 < ce_TTL be \<and> ce_Found be = lv_Found resp
      \<and> (if lv_Found resp then \<exists>cfg. ce_value be = Some cfg \<and> wf_mapping cfg \<and> routingTokenCodec cfg = Some (codec_of cfg)
           \<and> RoutingTokenKey cfg = lv_RoutingTokenKey resp
         else ce_value be = None)"
    using assms(2)
  proof (cases rule: vbucketResponseEntry_Some)
    case (positive resp cfg)
    have "codec_ok (responseMapping resp)" by (simp add: codec_ok_def responseMapping_def)
    with positive(8) have "wf_mapping cfg" "routingTokenCodec cfg = Some (codec_of cfg)" "RoutingTokenKey cfg = RoutingTokenKey (responseMapping resp)"
      by (blast dest: normalized_fields)+
    then show ?thesis using positive by (auto simp: responseMapping_def)
  qed simp
qed

section \<open>The client as a resolver\<close>

text \<open>A lookup of \<open>key\<close> that returns \<open>v\<close> in one of the states of a run.\<close>

definition returns_in ::
  "('c, 'b, 'v, 'r) entity \<Rightarrow> (('c, 'b) sys \<Rightarrow> 'v lookup list) \<Rightarrow> (('c, 'b) sys \<Rightarrow> 'v load list) \<Rightarrow> ('c, 'b) sys list \<Rightarrow> string \<Rightarrow> 'v \<Rightarrow> bool" where
  "returns_in E lookups loads path key v =
     (\<exists>s \<in> set path. \<exists>lk \<in> set (lookups s). lk_key lk = key \<and> (\<forall>x. lk_pc lk \<noteq> LkReturn x)
        \<and> (\<exists>now c' loads'. lookup_step E now (s_client s) (loads s) (lk_key lk) (lk_pc lk) = (c', loads', LkReturn (Inr v))))"

text \<open>
  A resolver that is the client in a run: a resolution begins in the first state and is validated in the last, and what the resolver
  answers are copies of what lookups return in between.
\<close>

definition client_resolver ::
  "('c, 'b, 'c, 'p) entity \<Rightarrow> ('c, 'b, 'b, 'q) entity \<Rightarrow> ('c \<Rightarrow> VirtualCredentials) \<Rightarrow> ('b \<Rightarrow> VBucketConfig)
     \<Rightarrow> ('c, 'b) sys \<Rightarrow> ('c, 'b) sys list \<Rightarrow> ('c, 'b) sys \<Rightarrow> Resolver \<Rightarrow> bool" where
  "client_resolver C B credential mapping s path s' res =
     ((\<forall>stamp. rv_BeginResolution res = Inr stamp \<longrightarrow>
         BeginResolution (s_client s) = Inr stamp
         \<and> (rv_ValidateResolution res stamp = Inr () \<longrightarrow> ValidateResolution (s_client s') stamp = Inr ()))
      \<and> (\<forall>accessKey creds. rv_LookupCredentials res accessKey = Inr (Some creds) \<longrightarrow>
           (\<exists>v. creds = credential v \<and> returns_in C s_clookups s_cloads path accessKey v))
      \<and> (\<forall>accessKey bucket cfg. rv_LookupVBucket res accessKey bucket = Inr (Some cfg) \<longrightarrow>
           (\<exists>v. cfg = mapping v \<and> returns_in B s_blookups s_bloads path (vbucketCacheKey accessKey bucket) v)))"

lemma answers_at_stamp:
  assumes run: "sys_path psl opts (credentials_entity crev cparse) (vbuckets_entity brev bparse)
      (faithful TC TB cparse bparse) (sys_init (NewClientWithOptions cfg now0 opts0) backoff) path0 s"
    and path: "sys_path psl opts (credentials_entity crev cparse) (vbuckets_entity brev bparse) (faithful TC TB cparse bparse) s path s'"
    and len: "length path < 2 ^ 64"
    and stamp: "BeginResolution (s_client s) = Inr stamp" "ValidateResolution (s_client s') stamp = Inr ()"
  shows "returns_in (credentials_entity crev cparse) s_clookups s_cloads path key v \<Longrightarrow> TC (rs_Revision stamp) key = Some v"
    and "returns_in (vbuckets_entity brev bparse) s_blookups s_bloads path key w \<Longrightarrow> TB (rs_Revision stamp) key = Some w"
proof -
  have at: "c_revision (s_client s1) = rs_Revision stamp" if "s1 \<in> set path" for s1
    using stamp_uninterrupted [OF sys_path_any [OF run] stamp(1) sys_path_any [OF path] len stamp(2)] that
    by (auto simp: BeginResolution_def lookupSnapshot_def split: if_splits)
  have reach: "\<exists>p. sys_path psl opts (credentials_entity crev cparse) (vbuckets_entity brev bparse)
      (faithful TC TB cparse bparse) (sys_init (NewClientWithOptions cfg now0 opts0) backoff) p s1" if "s1 \<in> set path" for s1
    using sys_path_visits [OF path that] sys_path_trans [OF _ run] by blast
  have definite: "definite (Inr x)" for x by (simp add: definite_def)
  show "TC (rs_Revision stamp) key = Some v" if "returns_in (credentials_entity crev cparse) s_clookups s_cloads path key v"
    using that credential_answers [OF _ _ _ _ definite] reach at unfolding returns_in_def answer_current_def by metis
  show "TB (rs_Revision stamp) key = Some w" if "returns_in (vbuckets_entity brev bparse) s_blookups s_bloads path key w"
    using that vbucket_answers [OF _ _ _ _ definite] reach at unfolding returns_in_def answer_current_def by metis
qed

section \<open>A response\<close>

definition demo_found :: LookupVBucketResponse where
  "demo_found =
     \<lparr>lv_RealEndpoint = RealEndpoint demo_cfg, lv_RealBucket = RealBucket demo_cfg, lv_RealAccessKey = RealAccessKey demo_cfg,
      lv_RealSecretKey = RealSecretKey demo_cfg, lv_RealRegion = RealRegion demo_cfg, lv_PathPrefix = PathPrefix demo_cfg,
      lv_RealUsePathStyle = RealUsePathStyle demo_cfg, lv_Ttl = Some \<lparr>CheckValid = True, AsDuration = 60\<rparr>,
      lv_RoutingTokenKey = RoutingTokenKey demo_cfg, lv_Found = True, lv_NegativeTtl = None, lv_Revision = 3\<rparr>"

definition demo_absent :: LookupCredentialsResponse where
  "demo_absent =
     \<lparr>lc_SecretKey = [], lc_IamPolicyJson = [], lc_Ttl = None, lc_Found = False,
      lc_NegativeTtl = Some \<lparr>CheckValid = True, AsDuration = 5\<rparr>, lc_Revision = 3\<rparr>"

theorem cached_entries_are_complete_witness:
  "\<exists>ce be cfg. credentialResponseEntry (Some demo_absent) = Some ce \<and> ce_value ce = None
     \<and> vbucketResponseEntry (Some demo_found) = Some be \<and> ce_value be = Some cfg \<and> wf_mapping cfg"
proof -
  have c: "credentialResponseEntry (Some demo_absent) = Some \<lparr>ce_value = None, ce_Found = False, ce_Revision = 3, ce_TTL = 5\<rparr>"
    by (simp add: credentialResponseEntry_def demo_absent_def cacheTTL_def)
  have "routingTokenCodec demo_cfg = None" by (simp add: demo_cfg_def)
  then have "responseMapping demo_found = demo_cfg" by (cases demo_cfg) (simp add: responseMapping_def demo_found_def)
  then have b: "vbucketResponseEntry (Some demo_found) = Some \<lparr>ce_value = Some demo_mapping, ce_Found = True, ce_Revision = 3, ce_TTL = 60\<rparr>"
    using demo_normalized by (simp add: vbucketResponseEntry_def demo_found_def cacheTTL_def)
  from cached_entries_are_complete [OF c b] c b show ?thesis by (auto simp: demo_found_def)
qed

end
